(* ===== verification/Prelude.thy ===== *)
theory Prelude
  imports Complex_Main
begin

text \<open>
  Shared vocabulary of the torchpaqm loudness development: the exceptions the modelled
  code raises, the collection of algebraic rules that the
  spline theory fills, and generic lemmas on strictly sorted lists and on powers of
  ten that several components use.
\<close>

section \<open>Errors\<close>

text \<open>
  Every exception of the modelled code is a constructor:
  \<^item> \<open>ContourRangeError\<close>: the \<open>ValueError\<close> of \<open>equal_loudness_contour\<close>
    (loudness level outside 0..90 phon);
  \<^item> \<open>SplineTooShort\<close>, \<open>SplineLengthMismatch\<close>, \<open>SplineNonFinite\<close>,
    \<open>SplineNotIncreasing\<close>: the \<open>ValueError\<close>s of scipy's \<open>CubicSpline\<close> input checks;
  \<^item> \<open>SplineSingular\<close>: a zero pivot of the elimination that solves the spline system;
  \<^item> \<open>BroadcastError\<close>: the \<open>RuntimeError\<close> of an element-wise torch operation on two
    tensors whose shapes do not broadcast.
\<close>

datatype error =
    ContourRangeError
  | SplineTooShort
  | SplineLengthMismatch
  | SplineNonFinite
  | SplineNotIncreasing
  | SplineSingular
  | BroadcastError

named_theorems spline_alg "algebraic facts about the Hermite pieces of a spline"

section \<open>Strictly increasing lists\<close>

lemma sorted_less_nth_mono:
  "sorted_wrt (<) (xs :: 'a::linorder list) \<Longrightarrow> i < j \<Longrightarrow> j < length xs \<Longrightarrow> xs ! i < xs ! j"
  by (simp add: sorted_wrt_iff_nth_less)

lemma sorted_less_nth_mono_le:
  assumes "sorted_wrt (<) (xs :: 'a::linorder list)" "i \<le> j" "j < length xs"
  shows "xs ! i \<le> xs ! j"
proof (cases "i = j")
  case False
  with assms have "xs ! i < xs ! j"
    by (simp add: sorted_less_nth_mono)
  then show ?thesis by simp
qed simp

text \<open>
  In a strictly increasing list the elements not above the \<open>k\<close>-th are exactly the first
  \<open>k + 1\<close>: this is the count a right-sided binary search returns.
\<close>

lemma filter_le_nth_sorted:
  assumes s: "sorted_wrt (<) (xs :: 'a::linorder list)" and k: "k < length xs"
  shows "filter (\<lambda>y. y \<le> xs ! k) xs = take (Suc k) xs"
proof -
  have tk: "\<forall>y\<in>set (take (Suc k) xs). y \<le> xs ! k"
    using s k by (auto simp: in_set_conv_nth nth_take intro!: sorted_less_nth_mono_le)
  have dr: "\<forall>y\<in>set (drop (Suc k) xs). xs ! k < y"
    using s k by (auto simp: in_set_conv_nth intro!: sorted_less_nth_mono)
  have "filter (\<lambda>y. y \<le> xs ! k) (drop (Suc k) xs) = []"
    using dr by (simp add: filter_empty_conv not_le)
  moreover have "filter (\<lambda>y. y \<le> xs ! k) (take (Suc k) xs) = take (Suc k) xs"
    using tk by simp
  moreover have "xs = take (Suc k) xs @ drop (Suc k) xs"
    by simp
  ultimately show ?thesis
    by (metis append.right_neutral filter_append)
qed

lemma count_le_nth_sorted:
  "sorted_wrt (<) (xs :: 'a::linorder list) \<Longrightarrow> k < length xs \<Longrightarrow> length (filter (\<lambda>y. y \<le> xs ! k) xs) = Suc k"
  by (simp add: filter_le_nth_sorted)

text \<open>
  In a strictly increasing list the elements not above a bound form a prefix: an index
  holds such an element exactly when it is below their count.
\<close>

lemma nth_le_iff_count:
  "sorted_wrt (<) (xs :: 'a::linorder list) \<Longrightarrow> j < length xs \<Longrightarrow>
     xs ! j \<le> u \<longleftrightarrow> j < length (filter (\<lambda>k. k \<le> u) xs)"
proof (induction xs arbitrary: j)
  case Nil
  then show ?case by simp
next
  case (Cons a xs)
  show ?case
  proof (cases "a \<le> u")
    case True
    with Cons show ?thesis by (cases j) auto
  next
    case False
    then have "filter (\<lambda>k. k \<le> u) (a # xs) = []"
      using Cons.prems(1) by (auto simp: filter_empty_conv)
    moreover have "\<not> (a # xs) ! j \<le> u"
      using Cons.prems False sorted_less_nth_mono_le [OF Cons.prems(1), of 0 j] by auto
    ultimately show ?thesis by simp
  qed
qed

section \<open>Powers of ten\<close>

lemma powr10_pos [simp]: "0 < (10::real) powr x"
  by simp

lemma powr10_ge_one: "0 \<le> x \<Longrightarrow> 1 \<le> (10::real) powr x"
  by (simp add: ge_one_powr_ge_zero)

lemma powr10_strict_mono: "x < y \<Longrightarrow> (10::real) powr x < 10 powr y"
  by simp

end
