(* ===== verification/Torch_Semantics.thy ===== *)
theory Torch_Semantics
  imports Prelude
begin

text \<open>
  The arithmetic that the Python code delegates to torch and to Python floats, as far as
  the loudness core uses it. A float is an extended real: a finite real, one of the two
  infinities, or NaN. Rounding of arithmetic is not modelled (finite results are exact
  reals, and no finite value overflows; \<open>Float32\<close> models the rounding of the stored
  table), but every IEEE rule that turns a finite input into an infinity
  or a NaN, and every rule by which those propagate, is: division by zero, \<open>0 * inf\<close>,
  \<open>inf - inf\<close>, powers of negative and zero bases, logarithms of non-positive numbers,
  ordered comparisons with NaN, and \<open>torch.clip\<close>. Signed zero is not modelled: every
  zero is \<open>+0\<close>.

  Tensors of rank two (the excitation patterns of the pipeline are bands by frames) are
  lists of rows, and element-wise binary operations follow torch's broadcasting rule.
\<close>

section \<open>Floats\<close>

datatype fl = Fin real | PInf | NInf | NaN

fun fl_neg :: "fl \<Rightarrow> fl" where
  "fl_neg (Fin x) = Fin (- x)"
| "fl_neg PInf = NInf"
| "fl_neg NInf = PInf"
| "fl_neg NaN = NaN"

fun fl_add :: "fl \<Rightarrow> fl \<Rightarrow> fl" where
  "fl_add (Fin x) (Fin y) = Fin (x + y)"
| "fl_add NaN _ = NaN"
| "fl_add _ NaN = NaN"
| "fl_add PInf NInf = NaN"
| "fl_add NInf PInf = NaN"
| "fl_add PInf _ = PInf"
| "fl_add _ PInf = PInf"
| "fl_add NInf _ = NInf"
| "fl_add _ NInf = NInf"

definition fl_sub :: "fl \<Rightarrow> fl \<Rightarrow> fl" where
  "fl_sub a b = fl_add a (fl_neg b)"

text \<open>An infinity scaled by a finite factor: \<open>0 * inf\<close> is NaN, a negative factor flips it.\<close>

definition inf_scale :: "real \<Rightarrow> fl \<Rightarrow> fl" where
  "inf_scale x i = (if x = 0 then NaN else if 0 < x then i else fl_neg i)"

fun fl_mul :: "fl \<Rightarrow> fl \<Rightarrow> fl" where
  "fl_mul (Fin x) (Fin y) = Fin (x * y)"
| "fl_mul NaN _ = NaN"
| "fl_mul _ NaN = NaN"
| "fl_mul (Fin x) i = inf_scale x i"
| "fl_mul i (Fin x) = inf_scale x i"
| "fl_mul PInf i = i"
| "fl_mul NInf i = fl_neg i"

fun fl_div :: "fl \<Rightarrow> fl \<Rightarrow> fl" where
  "fl_div (Fin x) (Fin y) =
     (if y \<noteq> 0 then Fin (x / y) else if x = 0 then NaN else if 0 < x then PInf else NInf)"
| "fl_div NaN _ = NaN"
| "fl_div _ NaN = NaN"
| "fl_div (Fin x) _ = Fin 0"
| "fl_div i (Fin y) = (if 0 \<le> y then i else fl_neg i)"
| "fl_div _ _ = NaN"

text \<open>
  \<open>x ** y\<close> with a finite exponent \<open>y\<close> (C's \<open>pow\<close>, which torch and Python follow):
  a zero exponent or a base of one give one even for NaN; a negative finite base gives NaN
  unless the exponent is an integer.
\<close>

definition int_power :: "real \<Rightarrow> real \<Rightarrow> real" where
  "int_power x y = (if 0 \<le> y then x ^ nat \<lfloor>y\<rfloor> else inverse (x ^ nat \<lfloor>- y\<rfloor>))"

fun fl_pow :: "fl \<Rightarrow> real \<Rightarrow> fl" where
  "fl_pow (Fin x) y =
     (if y = 0 \<or> x = 1 then Fin 1
      else if 0 < x then Fin (x powr y)
      else if x = 0 then (if 0 < y then Fin 0 else PInf)
      else if y = of_int \<lfloor>y\<rfloor> then Fin (int_power x y)
      else NaN)"
| "fl_pow PInf y = (if y = 0 then Fin 1 else if 0 < y then PInf else Fin 0)"
| "fl_pow NInf y =
     (if y = 0 then Fin 1 else if y < 0 then Fin 0
      else if y = of_int \<lfloor>y\<rfloor> \<and> odd \<lfloor>y\<rfloor> then NInf else PInf)"
| "fl_pow NaN y = (if y = 0 then Fin 1 else NaN)"

text \<open>Python's \<open>10 ** x\<close> for a float \<open>x\<close>, and \<open>torch.log10\<close>.\<close>

fun fl_exp10 :: "fl \<Rightarrow> fl" where
  "fl_exp10 (Fin x) = Fin (10 powr x)"
| "fl_exp10 PInf = PInf"
| "fl_exp10 NInf = Fin 0"
| "fl_exp10 NaN = NaN"

fun fl_log10 :: "fl \<Rightarrow> fl" where
  "fl_log10 (Fin x) = (if 0 < x then Fin (log 10 x) else if x = 0 then NInf else NaN)"
| "fl_log10 PInf = PInf"
| "fl_log10 NInf = NaN"
| "fl_log10 NaN = NaN"

text \<open>The ordered comparison \<open><\<close>: false whenever NaN is involved.\<close>

fun fl_less :: "fl \<Rightarrow> fl \<Rightarrow> bool" where
  "fl_less (Fin x) (Fin y) = (x < y)"
| "fl_less NaN _ = False"
| "fl_less _ NaN = False"
| "fl_less NInf b = (b \<noteq> NInf)"
| "fl_less a PInf = (a \<noteq> PInf)"
| "fl_less _ _ = False"

text \<open>\<open>torch.clip(x, min=0)\<close>: NaN stays NaN.\<close>

fun fl_clip0 :: "fl \<Rightarrow> fl" where
  "fl_clip0 (Fin x) = Fin (max x 0)"
| "fl_clip0 PInf = PInf"
| "fl_clip0 NInf = Fin 0"
| "fl_clip0 NaN = NaN"

fun is_finite :: "fl \<Rightarrow> bool" where
  "is_finite (Fin _) = True"
| "is_finite _ = False"

section \<open>Rank-two tensors and broadcasting\<close>

text \<open>
  A tensor of shape \<open>(r, c)\<close> is a list of \<open>r\<close> rows of length \<open>c\<close>. Broadcasting pairs
  two sizes that are equal or of which one is 1; any other pair raises.
\<close>

text \<open>The tensors of the compressor: rank two, float entries.\<close>

type_synonym tensor = "fl list list"

definition shape :: "'a list list \<Rightarrow> nat \<times> nat" where
  "shape A = (length A, case A of [] \<Rightarrow> 0 | r # _ \<Rightarrow> length r)"

definition rect :: "'a list list \<Rightarrow> bool" where
  "rect A = list_all (\<lambda>r. length r = snd (shape A)) A"

definition bdim :: "nat \<Rightarrow> nat \<Rightarrow> nat option" where
  "bdim m n = (if m = n then Some m else if m = 1 then Some n else if n = 1 then Some m else None)"

text \<open>The element of a broadcast operand at a result index: a size-1 axis is repeated.\<close>

definition bget :: "'a list list \<Rightarrow> nat \<Rightarrow> nat \<Rightarrow> 'a" where
  "bget A i j = (let r = A ! (if length A = 1 then 0 else i) in r ! (if length r = 1 then 0 else j))"

definition broadcast2 :: "('a \<Rightarrow> 'b \<Rightarrow> 'c) \<Rightarrow> 'a list list \<Rightarrow> 'b list list \<Rightarrow> error + 'c list list" where
  "broadcast2 f A B =
     (case (bdim (fst (shape A)) (fst (shape B)), bdim (snd (shape A)) (snd (shape B))) of
        (Some r, Some c) \<Rightarrow> Inr (map (\<lambda>i. map (\<lambda>j. f (bget A i j) (bget B i j)) [0..<c]) [0..<r])
      | _ \<Rightarrow> Inl BroadcastError)"

subsection \<open>Evaluation on finite arguments\<close>

lemma fl_sub_Fin [simp]: "fl_sub (Fin x) (Fin y) = Fin (x - y)"
  by (simp add: fl_sub_def)

lemma fl_div_Fin [simp]: "y \<noteq> 0 \<Longrightarrow> fl_div (Fin x) (Fin y) = Fin (x / y)"
  by simp

lemma fl_pow_pos [simp]: "0 < x \<Longrightarrow> fl_pow (Fin x) y = Fin (x powr y)"
  by simp

lemma fl_log10_pos [simp]: "0 < x \<Longrightarrow> fl_log10 (Fin x) = Fin (log 10 x)"
  by simp

lemma fl_clip0_nonneg: "fl_clip0 a = Fin v \<Longrightarrow> 0 \<le> v"
  by (cases a) auto

lemma fl_mul_Fin_NaN [simp]: "fl_mul (Fin x) NaN = NaN"
  by simp

section \<open>Broadcasting lemmas\<close>

lemma bdim_Some_iff:
  "bdim m n = Some k \<longleftrightarrow> (m = n \<and> k = m) \<or> (m \<noteq> n \<and> m = 1 \<and> k = n) \<or> (m \<noteq> n \<and> m \<noteq> 1 \<and> n = 1 \<and> k = m)"
  by (auto simp: bdim_def)

lemma bdim_None_iff: "bdim m n = None \<longleftrightarrow> m \<noteq> n \<and> m \<noteq> 1 \<and> n \<noteq> 1"
  by (auto simp: bdim_def)

lemma shape_map_upt:
  "shape (map (\<lambda>i. map (g i) [0..<c]) [0..<r]) = (r, if r = 0 then 0 else c)"
  by (cases r) (simp_all add: shape_def upt_conv_Cons del: upt_Suc)

lemma rect_map_upt: "rect (map (\<lambda>i. map (g i) [0..<c]) [0..<r])"
  by (simp add: rect_def shape_map_upt list_all_iff)

lemma broadcast2_InrE:
  assumes "broadcast2 f A B = Inr C"
  obtains r c where "bdim (fst (shape A)) (fst (shape B)) = Some r"
    "bdim (snd (shape A)) (snd (shape B)) = Some c"
    "C = map (\<lambda>i. map (\<lambda>j. f (bget A i j) (bget B i j)) [0..<c]) [0..<r]"
  using assms by (auto simp: broadcast2_def split: option.splits)

lemma broadcast2_Inr_shape:
  assumes "broadcast2 f A B = Inr C"
  shows "bdim (fst (shape A)) (fst (shape B)) = Some (fst (shape C))
       \<and> (0 < fst (shape C) \<longrightarrow> bdim (snd (shape A)) (snd (shape B)) = Some (snd (shape C)))
       \<and> rect C"
  using assms by (rule broadcast2_InrE) (simp add: shape_map_upt rect_map_upt)

lemma broadcast2_nth:
  assumes "broadcast2 f A B = Inr C" "i < fst (shape C)" "j < snd (shape C)"
  shows "C ! i ! j = f (bget A i j) (bget B i j)"
  using assms(1)
proof (rule broadcast2_InrE)
  fix r c
  assume C: "C = map (\<lambda>i. map (\<lambda>j. f (bget A i j) (bget B i j)) [0..<c]) [0..<r]"
  with assms(2,3) have "i < r" "j < c"
    by (auto simp: shape_map_upt split: if_splits)
  with C show ?thesis by simp
qed

lemma bdim_commute: "bdim m n = bdim n m"
  by (auto simp: bdim_def)

lemma bdim_index: "bdim m n = Some r \<Longrightarrow> i < r \<Longrightarrow> (if m = 1 then 0 else i) < m"
  by (auto simp: bdim_def split: if_splits)

lemma rect_nth_length: "rect A \<Longrightarrow> i < length A \<Longrightarrow> length (A ! i) = snd (shape A)"
  by (simp add: rect_def list_all_length)

lemma fst_shape: "fst (shape A) = length A"
  by (simp add: shape_def)

lemma bget_rect:
  assumes "rect A" "i < length A" "j < snd (shape A)"
  shows "bget A i j = A ! i ! j"
proof -
  have "length (A ! i) = snd (shape A)" using assms(1,2) by (rule rect_nth_length)
  then have "(if length (A ! i) = 1 then 0 else j) = j" using assms(3) by auto
  moreover have "(if length A = 1 then 0 else i) = i" using assms(2) by auto
  ultimately show ?thesis by (simp add: bget_def Let_def)
qed

text \<open>Every element a broadcast reads from an operand is an element of that operand.\<close>

lemma bget_list_all:
  assumes "list_all (list_all P) A" "rect A"
    and "bdim (length A) m = Some r" "bdim (snd (shape A)) n = Some c" "i < r" "j < c"
  shows "P (bget A i j)"
proof -
  let ?k = "if length A = 1 then 0 else i"
  have k: "?k < length A" using bdim_index [OF assms(3,5)] .
  have len: "length (A ! ?k) = snd (shape A)" using rect_nth_length [OF assms(2) k] .
  let ?l = "if length (A ! ?k) = 1 then 0 else j"
  have "?l < length (A ! ?k)" using bdim_index [OF assms(4,6)] len by simp
  moreover have "list_all P (A ! ?k)" using assms(1) k by (simp add: list_all_length)
  ultimately have "P (A ! ?k ! ?l)" by (simp add: list_all_length)
  moreover have "bget A i j = A ! ?k ! ?l" by (simp add: bget_def Let_def)
  ultimately show ?thesis by simp
qed

lemma shape_map_map: "shape (map (map h) A) = shape A"
  by (simp add: shape_def split: list.splits)

lemma rect_map_map: "rect A \<Longrightarrow> rect (map (map h) A)"
  by (simp add: rect_def shape_map_map list_all_iff)

text \<open>A tensor broadcast against an element-wise image of itself: no axis is stretched.\<close>

lemma broadcast2_map_self:
  assumes "rect A"
  shows "broadcast2 f A (map (map h) A) = Inr (map (map (\<lambda>a. f a (h a))) A)"
proof -
  let ?c = "snd (shape A)"
  have "map (\<lambda>i. map (\<lambda>j. f (bget A i j) (bget (map (map h) A) i j)) [0..<?c]) [0..<length A]
        = map (map (\<lambda>a. f a (h a))) A"
  proof (rule nth_equalityI)
    fix i assume i: "i < length (map (\<lambda>i. map (\<lambda>j. f (bget A i j) (bget (map (map h) A) i j)) [0..<?c]) [0..<length A])"
    then have i': "i < length A" by simp
    have len: "length (A ! i) = ?c" using assms i' by (rule rect_nth_length)
    have "\<And>j. j < ?c \<Longrightarrow> bget (map (map h) A) i j = h (A ! i ! j)"
    proof -
      fix j assume j: "j < ?c"
      have "bget (map (map h) A) i j = map (map h) A ! i ! j"
        using bget_rect [OF rect_map_map [OF assms], where i = i and j = j] i' j by (simp add: shape_map_map)
      then show "bget (map (map h) A) i j = h (A ! i ! j)" using i' j len by simp
    qed
    moreover have "\<And>j. j < ?c \<Longrightarrow> bget A i j = A ! i ! j"
      using bget_rect [OF assms i'] by simp
    ultimately show "map (\<lambda>i. map (\<lambda>j. f (bget A i j) (bget (map (map h) A) i j)) [0..<?c]) [0..<length A] ! i
                     = map (map (\<lambda>a. f a (h a))) A ! i"
      using i' len by (auto intro!: nth_equalityI)
  qed simp
  then show ?thesis
    by (simp add: broadcast2_def shape_map_map fst_shape bdim_def)
qed

lemma broadcast2_shape:
  assumes "bdim (length A) (length B) = Some r" "bdim (snd (shape A)) (snd (shape B)) = Some k"
  shows "\<exists>C. broadcast2 f A B = Inr C \<and> shape C = (r, if r = 0 then 0 else k) \<and> rect C
            \<and> (\<forall>i<r. \<forall>j<k. C ! i ! j = f (bget A i j) (bget B i j))"
  using assms by (simp add: broadcast2_def fst_shape shape_map_upt rect_map_upt)

end
