(* ===== verification/Contour.thy ===== *)
theory Contour
  imports Torch_Semantics
begin

text \<open>
  The ISO 226:2003 equal-loudness contours of \<open>src/torchpaqm/loudness.py\<close>: the
  29-row constant table \<open>EQUAL_LOUDNESS_CONTOUR_PARAMS\<close> (lines 10--41), the default
  hearing threshold \<open>PHON_HEARING_THRESHOLD\<close> (line 43) and the method
  \<open>LoudnessCompressor.equal_loudness_contour\<close> (lines 60--76), which does not read the
  object's state and is modelled as a function of the loudness level alone. The loudness
  level is a Python float, so it may be an infinity or NaN; the tensor arithmetic of the
  method is modelled with the float operations of \<open>Torch_Semantics\<close>.

  The lemmas show that the range check rejects exactly the finite levels outside
  \<open>[0, 90]\<close> and both infinities but lets NaN through; that on \<open>[0, 90]\<close> the method
  computes the ISO 226 formula with every intermediate finite (the argument of the
  logarithm stays positive for every row of the table); and that every contour value
  grows strictly with the loudness level.
\<close>

section \<open>The constant table\<close>

text \<open>Rows \<open>(f, af, Lu, Tf)\<close>: anchor frequency in Hz and the three ISO 226 coefficients.\<close>

definition EQUAL_LOUDNESS_CONTOUR_PARAMS :: "(real \<times> real \<times> real \<times> real) list" where
  "EQUAL_LOUDNESS_CONTOUR_PARAMS = [
    (20, 0.532, -31.6, 78.5), (25, 0.506, -27.2, 68.7), (31.5, 0.480, -23.0, 59.5),
    (40, 0.455, -19.1, 51.1), (50, 0.432, -15.9, 44.0), (63, 0.409, -13.0, 37.5),
    (80, 0.387, -10.3, 31.5), (100, 0.367, -8.1, 26.5), (125, 0.349, -6.2, 22.1),
    (160, 0.330, -4.5, 17.9), (200, 0.315, -3.1, 14.4), (250, 0.301, -2.0, 11.4),
    (315, 0.288, -1.1, 8.6), (400, 0.276, -0.4, 6.2), (500, 0.267, 0.0, 4.4),
    (630, 0.259, 0.3, 3.0), (800, 0.253, 0.5, 2.2), (1000, 0.250, 0.0, 2.4),
    (1250, 0.246, -2.7, 3.5), (1600, 0.244, -4.1, 1.7), (2000, 0.243, -1.0, -1.3),
    (2500, 0.243, 1.7, -4.2), (3150, 0.243, 2.5, -6.0), (4000, 0.242, 1.2, -5.4),
    (5000, 0.242, -2.1, -1.5), (6300, 0.245, -7.1, 6.0), (8000, 0.254, -11.2, 12.6),
    (10000, 0.271, -10.7, 13.9), (12500, 0.301, -3.1, 12.3)]"

definition PHON_HEARING_THRESHOLD :: real where
  "PHON_HEARING_THRESHOLD = 3.539"

section \<open>The contour at one loudness level\<close>

text \<open>
  \<open>Af\<close> of line 71 for one row: \<open>0.00447 * (10 ** (0.025 * Ln) - 1.15)\<close> is Python
  float arithmetic on the level, \<open>(0.4 * 10 ** ((Tf + Lu) / 10 - 9)) ** af\<close> is tensor
  arithmetic on the table's columns.
\<close>

definition contour_Af :: "fl \<Rightarrow> real \<times> real \<times> real \<times> real \<Rightarrow> fl" where
  "contour_Af Ln p = (case p of (f, af, Lu, Tf) \<Rightarrow>
     fl_add (fl_mul (Fin 0.00447) (fl_sub (fl_exp10 (fl_mul (Fin 0.025) Ln)) (Fin 1.15)))
            (fl_pow (Fin (0.4 * 10 powr ((Tf + Lu) / 10 - 9))) af))"

text \<open>\<open>spl\<close> of line 75: \<open>((10 / af) * torch.log10(Af)) - Lu + 94\<close>.\<close>

definition contour_spl :: "fl \<Rightarrow> real \<times> real \<times> real \<times> real \<Rightarrow> fl" where
  "contour_spl Ln p = (case p of (f, af, Lu, Tf) \<Rightarrow>
     fl_add (fl_sub (fl_mul (Fin (10 / af)) (fl_log10 (contour_Af Ln p))) (Fin Lu)) (Fin 94))"

text \<open>The method: the range check of line 63, then the 29 values in table order.\<close>

definition equal_loudness_contour :: "fl \<Rightarrow> error + fl list" where
  "equal_loudness_contour Ln =
     (if fl_less Ln (Fin 0) \<or> fl_less (Fin 90) Ln then Inl ContourRangeError
      else Inr (map (contour_spl Ln) EQUAL_LOUDNESS_CONTOUR_PARAMS))"

text \<open>
  The ISO 226 formula over the reals, as the standard and the spec state it: the abstract
  contour that the method is meant to compute.
\<close>

definition iso_Af :: "real \<Rightarrow> real \<times> real \<times> real \<times> real \<Rightarrow> real" where
  "iso_Af Ln p = (case p of (f, af, Lu, Tf) \<Rightarrow>
     0.00447 * (10 powr (0.025 * Ln) - 1.15) + (0.4 * 10 powr ((Tf + Lu) / 10 - 9)) powr af)"

definition iso_spl :: "real \<Rightarrow> real \<times> real \<times> real \<times> real \<Rightarrow> real" where
  "iso_spl Ln p = (case p of (f, af, Lu, Tf) \<Rightarrow> 10 / af * log 10 (iso_Af Ln p) - Lu + 94)"

section \<open>Facts about the table\<close>

text \<open>
  The condition under which a row keeps \<open>Af\<close> positive for every level \<open>Ln \<ge> 0\<close>:
  a positive exponent, and a second summand of \<open>Af\<close> of at least \<open>10\<^sup>-\<^sup>3\<close>, which
  outweighs the most negative value \<open>-0.00447 * 0.15\<close> of the first summand.
\<close>

definition row_ok :: "real \<times> real \<times> real \<times> real \<Rightarrow> bool" where
  "row_ok p = (case p of (f, af, Lu, Tf) \<Rightarrow> 0 < af \<and> -3 \<le> af * ((Tf + Lu) / 10 - 9 - 2/5))"

lemma params_rows_ok: "list_all row_ok EQUAL_LOUDNESS_CONTOUR_PARAMS"
  by (simp add: EQUAL_LOUDNESS_CONTOUR_PARAMS_def row_ok_def)

lemma params_length [simp]: "length EQUAL_LOUDNESS_CONTOUR_PARAMS = 29"
  by (simp add: EQUAL_LOUDNESS_CONTOUR_PARAMS_def)

lemma params_freqs_increasing: "sorted_wrt (<) (map fst EQUAL_LOUDNESS_CONTOUR_PARAMS)"
  by (simp add: EQUAL_LOUDNESS_CONTOUR_PARAMS_def)

lemma row_ok_params: "p \<in> set EQUAL_LOUDNESS_CONTOUR_PARAMS \<Longrightarrow> row_ok p"
  using params_rows_ok by (simp add: list_all_iff)

lemma powr10_two_fifths: "(10::real) powr (-2/5) \<le> 2/5"
proof -
  have "((10::real) powr (-2/5)) ^ Suc 4 = 10 powr (-2)"
    by (simp add: powr_realpow[symmetric] powr_powr)
  also have "\<dots> \<le> (2/5) ^ Suc 4"
    by (simp add: powr_minus_divide power_divide)
  finally show ?thesis
    by (rule power_le_imp_le_base) simp
qed

lemma row_ok_second_summand:
  assumes "row_ok (f, af, Lu, Tf)"
  shows "1/1000 \<le> (0.4 * 10 powr ((Tf + Lu) / 10 - 9)) powr af"
proof -
  let ?q = "(Tf + Lu) / 10 - 9"
  from assms have af: "0 < af" and ex: "-3 \<le> af * (?q - 2/5)"
    by (auto simp: row_ok_def)
  have "(10::real) powr (?q - 2/5) = 10 powr (-2/5) * 10 powr ?q"
    by (simp add: powr_add [symmetric])
  also have "\<dots> \<le> 0.4 * 10 powr ?q"
    using powr10_two_fifths by (intro mult_right_mono) simp_all
  finally have base: "10 powr (?q - 2/5) \<le> 0.4 * 10 powr ?q" .
  have "(1/1000::real) = 10 powr (-3)"
    by (simp add: powr_minus_divide)
  also have "\<dots> \<le> 10 powr (af * (?q - 2/5))"
    using ex by simp
  also have "\<dots> = (10 powr (?q - 2/5)) powr af"
    by (simp add: powr_powr mult.commute)
  also have "\<dots> \<le> (0.4 * 10 powr ?q) powr af"
    using base af by (intro powr_mono2) simp_all
  finally show ?thesis .
qed

lemma Af_summands_pos: "1 \<le> X \<Longrightarrow> 1/1000 \<le> T \<Longrightarrow> 0 < (0.00447::real) * (X - 1.15) + T"
  by (simp add: field_simps)

lemma iso_Af_pos:
  assumes "row_ok p" "0 \<le> Ln"
  shows "0 < iso_Af Ln p"
proof (cases p)
  case (fields f af Lu Tf)
  have "1 \<le> (10::real) powr (0.025 * Ln)"
    using assms(2) by (simp add: powr10_ge_one)
  moreover have "1/1000 \<le> (0.4 * 10 powr ((Tf + Lu) / 10 - 9)) powr af"
    using assms(1) fields row_ok_second_summand by blast
  ultimately show ?thesis
    unfolding fields iso_Af_def by (simp only: prod.case Af_summands_pos)
qed

lemma iso_Af_strict_mono:
  assumes "Ln < Ln'"
  shows "iso_Af Ln p < iso_Af Ln' p"
  using assms by (cases p) (simp add: iso_Af_def)

section \<open>Evaluation of the method\<close>

lemma contour_Af_Fin: "contour_Af (Fin Ln) p = Fin (iso_Af Ln p)"
  by (cases p) (simp add: contour_Af_def iso_Af_def)

lemma contour_spl_Fin:
  assumes "row_ok p" "0 \<le> Ln"
  shows "contour_spl (Fin Ln) p = Fin (iso_spl Ln p)"
proof (cases p)
  case (fields f af Lu Tf)
  with iso_Af_pos [OF assms] show ?thesis
    by (simp add: contour_spl_def contour_Af_Fin iso_spl_def)
qed

lemma contour_spl_NaN: "contour_spl NaN p = NaN"
  by (cases p) (simp add: contour_spl_def contour_Af_def fl_sub_def)

lemma range_check_Fin: "(fl_less (Fin x) (Fin 0) \<or> fl_less (Fin 90) (Fin x)) = (x < 0 \<or> 90 < x)"
  by simp


lemma iso_spl_strict_mono:
  assumes "row_ok p" "0 \<le> Ln" "Ln < Ln'"
  shows "iso_spl Ln p < iso_spl Ln' p"
proof (cases p)
  case (fields f af Lu Tf)
  from assms(1) fields have af: "0 < af" by (simp add: row_ok_def)
  have pos: "0 < iso_Af Ln p"
    using assms(1,2) by (rule iso_Af_pos)
  have "log 10 (iso_Af Ln p) < log 10 (iso_Af Ln' p)"
    using pos iso_Af_strict_mono [OF assms(3)] by (simp add: log_less)
  then have "10 / af * log 10 (iso_Af Ln p) < 10 / af * log 10 (iso_Af Ln' p)"
    using af by (intro mult_strict_left_mono) auto
  then show ?thesis
    using fields by (simp add: iso_spl_def)
qed

section \<open>Properties of equal_loudness_contour\<close>

text \<open>
  C7. The range check of \<open>equal_loudness_contour\<close> raises exactly for the finite levels
  below 0 or above 90 phon and for both infinities.
\<close>

theorem equal_loudness_contour_range_error:
  "equal_loudness_contour Ln = Inl ContourRangeError \<longleftrightarrow>
     (Ln = PInf \<or> Ln = NInf \<or> (\<exists>x. Ln = Fin x \<and> (x < 0 \<or> 90 < x)))"
  by (cases Ln) (auto simp: equal_loudness_contour_def)

text \<open>
  C8. For every finite level in \<open>[0, 90]\<close>, \<open>equal_loudness_contour\<close> returns the 29
  values of the ISO 226 formula, in table order, and all of them are finite (the
  logarithm's argument \<open>Af\<close> stays positive for every row of the table).
\<close>

theorem equal_loudness_contour_iso:
  assumes "0 \<le> x" "x \<le> 90"
  shows "equal_loudness_contour (Fin x) =
           Inr (map (\<lambda>p. Fin (iso_spl x p)) EQUAL_LOUDNESS_CONTOUR_PARAMS)"
  using assms by (simp add: equal_loudness_contour_def contour_spl_Fin row_ok_params)

theorem equal_loudness_contour_iso_witness:
  "equal_loudness_contour (Fin 45) =
     Inr (map (\<lambda>p. Fin (iso_spl 45 p)) EQUAL_LOUDNESS_CONTOUR_PARAMS)"
  using equal_loudness_contour_iso [of 45] by simp

text \<open>
  C9. Every value of the contour grows strictly with the loudness level: between two
  levels \<open>0 \<le> x < y \<le> 90\<close>, the \<open>i\<close>-th SPL at \<open>x\<close> is finite and below the one at \<open>y\<close>.
\<close>

theorem equal_loudness_contour_strict_mono:
  assumes "0 \<le> x" "x < y" "y \<le> 90"
    and "equal_loudness_contour (Fin x) = Inr c" "equal_loudness_contour (Fin y) = Inr c'"
    and "i < 29"
  shows "\<exists>a b. c ! i = Fin a \<and> c' ! i = Fin b \<and> a < b"
proof -
  let ?p = "EQUAL_LOUDNESS_CONTOUR_PARAMS ! i"
  have rok: "row_ok ?p"
    using assms(6) by (simp add: row_ok_params)
  have "c ! i = contour_spl (Fin x) ?p" "c' ! i = contour_spl (Fin y) ?p"
    using assms by (auto simp: equal_loudness_contour_def)
  then have c: "c ! i = Fin (iso_spl x ?p)" and c': "c' ! i = Fin (iso_spl y ?p)"
    using contour_spl_Fin [OF rok] assms(1,2) by simp_all
  from rok have "iso_spl x ?p < iso_spl y ?p"
    using assms(1,2) by (rule iso_spl_strict_mono)
  with c c' show ?thesis by blast
qed

theorem equal_loudness_contour_strict_mono_witness:
  "\<exists>a b. map (\<lambda>p. Fin (iso_spl 20 p)) EQUAL_LOUDNESS_CONTOUR_PARAMS ! 17 = Fin a
        \<and> map (\<lambda>p. Fin (iso_spl 40 p)) EQUAL_LOUDNESS_CONTOUR_PARAMS ! 17 = Fin b \<and> a < b"
proof -
  have e20: "equal_loudness_contour (Fin 20) = Inr (map (\<lambda>p. Fin (iso_spl 20 p)) EQUAL_LOUDNESS_CONTOUR_PARAMS)"
    using contour_spl_Fin row_ok_params by (simp add: equal_loudness_contour_def)
  have e40: "equal_loudness_contour (Fin 40) = Inr (map (\<lambda>p. Fin (iso_spl 40 p)) EQUAL_LOUDNESS_CONTOUR_PARAMS)"
    using contour_spl_Fin row_ok_params by (simp add: equal_loudness_contour_def)
  show ?thesis
    using equal_loudness_contour_strict_mono [OF _ _ _ e20 e40, of 17] by simp
qed

text \<open>
  C10. A NaN loudness level passes the range check of line 63, since both comparisons
  with NaN are false, and \<open>equal_loudness_contour\<close> returns 29 NaN values instead of
  raising the documented \<open>ValueError\<close>.
\<close>

theorem equal_loudness_contour_nan:
  "equal_loudness_contour NaN = Inr (replicate 29 NaN)"
proof -
  have "map (contour_spl NaN) EQUAL_LOUDNESS_CONTOUR_PARAMS = map (\<lambda>_. NaN) EQUAL_LOUDNESS_CONTOUR_PARAMS"
    by (simp add: map_eq_conv contour_spl_NaN)
  then show ?thesis
    by (simp add: equal_loudness_contour_def map_replicate_const)
qed

end
