(* ===== verification/Compression.thy ===== *)
theory Compression
  imports Torch_Semantics
begin

text \<open>
  The element-wise loudness compression of \<open>LoudnessCompressor.compress\<close>
  (\<open>src/torchpaqm/loudness.py\<close>, lines 105--110): the Beaton \& Beerends formula
  \<open>(e0 / s) ** g * ((1 - s + s * (e / e0)) ** g - 1)\<close> followed by
  \<open>torch.clip(_, min=0)\<close>, evaluated in float arithmetic for one threshold excitation
  \<open>e0\<close> and one excitation \<open>e\<close>, with the schwell factor \<open>s\<close> and the compression level
  \<open>g\<close> of the compressor. The tensor version, with broadcasting, is in
  \<open>Loudness_Compressor\<close>.

  The lemmas relate the float computation to the formula over the reals on the domain
  where nothing overflows, and prove the properties the spec asks of it: no negative
  output, zero loudness at and below the threshold, positive loudness above it,
  monotonicity in the excitation, and what happens when the threshold is zero. They also
  show that the formula is homogeneous of degree \<open>g\<close> in the two powers, and that for
  \<open>g \<le> 1\<close> it is antitone in the threshold, by the concavity of \<open>x ** g\<close>.
\<close>

section \<open>The formula\<close>

definition compress_elem :: "real \<Rightarrow> real \<Rightarrow> fl \<Rightarrow> fl \<Rightarrow> fl" where
  "compress_elem s g e0 e =
     fl_clip0 (fl_mul (fl_pow (fl_div e0 (Fin s)) g)
                      (fl_sub (fl_pow (fl_add (Fin (1 - s)) (fl_mul (Fin s) (fl_div e e0))) g)
                              (Fin 1)))"

text \<open>The same formula over the reals, with the clip as \<open>max 0\<close>: the spec's contract.\<close>

definition bb_loudness :: "real \<Rightarrow> real \<Rightarrow> real \<Rightarrow> real \<Rightarrow> real" where
  "bb_loudness s g e0 e = max 0 ((e0 / s) powr g * ((1 - s + s * (e / e0)) powr g - 1))"

section \<open>Evaluation on the finite domain\<close>

text \<open>The bracketed base \<open>1 - s + s * (e / e0)\<close>.\<close>

abbreviation bb_base :: "real \<Rightarrow> real \<Rightarrow> real \<Rightarrow> real" where
  "bb_base s e0 e \<equiv> 1 - s + s * (e / e0)"

text \<open>
  C's \<open>pow\<close> on a non-negative base and a non-negative exponent: it differs from HOL's
  \<open>powr\<close> only at \<open>pow(0, 0) = 1\<close>, where \<open>0 powr 0 = 0\<close>.
\<close>

definition cpow :: "real \<Rightarrow> real \<Rightarrow> real" where
  "cpow x g = (if x = 0 \<and> g = 0 then 1 else x powr g)"

lemma compress_elem_base:
  assumes "0 < e0"
  shows "compress_elem s g (Fin e0) (Fin e) =
           fl_clip0 (fl_mul (fl_pow (fl_div (Fin e0) (Fin s)) g)
                            (fl_sub (fl_pow (Fin (bb_base s e0 e)) g) (Fin 1)))"
  using assms by (simp add: compress_elem_def)

lemma bb_base_nonneg:
  assumes "0 < e0" "0 < s" "s \<le> 1" "0 \<le> e"
  shows "0 \<le> bb_base s e0 e"
  using assms by simp

lemma fl_pow_nonneg_base:
  assumes "0 \<le> x" "0 \<le> g"
  shows "fl_pow (Fin x) g = Fin (cpow x g)"
  using assms by (auto simp: cpow_def)

lemma cpow_one [simp]: "cpow 1 g = 1"
  by (simp add: cpow_def)

lemma cpow_less_one: "0 \<le> x \<Longrightarrow> x < 1 \<Longrightarrow> 0 < g \<Longrightarrow> cpow x g < 1"
  by (cases "x = 0") (simp_all add: cpow_def powr01_less_one)

lemma cpow_gt_one: "1 < x \<Longrightarrow> 0 < g \<Longrightarrow> 1 < cpow x g"
  by (simp add: cpow_def gr_one_powr)

lemma cpow_mono: "0 \<le> x \<Longrightarrow> x \<le> y \<Longrightarrow> 0 \<le> g \<Longrightarrow> cpow x g \<le> cpow y g"
  by (cases "g = 0") (auto simp: cpow_def powr_mono2)

text \<open>
  Wherever the bracketed base is non-negative, the float computation is the real formula
  with C's power: every intermediate value is finite.
\<close>

lemma compress_elem_eq:
  assumes "0 < e0" "0 < s" "0 \<le> bb_base s e0 e" "0 \<le> g"
  shows "compress_elem s g (Fin e0) (Fin e) = Fin (max ((e0 / s) powr g * (cpow (bb_base s e0 e) g - 1)) 0)"
proof -
  have "0 < e0 / s" using assms by simp
  then show ?thesis
    using assms by (simp add: compress_elem_base fl_pow_nonneg_base del: fl_pow.simps)
qed

lemma bb_base_ge_one: "0 < e0 \<Longrightarrow> 0 < s \<Longrightarrow> e0 \<le> e \<Longrightarrow> 1 \<le> bb_base s e0 e"
  by (simp add: field_simps)

lemma bb_base_less_one: "0 < e0 \<Longrightarrow> 0 < s \<Longrightarrow> e < e0 \<Longrightarrow> bb_base s e0 e < 1"
  by (simp add: field_simps)

lemma bb_base_mono: "0 < e0 \<Longrightarrow> 0 < s \<Longrightarrow> e \<le> e' \<Longrightarrow> bb_base s e0 e \<le> bb_base s e0 e'"
  by (simp add: divide_right_mono)

lemma compress_elem_nonneg:
  assumes "0 < e0" "0 < s" "s \<le> 1" "0 \<le> e" "0 \<le> g"
  shows "\<exists>v. compress_elem s g (Fin e0) (Fin e) = Fin v \<and> 0 \<le> v"
  using compress_elem_eq [OF assms(1,2) bb_base_nonneg [OF assms(1-4)] assms(5)] by simp

lemma compress_elem_at_threshold:
  assumes "0 < e0" "0 < s"
  shows "compress_elem s g (Fin e0) (Fin e0) = Fin 0"
proof -
  have "bb_base s e0 e0 = 1" using assms by simp
  with assms show ?thesis by (simp add: compress_elem_base)
qed

lemma compress_elem_above_threshold:
  assumes "0 < e0" "e0 < e" "0 < s" "0 < g"
  shows "\<exists>v. compress_elem s g (Fin e0) (Fin e) = Fin v \<and> 0 < v"
proof -
  have b1: "1 < bb_base s e0 e"
  proof -
    have "1 < e / e0" using assms by simp
    then have "s * 1 < s * (e / e0)" using assms(3) by (rule mult_strict_left_mono)
    then show ?thesis by simp
  qed
  then have "1 < cpow (bb_base s e0 e) g"
    using assms(4) by (rule cpow_gt_one)
  moreover have "0 < (e0 / s) powr g" using assms by simp
  ultimately have "0 < (e0 / s) powr g * (cpow (bb_base s e0 e) g - 1)"
    by simp
  then show ?thesis
    using compress_elem_eq [OF assms(1,3) _ less_imp_le [OF assms(4)]] b1 by simp
qed

section \<open>Properties of the compression\<close>

text \<open>
  C3. An excitation below the threshold (and not negative) is clipped to exactly zero
  loudness, for a schwell factor in \<open>(0, 1]\<close> and a positive compression level.
\<close>

theorem compress_elem_below_threshold:
  assumes "0 < e0" "0 \<le> e" "e < e0" "0 < s" "s \<le> 1" "0 < g"
  shows "compress_elem s g (Fin e0) (Fin e) = Fin 0"
proof -
  have b0: "0 \<le> bb_base s e0 e" using assms by (intro bb_base_nonneg) simp_all
  have "cpow (bb_base s e0 e) g < 1"
    using b0 bb_base_less_one [OF assms(1,4,3)] assms(6) by (rule cpow_less_one)
  moreover have "0 < (e0 / s) powr g" using assms by simp
  ultimately have "(e0 / s) powr g * (cpow (bb_base s e0 e) g - 1) \<le> 0"
    by (simp add: mult_pos_neg less_imp_le)
  then show ?thesis
    using compress_elem_eq [OF assms(1,4) b0] assms(6) by simp
qed

theorem compress_elem_below_threshold_witness: "compress_elem (1/2) (1/25) (Fin 4) (Fin 1) = Fin 0"
  using compress_elem_below_threshold [of 4 1 "1/2" "1/25"] by simp

text \<open>
  C5. On its finite domain (positive threshold, schwell factor in \<open>(0, 1]\<close>, non-negative
  excitation and compression level) the float computation of line 109--110 is exactly the
  Beaton \& Beerends formula over the reals, clipped at zero.
\<close>

theorem compress_elem_refines:
  assumes "0 < e0" "0 < s" "s \<le> 1" "0 \<le> e" "0 \<le> g"
  shows "compress_elem s g (Fin e0) (Fin e) = Fin (bb_loudness s g e0 e)"
proof -
  have b0: "0 \<le> bb_base s e0 e" using assms by (intro bb_base_nonneg)
  have c: "0 < (e0 / s) powr g" using assms by simp
  show ?thesis
  proof (cases "bb_base s e0 e = 0 \<and> g = 0")
    case True
    with c show ?thesis
      using compress_elem_eq [OF assms(1,2) b0 assms(5)]
      by (simp add: bb_loudness_def cpow_def)
  next
    case False
    then show ?thesis
      using compress_elem_eq [OF assms(1,2) b0 assms(5)]
      by (auto simp: bb_loudness_def cpow_def)
  qed
qed

theorem compress_elem_refines_witness:
  "compress_elem (1/2) 1 (Fin 2) (Fin 2) = Fin (bb_loudness (1/2) 1 2 2)"
  using compress_elem_refines [of 2 "1/2" 2 1] by simp

text \<open>
  C6. The division \<open>e / e0\<close> of line 109 is not guarded: where the threshold excitation
  is zero the result is NaN (for \<open>e > 0\<close>, \<open>0 * inf\<close>; for \<open>e = 0\<close>, \<open>0 / 0\<close>),
  and \<open>torch.clip\<close> passes the NaN on instead of a loudness.
\<close>

theorem compress_elem_zero_threshold:
  assumes "0 < s" "0 < g" "0 \<le> e"
  shows "compress_elem s g (Fin 0) (Fin e) = NaN"
  using assms by (cases "e = 0") (auto simp: compress_elem_def fl_sub_def inf_scale_def)

theorem compress_elem_zero_threshold_witness: "compress_elem (1/2) (1/25) (Fin 0) (Fin 4) = NaN"
  using compress_elem_zero_threshold [of "1/2" "1/25" 4] by simp

text \<open>
  C11. The compressed loudness is monotone in the excitation: more excitation over the
  same threshold never gives less loudness.
\<close>

theorem compress_elem_mono:
  assumes "0 < e0" "0 < s" "s \<le> 1" "0 \<le> g" "0 \<le> e" "e \<le> e'"
  shows "\<exists>v v'. compress_elem s g (Fin e0) (Fin e) = Fin v \<and> compress_elem s g (Fin e0) (Fin e') = Fin v' \<and> v \<le> v'"
proof -
  have b: "0 \<le> bb_base s e0 e" using assms by (intro bb_base_nonneg) simp_all
  have b': "0 \<le> bb_base s e0 e'" using assms by (intro bb_base_nonneg) simp_all
  have "cpow (bb_base s e0 e) g \<le> cpow (bb_base s e0 e') g"
    using b bb_base_mono [OF assms(1,2,6)] assms(4) by (rule cpow_mono)
  moreover have "0 < (e0 / s) powr g" using assms by simp
  ultimately have "(e0 / s) powr g * (cpow (bb_base s e0 e) g - 1)
                 \<le> (e0 / s) powr g * (cpow (bb_base s e0 e') g - 1)"
    by simp
  then show ?thesis
    using compress_elem_eq [OF assms(1,2) b assms(4)] compress_elem_eq [OF assms(1,2) b' assms(4)]
    by auto
qed

theorem compress_elem_mono_witness:
  "\<exists>v v'. compress_elem (1/2) (1/25) (Fin 2) (Fin 1) = Fin v \<and> compress_elem (1/2) (1/25) (Fin 2) (Fin 3) = Fin v' \<and> v \<le> v'"
  using compress_elem_mono [of 2 "1/2" "1/25" 1 3] by simp

text \<open>
  C32. A bound on the loudness: above the threshold (and for a schwell factor in
  \<open>(0, 1]\<close>, a non-negative compression level) the compressed loudness is finite and at
  most \<open>(e / s) ** g - (e0 / s) ** g\<close>, the compressed excitation less the compressed
  threshold.
\<close>

theorem compress_elem_upper_bound:
  assumes "0 < e0" "e0 \<le> e" "0 < s" "s \<le> 1" "0 \<le> g"
  shows "\<exists>v. compress_elem s g (Fin e0) (Fin e) = Fin v \<and> 0 \<le> v
            \<and> v \<le> (e / s) powr g - (e0 / s) powr g"
proof -
  let ?B = "bb_base s e0 e"
  have B1: "1 \<le> ?B" using assms by (intro bb_base_ge_one) simp_all
  have cp: "cpow ?B g = ?B powr g" using B1 by (simp add: cpow_def)
  have "1 \<le> ?B powr g" using B1 assms(5) by (rule ge_one_powr_ge_zero)
  then have "cpow ?B g \<ge> 1" by (simp only: cp)
  then have nn: "0 \<le> (e0 / s) powr g * (cpow ?B g - 1)" by simp
  have prod: "(e0 / s) powr g * ?B powr g = (e0 / s * ?B) powr g"
    using assms B1 by (intro powr_mult [symmetric])
  have "e0 / s * ?B = e0 / s - e0 + e" using assms by (simp add: field_simps)
  also have "\<dots> \<le> e / s"
  proof -
    have "e0 * (1 / s - 1) \<le> e * (1 / s - 1)"
      using assms by (intro mult_right_mono) simp_all
    then show ?thesis by (simp add: algebra_simps)
  qed
  finally have le: "(e0 / s * ?B) powr g \<le> (e / s) powr g"
    using assms B1 by (intro powr_mono2) simp_all
  have "(e0 / s) powr g * (cpow ?B g - 1) \<le> (e / s) powr g - (e0 / s) powr g"
    using le prod unfolding cp by (simp add: right_diff_distrib)
  then show ?thesis
    using compress_elem_eq [OF assms(1,3) _ assms(5)] B1 nn by simp
qed

theorem compress_elem_upper_bound_witness:
  "\<exists>v. compress_elem (1/2) (1/25) (Fin 1) (Fin 4) = Fin v \<and> 0 \<le> v
      \<and> v \<le> (4 / (1/2)) powr (1/25) - (1 / (1/2)) powr (1/25)"
  using compress_elem_upper_bound [of 1 4 "1/2" "1/25"] by simp

text \<open>
  C33. A NaN excitation entry is not caught: with a positive threshold and schwell
  factor, \<open>compress\<close> turns it into NaN, except at compression level 0, where the power
  \<open>** 0\<close> maps the NaN to 1 and the result is a silent 0.
\<close>

theorem compress_elem_nan:
  assumes "0 < e0" "0 < s"
  shows "compress_elem s g (Fin e0) NaN = (if g = 0 then Fin 0 else NaN)"
  using assms by (simp add: compress_elem_def fl_sub_def)

theorem compress_elem_nan_witness:
  "compress_elem (1/2) (1/25) (Fin 1) NaN = NaN \<and> compress_elem (1/2) 0 (Fin 1) NaN = Fin 0"
  using compress_elem_nan [of 1 "1/2" "1/25"] compress_elem_nan [of 1 "1/2" 0] by simp


section \<open>Scaling and the threshold\<close>

lemma cpow_zero_exp [simp]: "0 \<le> x \<Longrightarrow> cpow x 0 = 1"
  by (simp add: cpow_def)

text \<open>For \<open>g > 0\<close> the formula is a difference of two powers: \<open>(e0/s - e0 + e) ** g - (e0/s) ** g\<close>.\<close>

lemma bb_inner_powr:
  assumes "0 < e0" "0 < s" "s \<le> 1" "0 \<le> e" "0 < g"
  shows "(e0 / s) powr g * (cpow (bb_base s e0 e) g - 1) = (e0 / s + (e - e0)) powr g - (e0 / s) powr g"
proof -
  have b: "0 \<le> bb_base s e0 e" using assms by (intro bb_base_nonneg)
  have "cpow (bb_base s e0 e) g = bb_base s e0 e powr g" using assms(5) by (simp add: cpow_def)
  moreover have "(e0 / s) powr g * bb_base s e0 e powr g = (e0 / s * bb_base s e0 e) powr g"
    using b assms(1,2) by (intro powr_mult [symmetric])
  moreover have "e0 / s * bb_base s e0 e = e0 / s + (e - e0)"
    using assms(1,2) by (simp add: field_simps)
  ultimately show ?thesis by (simp add: right_diff_distrib)
qed

text \<open>
  For \<open>0 \<le> g \<le> 1\<close> the power is concave, so a fixed increment adds less the further
  up it starts.
\<close>

lemma powr_increment_antitone:
  fixes u u' d g :: real
  assumes "0 < u" "u \<le> u'" "0 \<le> d" "0 \<le> g" "g \<le> 1"
  shows "(u' + d) powr g - u' powr g \<le> (u + d) powr g - u powr g"
proof -
  have "\<exists>y. ((\<lambda>t. (t + d) powr g - t powr g) has_real_derivative y) (at t) \<and> y \<le> 0"
    if t: "u \<le> t" "t \<le> u'" for t
  proof -
    have t0: "0 < t" using t assms(1) by linarith
    then have td: "0 < t + d" using assms(3) by linarith
    have "((\<lambda>t. (t + d) powr g - t powr g) has_real_derivative
            g * (t + d) powr (g - 1) * 1 - g * t powr (g - 1)) (at t)"
      using t0 td by (auto intro!: derivative_eq_intros)
    moreover have "(t + d) powr (g - 1) \<le> t powr (g - 1)"
      using t0 assms(3,5) by (intro powr_mono2') simp_all
    then have "g * (t + d) powr (g - 1) * 1 - g * t powr (g - 1) \<le> 0"
      using assms(4) by (simp add: mult_left_mono)
    ultimately show ?thesis by blast
  qed
  then show ?thesis
    using DERIV_nonpos_imp_nonincreasing [OF assms(2)] by blast
qed

text \<open>
  C25. The formula is homogeneous of degree \<open>g\<close>: expressing both powers in units
  \<open>k\<close> times larger multiplies the compressed loudness by \<open>k ** g\<close>, since the threshold
  enters as the ratio \<open>e / e0\<close> and as the scale \<open>(e0 / s) ** g\<close>.
\<close>

theorem compress_elem_homogeneous:
  assumes "0 < k" "0 < e0" "0 < s" "s \<le> 1" "0 \<le> e" "0 \<le> g"
  shows "compress_elem s g (Fin (k * e0)) (Fin (k * e)) = fl_mul (Fin (k powr g)) (compress_elem s g (Fin e0) (Fin e))"
proof -
  define X where "X = (e0 / s) powr g * (cpow (bb_base s e0 e) g - 1)"
  have b: "0 \<le> bb_base s e0 e" using assms(2-5) by (intro bb_base_nonneg)
  have ke0: "0 < k * e0" using assms(1,2) by simp
  have kb: "bb_base s (k * e0) (k * e) = bb_base s e0 e" using assms(1) by simp
  have "k * e0 / s = k * (e0 / s)" by simp
  then have "(k * e0 / s) powr g = k powr g * (e0 / s) powr g"
    using assms(1-3) by (simp only: powr_mult less_imp_le divide_nonneg_pos)
  then have l: "compress_elem s g (Fin (k * e0)) (Fin (k * e)) = Fin (max (k powr g * X) 0)"
    using compress_elem_eq [OF ke0 assms(3) _ assms(6), of "k * e"] kb b by (simp add: X_def mult.assoc)
  have r: "compress_elem s g (Fin e0) (Fin e) = Fin (max X 0)"
    using compress_elem_eq [OF assms(2,3) b assms(6)] by (simp add: X_def)
  have "max (k powr g * X) 0 = k powr g * max X 0"
    using assms(1) by (simp add: max_def mult_le_0_iff)
  then show ?thesis by (simp add: l r)
qed

theorem compress_elem_homogeneous_witness:
  "compress_elem (1/2) (1/25) (Fin (3 * 2)) (Fin (3 * 5))
   = fl_mul (Fin (3 powr (1/25))) (compress_elem (1/2) (1/25) (Fin 2) (Fin 5))"
  by (rule compress_elem_homogeneous) simp_all

text \<open>
  C28. A higher hearing threshold never increases the compressed loudness, at every
  compression level \<open>0 \<le> g \<le> 1\<close> (the default is 0.04): with the excitation fixed, the
  result is antitone in the threshold excitation.
\<close>

theorem compress_elem_threshold_antitone:
  assumes "0 < a" "a \<le> a'" "0 < s" "s \<le> 1" "0 \<le> e" "0 \<le> g" "g \<le> 1"
  shows "\<exists>r r'. compress_elem s g (Fin a) (Fin e) = Fin r \<and> compress_elem s g (Fin a') (Fin e) = Fin r'
                \<and> r' \<le> r"
proof -
  have a': "0 < a'" using assms(1,2) by linarith
  have ba: "0 \<le> bb_base s a e" and ba': "0 \<le> bb_base s a' e"
    using assms a' by (simp_all add: bb_base_nonneg)
  let ?F = "\<lambda>t. (t / s) powr g * (cpow (bb_base s t e) g - 1)"
  have "?F a' \<le> max (?F a) 0"
  proof (cases "g = 0")
    case True
    then show ?thesis using ba' by simp
  next
    case False
    then have g: "0 < g" using assms(6) by simp
    show ?thesis
    proof (cases "e < a'")
      case True
      have "cpow (bb_base s a' e) g < 1"
        using ba' bb_base_less_one [OF a' assms(3) True] g by (rule cpow_less_one)
      moreover have "0 < (a' / s) powr g" using a' assms(3) by simp
      ultimately have "?F a' < 0" by (simp add: mult_pos_neg)
      then show ?thesis by simp
    next
    case False
      let ?u = "a / s" and ?u' = "a' / s"
      have u: "0 < ?u" "?u \<le> ?u'" using assms(1-3) by (simp_all add: divide_right_mono)
      have "?F a' = (?u' + (e - a')) powr g - ?u' powr g"
        using bb_inner_powr [OF a' assms(3,4,5) g] .
      also have "\<dots> \<le> (?u + (e - a')) powr g - ?u powr g"
        using powr_increment_antitone [OF u, of "e - a'" g] False assms(6,7) by simp
      also have "(?u + (e - a')) powr g \<le> (?u + (e - a)) powr g"
        using u(1) assms(2,6) False by (intro powr_mono2) linarith+
      then have "(?u + (e - a')) powr g - ?u powr g \<le> (?u + (e - a)) powr g - ?u powr g"
        by simp
      also have "\<dots> = ?F a"
        using bb_inner_powr [OF assms(1,3,4,5) g] by simp
      finally show ?thesis by simp
    qed
  qed
  then show ?thesis
    using compress_elem_eq [OF assms(1,3) ba assms(6)] compress_elem_eq [OF a' assms(3) ba' assms(6)] by simp
qed

theorem compress_elem_threshold_antitone_witness:
  "\<exists>r r'. compress_elem (1/2) (1/25) (Fin 1) (Fin 4) = Fin r \<and> compress_elem (1/2) (1/25) (Fin 2) (Fin 4) = Fin r'
          \<and> r' \<le> r"
  by (rule compress_elem_threshold_antitone) simp_all

end
