(* ===== verification/Tridiagonal.thy ===== *)
theory Tridiagonal
  imports Prelude
begin

text \<open>
  The tridiagonal linear solve that scipy's \<open>CubicSpline\<close> performs with
  \<open>solve_banded((1, 1), A, b)\<close> to find the spline's slopes (scipy is not part of the
  repository: this is modelled from the spec's "any standard piecewise-cubic spline
  algorithm"). A system is a list of rows \<open>(a, b, c, d)\<close>: row \<open>i\<close> says
  \<open>a * x(i-1) + b * x(i) + c * x(i+1) = d\<close>, where the \<open>a\<close> of the first row and the
  \<open>c\<close> of the last are ignored.

  The solver is Gaussian elimination without pivoting (the Thomas algorithm), written as
  one recursion: the forward sweep carries the eliminated coefficients \<open>(cp, dp)\<close> of the
  previous row into the next call, and the back substitution happens as the calls
  return. A zero pivot is reported as \<open>None\<close>. scipy's LAPACK routine pivots; the two
  agree wherever this one succeeds, since the lemmas below show that its result is then
  the unique solution of the system.
\<close>

type_synonym tri_row = "real \<times> real \<times> real \<times> real"

definition hd0 :: "real list \<Rightarrow> real" where
  "hd0 xs = (case xs of [] \<Rightarrow> 0 | x # _ \<Rightarrow> x)"

fun tri_solve_from :: "real \<Rightarrow> real \<Rightarrow> tri_row list \<Rightarrow> real list option" where
  "tri_solve_from cp dp [] = Some []"
| "tri_solve_from cp dp ((a, b, c, d) # rs) =
     (let m = b - a * cp in
      if m = 0 then None
      else
        (let cp' = c / m; dp' = (d - a * dp) / m in
         case tri_solve_from cp' dp' rs of
           None \<Rightarrow> None
         | Some xs \<Rightarrow> Some ((dp' - cp' * hd0 xs) # xs)))"

definition tri_solve :: "tri_row list \<Rightarrow> real list option" where
  "tri_solve rs = tri_solve_from 0 0 rs"

text \<open>The pivots of the elimination depend on the matrix only, not on the right-hand side.\<close>

fun tri_pivots_ok :: "real \<Rightarrow> tri_row list \<Rightarrow> bool" where
  "tri_pivots_ok cp [] = True"
| "tri_pivots_ok cp ((a, b, c, d) # rs) = (b - a * cp \<noteq> 0 \<and> tri_pivots_ok (c / (b - a * cp)) rs)"

section \<open>The system as a reference\<close>

text \<open>
  \<open>A x\<close> for the matrix of the rows, with \<open>p\<close> the value to the left of the first
  unknown (0 for the whole system).
\<close>

fun tri_apply :: "real \<Rightarrow> tri_row list \<Rightarrow> real list \<Rightarrow> real list" where
  "tri_apply p ((a, b, c, d) # rs) (x # xs) = (a * p + b * x + c * hd0 xs) # tri_apply x rs xs"
| "tri_apply p _ _ = []"

definition tri_rhs :: "tri_row list \<Rightarrow> real list" where
  "tri_rhs rs = map (\<lambda>(a, b, c, d). d) rs"

definition tri_solves :: "tri_row list \<Rightarrow> real list \<Rightarrow> bool" where
  "tri_solves rs xs \<longleftrightarrow> length xs = length rs \<and> tri_apply 0 rs xs = tri_rhs rs"

lemma tri_rhs_Cons [simp]: "tri_rhs ((a, b, c, d) # rs) = d # tri_rhs rs"
  by (simp add: tri_rhs_def)

lemma hd0_simps [simp]: "hd0 [] = 0" "hd0 (x # xs) = x"
  by (simp_all add: hd0_def)

section \<open>Correctness of the elimination\<close>

text \<open>One eliminated row: the value of the unknown that the back substitution computes.\<close>

lemma thomas_row_eq:
  fixes a b c d cp dp y h :: real
  assumes "b - a * cp \<noteq> 0"
  shows "a * (dp - cp * y) + b * y + c * h = d \<longleftrightarrow> y = (d - a * dp) / (b - a * cp) - c / (b - a * cp) * h"
proof -
  define m where "m = b - a * cp"
  have m: "m \<noteq> 0" using assms by (simp add: m_def)
  have "a * (dp - cp * y) + b * y + c * h = a * dp + c * h + m * y"
    by (simp add: m_def algebra_simps)
  then have "a * (dp - cp * y) + b * y + c * h = d \<longleftrightarrow> y * m = d - a * dp - c * h"
    by (auto simp: algebra_simps)
  also have "\<dots> \<longleftrightarrow> y = (d - a * dp - c * h) / m"
    using m by (simp add: eq_divide_eq)
  also have "(d - a * dp - c * h) / m = (d - a * dp) / m - c / m * h"
    by (simp add: diff_divide_distrib)
  finally show ?thesis by (simp add: m_def)
qed

text \<open>
  The invariant of the recursion: the carried \<open>(cp, dp)\<close> encode the eliminated previous
  row, \<open>x(i-1) = dp - cp * x(i)\<close>; a result of the recursive call satisfies the remaining
  rows with that value on its left.
\<close>

lemma tri_solve_from_sound:
  "tri_solve_from cp dp rs = Some xs \<Longrightarrow>
     length xs = length rs \<and> tri_apply (dp - cp * hd0 xs) rs xs = tri_rhs rs"
proof (induction cp dp rs arbitrary: xs rule: tri_solve_from.induct)
  case (1 cp dp)
  then show ?case by (simp add: tri_rhs_def)
next
  case (2 cp dp a b c d rs)
  let ?m = "b - a * cp"
  from "2.prems" have m: "?m \<noteq> 0" by (auto simp: Let_def split: if_splits)
  with "2.prems" obtain ys where
    ys: "tri_solve_from (c / ?m) ((d - a * dp) / ?m) rs = Some ys" and
    xs: "xs = ((d - a * dp) / ?m - c / ?m * hd0 ys) # ys"
    by (auto simp: Let_def split: option.splits)
  from "2.IH" [OF refl m refl refl ys]
  have ih: "length ys = length rs \<and> tri_apply ((d - a * dp) / ?m - c / ?m * hd0 ys) rs ys = tri_rhs rs" .
  have row: "a * (dp - cp * ((d - a * dp) / ?m - c / ?m * hd0 ys))
             + b * ((d - a * dp) / ?m - c / ?m * hd0 ys) + c * hd0 ys = d"
    by (rule iffD2 [OF thomas_row_eq [OF m]]) simp
  show ?case
    using ih row xs by simp
qed

text \<open>
  Conversely every solution of the remaining rows with the carried relation on its left is
  the one the recursion returns: the solution is unique.
\<close>

lemma tri_solve_from_unique:
  "tri_solve_from cp dp rs = Some xs \<Longrightarrow> length ys = length rs \<Longrightarrow>
     tri_apply (dp - cp * hd0 ys) rs ys = tri_rhs rs \<Longrightarrow> ys = xs"
proof (induction cp dp rs arbitrary: xs ys rule: tri_solve_from.induct)
  case (1 cp dp)
  then show ?case by simp
next
  case (2 cp dp a b c d rs)
  let ?m = "b - a * cp"
  from "2.prems"(1) have m: "?m \<noteq> 0" by (auto simp: Let_def split: if_splits)
  with "2.prems"(1) obtain zs where
    zs: "tri_solve_from (c / ?m) ((d - a * dp) / ?m) rs = Some zs" and
    xs: "xs = ((d - a * dp) / ?m - c / ?m * hd0 zs) # zs"
    by (auto simp: Let_def split: option.splits)
  from "2.prems"(2) obtain y ys' where ys: "ys = y # ys'" and len: "length ys' = length rs"
    by (cases ys) auto
  from "2.prems"(3) ys have row: "a * (dp - cp * y) + b * y + c * hd0 ys' = d"
    and rest: "tri_apply y rs ys' = tri_rhs rs"
    by simp_all
  from row have y: "y = (d - a * dp) / ?m - c / ?m * hd0 ys'"
    by (rule iffD1 [OF thomas_row_eq [OF m]])
  with rest have "tri_apply ((d - a * dp) / ?m - c / ?m * hd0 ys') rs ys' = tri_rhs rs"
    by simp
  from "2.IH" [OF refl m refl refl zs len this] have "ys' = zs" .
  with ys y xs show ?case by simp
qed

lemma tri_solve_from_complete:
  "tri_pivots_ok cp rs \<Longrightarrow> \<exists>xs. tri_solve_from cp dp rs = Some xs"
proof (induction cp rs arbitrary: dp rule: tri_pivots_ok.induct)
  case (1 cp)
  then show ?case by simp
next
  case (2 cp a b c d rs)
  from "2.prems" have m: "b - a * cp \<noteq> 0" and ok: "tri_pivots_ok (c / (b - a * cp)) rs"
    by simp_all
  from "2.IH" [OF ok] obtain xs where
    "tri_solve_from (c / (b - a * cp)) ((d - a * dp) / (b - a * cp)) rs = Some xs"
    by blast
  with m show ?case by (simp add: Let_def)
qed

lemma tri_pivots_ok_matrix:
  "map (\<lambda>(a, b, c, d). (a, b, c)) rs = map (\<lambda>(a, b, c, d). (a, b, c)) rs' \<Longrightarrow>
     tri_pivots_ok cp rs = tri_pivots_ok cp rs'"
proof (induction cp rs arbitrary: rs' rule: tri_pivots_ok.induct)
  case (1 cp)
  then show ?case by simp
next
  case (2 cp a b c d rs)
  from "2.prems" obtain d' rs'' where rs': "rs' = (a, b, c, d') # rs''"
    and m: "map (\<lambda>(a, b, c, d). (a, b, c)) rs = map (\<lambda>(a, b, c, d). (a, b, c)) rs''"
    by (cases rs') auto
  show ?case
    using "2.IH" [OF m] rs' by simp
qed

lemma tri_apply_nth:
  assumes "length xs = length rs" "i < length rs" "rs ! i = (a, b, c, d)"
  shows "tri_apply p rs xs ! i =
           a * (if i = 0 then p else xs ! (i - 1)) + b * xs ! i
           + c * (if Suc i < length xs then xs ! Suc i else 0)"
  using assms
proof (induction rs arbitrary: p xs i)
  case Nil
  then show ?case by simp
next
  case (Cons r rs)
  obtain x xs' where xs: "xs = x # xs'"
    using Cons.prems(1) by (cases xs) auto
  obtain a' b' c' d' where r: "r = (a', b', c', d')"
    by (cases r)
  show ?case
  proof (cases i)
    case 0
    with Cons.prems xs r show ?thesis
      by (cases xs') auto
  next
    case (Suc j)
    have "tri_apply x rs xs' ! j =
            a * (if j = 0 then x else xs' ! (j - 1)) + b * xs' ! j
            + c * (if Suc j < length xs' then xs' ! Suc j else 0)"
      using Cons.prems xs Suc by (intro Cons.IH) simp_all
    with xs r Suc show ?thesis
      by (cases j) simp_all
  qed
qed

lemma tri_solve_row:
  assumes "tri_solve rs = Some s" "i < length rs" "rs ! i = (a, b, c, d)"
  shows "a * (if i = 0 then 0 else s ! (i - 1)) + b * s ! i
         + c * (if Suc i < length s then s ! Suc i else 0) = d"
proof -
  from tri_solve_from_sound [of 0 0 rs s] assms(1)
  have len: "length s = length rs" and eq: "tri_apply 0 rs s = tri_rhs rs"
    by (simp_all add: tri_solve_def)
  have "tri_rhs rs ! i = d" using assms(2,3) by (simp add: tri_rhs_def)
  with eq tri_apply_nth [OF len assms(2,3), of 0] show ?thesis by simp
qed

lemma length_tri_apply: "length (tri_apply p rs xs) = min (length rs) (length xs)"
  by (induction p rs xs rule: tri_apply.induct) simp_all

lemma tri_solves_rows:
  assumes "length xs = length rs"
    and "\<And>i a b c d. i < length rs \<Longrightarrow> rs ! i = (a, b, c, d) \<Longrightarrow>
           a * (if i = 0 then 0 else xs ! (i - 1)) + b * xs ! i
           + c * (if Suc i < length xs then xs ! Suc i else 0) = d"
  shows "tri_solves rs xs"
  unfolding tri_solves_def
proof
  show "length xs = length rs" by (rule assms(1))
  show "tri_apply 0 rs xs = tri_rhs rs"
  proof (rule nth_equalityI)
    show "length (tri_apply 0 rs xs) = length (tri_rhs rs)"
      using assms(1) by (simp add: length_tri_apply tri_rhs_def)
    fix i assume "i < length (tri_apply 0 rs xs)"
    then have i: "i < length rs" using assms(1) by (simp add: length_tri_apply)
    obtain a b c d where r: "rs ! i = (a, b, c, d)" by (cases "rs ! i") auto
    have "tri_rhs rs ! i = d" using i r by (simp add: tri_rhs_def)
    then show "tri_apply 0 rs xs ! i = tri_rhs rs ! i"
      using tri_apply_nth [OF assms(1) i r, of 0] assms(2) [OF i r] by simp
  qed
qed

section \<open>The solver against the system\<close>

text \<open>
  Whenever the elimination succeeds, its result is exactly the solution of the
  tridiagonal system: it satisfies every row, and it is the only vector that does.
\<close>

lemma tri_solve_correct:
  assumes "tri_solve rs = Some xs"
  shows "tri_solves rs ys \<longleftrightarrow> ys = xs"
proof
  assume "tri_solves rs ys"
  then show "ys = xs"
    using tri_solve_from_unique [of 0 0 rs xs ys] assms by (simp add: tri_solve_def tri_solves_def)
next
  assume "ys = xs"
  then show "tri_solves rs ys"
    using tri_solve_from_sound [of 0 0 rs xs] assms by (simp add: tri_solve_def tri_solves_def)
qed

lemma tri_solve_complete: "tri_pivots_ok 0 rs \<Longrightarrow> \<exists>xs. tri_solve rs = Some xs"
  by (simp add: tri_solve_def tri_solve_from_complete)

end
