(* ===== verification/Cubic_Spline.thy ===== *)
theory Cubic_Spline
  imports Tridiagonal Torch_Semantics
begin

text \<open>
  The cubic spline that \<open>LoudnessCompressor.hearing_threshold_at_freqs\<close>
  (\<open>src/torchpaqm/loudness.py\<close>, lines 80--83) builds with
  \<open>scipy.interpolate.CubicSpline(x, y)\<close> and evaluates at the target frequencies.
  scipy is not part of the repository; the spline is modelled from the spec (a cubic
  spline with continuous first and second derivatives, boundary condition documented and
  fixed) with scipy's default choices, which the code inherits:
  \<^item> the input checks of scipy's \<open>prepare_input\<close>, in its order (at least two knots,
    matching lengths, finite values, strictly increasing knots), each a \<open>ValueError\<close>;
  \<^item> the not-a-knot boundary condition: the slopes solve the tridiagonal system of
    \<open>CubicSpline\<close>'s general branch (first and last rows eliminated into the system), of its
    three-point branch, or for two points the slope of the line;
  \<^item> the Hermite form of \<open>CubicHermiteSpline\<close>: on \<open>[x(i), x(i+1)]\<close> the piece
    \<open>c0 t\<^sup>3 + c1 t\<^sup>2 + c2 t + c3\<close> in \<open>t = u - x(i)\<close>;
  \<^item> \<open>PPoly\<close> evaluation with extrapolation: a point left of the knots uses the first
    piece, a point at or right of the last knot the last piece, any other point the piece
    whose interval \<open>[x(i), x(i+1))\<close> holds it.
  The lemmas show the interpolation property, continuity of the value and of the first
  and second derivatives at interior knots, the not-a-knot condition, and that the fit never fails on strictly increasing knots: the elimination without pivoting
  meets no zero pivot on these systems.
\<close>

section \<open>Knots, slopes and the system for the derivatives\<close>

text \<open>The coefficients \<open>(c0, c1, c2, c3)\<close> of one piece, highest degree first as in \<open>PPoly.c\<close>.\<close>

type_synonym coeffs = "real \<times> real \<times> real \<times> real"

record ppoly =
  pp_x :: "real list"
  pp_c :: "coeffs list"

fun fl_val :: "fl \<Rightarrow> real" where
  "fl_val (Fin r) = r"
| "fl_val _ = 0"

definition knot_h :: "real list \<Rightarrow> nat \<Rightarrow> real" where
  "knot_h x i = x ! Suc i - x ! i"

definition knot_slope :: "real list \<Rightarrow> real list \<Rightarrow> nat \<Rightarrow> real" where
  "knot_slope x y i = (y ! Suc i - y ! i) / knot_h x i"

text \<open>Row \<open>i\<close> of the system at an interior knot (continuity of the second derivative).\<close>

definition interior_row :: "real list \<Rightarrow> real list \<Rightarrow> nat \<Rightarrow> tri_row" where
  "interior_row x y i =
     (knot_h x i, 2 * (knot_h x (i - 1) + knot_h x i), knot_h x (i - 1),
      3 * (knot_h x i * knot_slope x y (i - 1) + knot_h x (i - 1) * knot_slope x y i))"

text \<open>The first and last rows of the general branch: the not-a-knot conditions.\<close>

definition first_row :: "real list \<Rightarrow> real list \<Rightarrow> tri_row" where
  "first_row x y =
     (let d = x ! 2 - x ! 0 in
      (0, knot_h x 1, d,
       ((knot_h x 0 + 2 * d) * knot_h x 1 * knot_slope x y 0
        + knot_h x 0 ^ 2 * knot_slope x y 1) / d))"

definition last_row :: "real list \<Rightarrow> real list \<Rightarrow> tri_row" where
  "last_row x y =
     (let n = length x; d = x ! (n - 1) - x ! (n - 3) in
      (d, knot_h x (n - 3), 0,
       (knot_h x (n - 2) ^ 2 * knot_slope x y (n - 3)
        + (2 * d + knot_h x (n - 2)) * knot_h x (n - 3) * knot_slope x y (n - 2)) / d))"

definition spline_rows :: "real list \<Rightarrow> real list \<Rightarrow> tri_row list" where
  "spline_rows x y =
     (let n = length x in
      if n = 2 then [(0, 1, 0, knot_slope x y 0), (0, 1, 0, knot_slope x y 0)]
      else if n = 3 then
        [(0, 1, 1, 2 * knot_slope x y 0), interior_row x y 1, (1, 1, 0, 2 * knot_slope x y 1)]
      else first_row x y # map (interior_row x y) [1..<n - 1] @ [last_row x y])"

text \<open>The coefficients \<open>(c0, c1, c2, c3)\<close> of every piece, from values and slopes.\<close>

definition hermite_coeffs :: "real list \<Rightarrow> real list \<Rightarrow> real list \<Rightarrow> coeffs list" where
  "hermite_coeffs x y s =
     map (\<lambda>i. let h = knot_h x i; m = knot_slope x y i; t = (s ! i + s ! Suc i - 2 * m) / h
              in (t / h, (m - s ! i) / h - t, s ! i, y ! i)) [0..<length x - 1]"

text \<open>\<open>np.any(np.diff(x) <= 0)\<close> negated.\<close>

definition strictly_increasing :: "real list \<Rightarrow> bool" where
  "strictly_increasing x = list_all (\<lambda>i. x ! i < x ! Suc i) [0..<length x - 1]"

definition cubic_spline :: "real list \<Rightarrow> fl list \<Rightarrow> error + ppoly" where
  "cubic_spline x y =
     (if length x < 2 then Inl SplineTooShort
      else if length y \<noteq> length x then Inl SplineLengthMismatch
      else if \<not> list_all is_finite y then Inl SplineNonFinite
      else if \<not> strictly_increasing x then Inl SplineNotIncreasing
      else
        (let yr = map fl_val y in
         case tri_solve (spline_rows x yr) of
           None \<Rightarrow> Inl SplineSingular
         | Some s \<Rightarrow> Inr \<lparr>pp_x = x, pp_c = hermite_coeffs x yr s\<rparr>))"

text \<open>
  The piece on an interval of width \<open>h\<close> from the value \<open>yi\<close> to \<open>yj\<close> with end
  slopes \<open>si\<close> and \<open>sj\<close>, as \<open>CubicHermiteSpline\<close> computes its coefficients.
\<close>

definition herm_piece :: "real \<Rightarrow> real \<Rightarrow> real \<Rightarrow> real \<Rightarrow> real \<Rightarrow> coeffs" where
  "herm_piece h yi yj si sj =
     (let m = (yj - yi) / h; t = (si + sj - 2 * m) / h in (t / h, (m - si) / h - t, si, yi))"

section \<open>Evaluation\<close>

text \<open>
  The interval of a point: \<open>searchsorted(x, u, side='right') - 1\<close>, clipped to the
  pieces, which is what \<open>PPoly\<close>'s search returns with extrapolation.
\<close>

definition find_interval :: "real list \<Rightarrow> real \<Rightarrow> nat" where
  "find_interval x u = min (length x - 2) (length (filter (\<lambda>k. k \<le> u) x) - 1)"

definition poly3 :: "coeffs \<Rightarrow> real \<Rightarrow> real" where
  "poly3 c t = (case c of (c0, c1, c2, c3) \<Rightarrow> c3 + c2 * t + c1 * t ^ 2 + c0 * t ^ 3)"

definition ppoly_eval :: "ppoly \<Rightarrow> real \<Rightarrow> real" where
  "ppoly_eval pp u = (let i = find_interval (pp_x pp) u in poly3 (pp_c pp ! i) (u - pp_x pp ! i))"

text \<open>The derivatives of a piece, and that they are its derivatives.\<close>

definition poly3_d1 :: "coeffs \<Rightarrow> real \<Rightarrow> real" where
  "poly3_d1 c t = (case c of (c0, c1, c2, c3) \<Rightarrow> c2 + 2 * c1 * t + 3 * c0 * t ^ 2)"

definition poly3_d2 :: "coeffs \<Rightarrow> real \<Rightarrow> real" where
  "poly3_d2 c t = (case c of (c0, c1, c2, c3) \<Rightarrow> 2 * c1 + 6 * c0 * t)"

definition poly3_d3 :: "coeffs \<Rightarrow> real" where
  "poly3_d3 c = (case c of (c0, c1, c2, c3) \<Rightarrow> 6 * c0)"

text \<open>
  A cubic polynomial and its derivative: the reference for exactness of the fit.
\<close>

definition cubic_poly :: "real \<Rightarrow> real \<Rightarrow> real \<Rightarrow> real \<Rightarrow> real \<Rightarrow> real" where
  "cubic_poly a b c d t = a * t ^ 3 + b * t ^ 2 + c * t + d"

definition cubic_poly_d1 :: "real \<Rightarrow> real \<Rightarrow> real \<Rightarrow> real \<Rightarrow> real" where
  "cubic_poly_d1 a b c t = 3 * a * t ^ 2 + 2 * b * t + c"

section \<open>Algebra of one Hermite piece\<close>

lemma poly3_deriv: "((\<lambda>t. poly3 c t) has_real_derivative poly3_d1 c t) (at t)"
  by (cases c) (auto simp: poly3_def poly3_d1_def intro!: derivative_eq_intros)

lemma poly3_d1_deriv: "((\<lambda>t. poly3_d1 c t) has_real_derivative poly3_d2 c t) (at t)"
  by (cases c) (auto simp: poly3_d1_def poly3_d2_def intro!: derivative_eq_intros)

lemma poly3_d2_deriv: "((\<lambda>t. poly3_d2 c t) has_real_derivative poly3_d3 c) (at t)"
  by (cases c) (auto simp: poly3_d2_def poly3_d3_def intro!: derivative_eq_intros)


lemma herm_piece_left [spline_alg]:
  "poly3 (herm_piece h yi yj si sj) 0 = yi"
  "poly3_d1 (herm_piece h yi yj si sj) 0 = si"
  by (simp_all add: herm_piece_def poly3_def poly3_d1_def Let_def)

lemma herm_piece_right [spline_alg]:
  assumes "h \<noteq> 0"
  shows "poly3 (herm_piece h yi yj si sj) h = yj"
    and "poly3_d1 (herm_piece h yi yj si sj) h = sj"
  using assms by (simp_all add: herm_piece_def poly3_def poly3_d1_def Let_def power2_eq_square
      power3_eq_cube field_simps)

lemma hermite_coeffs_nth:
  assumes "Suc i < length x"
  shows "hermite_coeffs x y s ! i = herm_piece (knot_h x i) (y ! i) (y ! Suc i) (s ! i) (s ! Suc i)"
proof -
  have "i < length x - 1" using assms by simp
  then show ?thesis by (simp add: hermite_coeffs_def herm_piece_def knot_slope_def Let_def)
qed

lemma length_hermite_coeffs [simp]: "length (hermite_coeffs x y s) = length x - 1"
  by (simp add: hermite_coeffs_def)

section \<open>The input checks and the result of a successful fit\<close>

lemma strictly_increasing_iff: "strictly_increasing x \<longleftrightarrow> sorted_wrt (<) x"
  by (auto simp: strictly_increasing_def list_all_iff sorted_wrt_iff_nth_Suc_transp)

lemma knot_h_pos: "sorted_wrt (<) x \<Longrightarrow> Suc i < length x \<Longrightarrow> 0 < knot_h x i"
  by (simp add: knot_h_def sorted_less_nth_mono)

lemma cubic_spline_InrE:
  assumes "cubic_spline x (map Fin ys) = Inr pp"
  obtains s where "2 \<le> length x" "length ys = length x" "sorted_wrt (<) x"
    "tri_solve (spline_rows x ys) = Some s"
    "pp = \<lparr>pp_x = x, pp_c = hermite_coeffs x ys s\<rparr>"
proof -
  have ys: "map (fl_val \<circ> Fin) ys = ys"
    by (induction ys) simp_all
  show ?thesis
    using assms that
    by (auto simp: cubic_spline_def ys list_all_iff strictly_increasing_iff Let_def
        split: if_splits option.splits)
qed

lemma spline_example_fit: "\<exists>pp. cubic_spline [0, 1, 2, 4] (map Fin [0, 1, 0, 1]) = Inr pp"
  by (simp add: cubic_spline_def strictly_increasing_def spline_rows_def first_row_def last_row_def
      interior_row_def knot_h_def knot_slope_def tri_solve_def Let_def)

section \<open>The interval search\<close>

text \<open>
  The interval search meets \<open>PPoly\<close>'s contract on strictly increasing knots: it
  names a piece, the piece starts at or before the point unless the point lies left of all
  knots, and it ends after the point unless the point lies at or right of the last knot.
\<close>

lemma find_interval_spec:
  assumes sx: "sorted_wrt (<) x" and n: "2 \<le> length x"
  shows "find_interval x u \<le> length x - 2
       \<and> (x ! 0 \<le> u \<longrightarrow> x ! find_interval x u \<le> u)
       \<and> (u < x ! (length x - 1) \<longrightarrow> u < x ! Suc (find_interval x u))"
proof -
  let ?c = "length (filter (\<lambda>k. k \<le> u) x)"
  have c: "?c \<le> length x" by (rule length_filter_le)
  have iff: "\<And>j. j < length x \<Longrightarrow> x ! j \<le> u \<longleftrightarrow> j < ?c"
    using sx by (rule nth_le_iff_count)
  have i: "find_interval x u = min (length x - 2) (?c - 1)"
    by (simp add: find_interval_def)
  have left: "x ! 0 \<le> u \<longrightarrow> x ! find_interval x u \<le> u"
  proof
    assume "x ! 0 \<le> u"
    moreover have "0 < length x" using n by linarith
    ultimately have "0 < ?c" using iff [of 0] by simp
    then have "find_interval x u < ?c" unfolding i by (simp add: min_less_iff_disj)
    with iff show "x ! find_interval x u \<le> u" using i n by simp
  qed
  have right: "u < x ! (length x - 1) \<longrightarrow> u < x ! Suc (find_interval x u)"
  proof
    assume "u < x ! (length x - 1)"
    moreover have "length x - 1 < length x" using n by linarith
    ultimately have "\<not> length x - 1 < ?c" using iff [of "length x - 1"] by simp
    then have "?c \<le> length x - 1" by linarith
    then have "?c \<le> Suc (find_interval x u)" "Suc (find_interval x u) < length x"
      using i n by auto
    with iff show "u < x ! Suc (find_interval x u)" by (meson not_le not_less_iff_gr_or_eq)
  qed
  show ?thesis using i left right by simp
qed

text \<open>
  C18. Evaluation uses the right piece: on strictly increasing knots, \<open>PPoly\<close>
  evaluates the polynomial of a piece whose interval holds the point, the first piece
  left of the knots and the last piece at or right of the last knot.
\<close>

theorem ppoly_eval_piece:
  assumes "sorted_wrt (<) (pp_x pp)" "2 \<le> length (pp_x pp)"
  shows "\<exists>i. i \<le> length (pp_x pp) - 2 \<and> ppoly_eval pp u = poly3 (pp_c pp ! i) (u - pp_x pp ! i)
            \<and> (pp_x pp ! 0 \<le> u \<longrightarrow> pp_x pp ! i \<le> u)
            \<and> (u < pp_x pp ! (length (pp_x pp) - 1) \<longrightarrow> u < pp_x pp ! Suc i)"
  using find_interval_spec [OF assms, of u]
  by (intro exI [of _ "find_interval (pp_x pp) u"]) (simp add: ppoly_eval_def Let_def)

theorem ppoly_eval_piece_witness:
  "\<exists>i. i \<le> 2 \<and> ppoly_eval \<lparr>pp_x = [0, 1, 2, 4], pp_c = [(0, 0, 0, 0), (0, 0, 0, 1), (0, 0, 1, 2)]\<rparr> 3
          = poly3 ([(0, 0, 0, 0), (0, 0, 0, 1), (0, 0, 1, 2)] ! i) (3 - [0, 1, 2, 4] ! i)
        \<and> [0, 1, 2, 4] ! i \<le> (3::real) \<and> (3::real) < [0, 1, 2, 4] ! Suc i"
  using ppoly_eval_piece [of "\<lparr>pp_x = [0, 1, 2, 4], pp_c = [(0, 0, 0, 0), (0, 0, 0, 1), (0, 0, 1, 2)]\<rparr>" 3]
  by (simp add: numeral_2_eq_2)

lemma find_interval_knot:
  assumes "sorted_wrt (<) x" "k < length x"
  shows "find_interval x (x ! k) = min (length x - 2) k"
  using assms by (simp add: find_interval_def count_le_nth_sorted)

lemma cubic_spline_at_knot:
  assumes "cubic_spline x (map Fin ys) = Inr pp" "k < length x"
  shows "ppoly_eval pp (x ! k) = ys ! k"
  using assms(1)
proof (rule cubic_spline_InrE)
  fix s
  assume n: "2 \<le> length x" and sx: "sorted_wrt (<) x"
    and pp: "pp = \<lparr>pp_x = x, pp_c = hermite_coeffs x ys s\<rparr>"
  show ?thesis
  proof (cases "k < length x - 1")
    case True
    then have "find_interval x (x ! k) = k"
      using find_interval_knot [OF sx assms(2)] by simp
    with True pp show ?thesis
      by (simp add: ppoly_eval_def hermite_coeffs_nth spline_alg)
  next
    case False
    with assms(2) have k: "k = Suc (length x - 2)" using n by simp
    then have "find_interval x (x ! k) = length x - 2"
      using find_interval_knot [OF sx assms(2)] by simp
    moreover have "x ! k - x ! (length x - 2) = knot_h x (length x - 2)"
      using k by (simp add: knot_h_def)
    moreover have "knot_h x (length x - 2) \<noteq> 0"
      using knot_h_pos [OF sx] n by (simp add: less_imp_neq [symmetric])
    ultimately show ?thesis
      using pp k n by (simp add: ppoly_eval_def hermite_coeffs_nth spline_alg)
  qed
qed

text \<open>
  C12. The fitted spline does not depend on the solver: it is the Hermite spline of the
  unique solution of the slope system, so an exact solver of that system (LAPACK's
  banded solver with pivoting, which scipy calls) yields the same spline.
\<close>

theorem cubic_spline_solver_independent:
  assumes "cubic_spline x (map Fin ys) = Inr pp" "tri_solves (spline_rows x ys) s"
  shows "pp = \<lparr>pp_x = x, pp_c = hermite_coeffs x ys s\<rparr>"
  using assms(1)
proof (rule cubic_spline_InrE)
  fix s0
  assume sol: "tri_solve (spline_rows x ys) = Some s0"
    and pp: "pp = \<lparr>pp_x = x, pp_c = hermite_coeffs x ys s0\<rparr>"
  have "s = s0" using tri_solve_correct [OF sol] assms(2) by simp
  with pp show ?thesis by simp
qed

theorem cubic_spline_solver_independent_witness:
  "\<exists>pp. cubic_spline [0, 1, 2, 4] (map Fin [0, 1, 0, 1]) = Inr pp
      \<and> pp = \<lparr>pp_x = [0, 1, 2, 4], pp_c = hermite_coeffs [0, 1, 2, 4] [0, 1, 0, 1] [11/4, -3/8, -5/4, 15/4]\<rparr>"
proof -
  obtain pp where pp: "cubic_spline [0, 1, 2, 4] (map Fin [0, 1, 0, 1]) = Inr pp"
    using spline_example_fit by blast
  have "tri_solves (spline_rows [0, 1, 2, 4] [0, 1, 0, 1]) [11/4, -3/8, -5/4, 15/4]"
    by (simp add: tri_solves_def spline_rows_def first_row_def last_row_def interior_row_def
        knot_h_def knot_slope_def tri_rhs_def upt_conv_Cons del: upt_Suc)
  from cubic_spline_solver_independent [OF pp this] pp show ?thesis by blast
qed

text \<open>
  C13. The spline passes through its data: evaluated at each knot, the fitted spline
  returns the value it was given there (the first \<open>n - 1\<close> knots start a piece, the
  last one ends the last piece).
\<close>

theorem cubic_spline_interpolates:
  assumes "cubic_spline x (map Fin ys) = Inr pp" "k < length x"
  shows "ppoly_eval pp (x ! k) = ys ! k"
  using assms by (rule cubic_spline_at_knot)

theorem cubic_spline_interpolates_witness:
  "\<exists>pp. cubic_spline [0, 1, 2, 4] (map Fin [0, 1, 0, 1]) = Inr pp \<and> ppoly_eval pp ([0, 1, 2, 4] ! 3) = [0, 1, 0, 1] ! 3"
proof -
  obtain pp where pp: "cubic_spline [0, 1, 2, 4] (map Fin [0, 1, 0, 1]) = Inr pp"
    using spline_example_fit by blast
  show ?thesis using pp cubic_spline_interpolates [OF pp, of 3] by auto
qed

section \<open>The system of a fit\<close>

lemma length_spline_rows [simp]: "2 \<le> length x \<Longrightarrow> length (spline_rows x y) = length x"
  by (auto simp: spline_rows_def Let_def)

lemma spline_rows_interior:
  assumes "3 \<le> length x" "1 \<le> i" "i \<le> length x - 2"
  shows "spline_rows x y ! i = interior_row x y i"
proof (cases "length x = 3")
  case True
  with assms show ?thesis by (simp add: spline_rows_def)
next
  case False
  with assms have "4 \<le> length x" by simp
  moreover have "i - 1 < length [1..<length x - 1]" using assms by simp
  ultimately show ?thesis
    using assms by (simp add: spline_rows_def nth_append nth_Cons')
qed

lemma spline_rows_first_last:
  assumes "4 \<le> length x"
  shows "spline_rows x y ! 0 = first_row x y"
    and "spline_rows x y ! (length x - 1) = last_row x y"
  using assms by (simp_all add: spline_rows_def nth_append)

text \<open>
  The pivots of the interior rows from row \<open>i\<close> on, followed by the last row: each pivot
  exceeds \<open>2 h(i-1) + h(i)\<close> as long as the carried multiplier stays in \<open>[0, 1)\<close>, and so
  the multiplier passed on stays there.
\<close>

lemma interior_pivot_bound:
  fixes a b cp :: real
  assumes "0 < a" "0 < b" "cp < 1"
  shows "2 * a + b < 2 * (a + b) - b * cp"
proof -
  have "b * cp < b * 1" using assms by (intro mult_strict_left_mono)
  then show ?thesis by simp
qed

lemma interior_pivots_ok:
  assumes sx: "sorted_wrt (<) x" and n: "4 \<le> length x"
  shows "1 \<le> i \<Longrightarrow> i \<le> length x - 2 \<Longrightarrow> 0 \<le> cp \<Longrightarrow> cp < 1 \<Longrightarrow>
           tri_pivots_ok cp (map (interior_row x y) [i..<length x - 1] @ [last_row x y])"
proof (induction "length x - 2 - i" arbitrary: i cp)
  case 0
  then have i: "i = length x - 2" by simp
  let ?a = "knot_h x (i - 1)" and ?b = "knot_h x i"
  have a: "0 < ?a" and b: "0 < ?b"
    using i n knot_h_pos [OF sx] by simp_all
  let ?p = "2 * (?a + ?b) - ?b * cp"
  have p: "?a + ?b < ?p"
    using interior_pivot_bound [OF a b "0.prems"(4)] a by linarith
  have last: "?a - (?a + ?b) * (?a / ?p) \<noteq> 0"
  proof -
    have q: "(?a + ?b) / ?p < 1"
      using p a b by simp
    have "(?a + ?b) * (?a / ?p) = ?a * ((?a + ?b) / ?p)"
      by simp
    also have "\<dots> < ?a * 1"
      using q a by (intro mult_strict_left_mono)
    finally have "(?a + ?b) * (?a / ?p) < ?a"
      by simp
    then show ?thesis by simp
  qed
  have idx: "length x - 3 = i - 1" "length x - 1 = Suc i" using i n by simp_all
  have si: "Suc (i - 1) = i" using i n by simp
  have d: "x ! (length x - Suc 0) - x ! (i - Suc 0) = ?a + ?b"
  proof -
    have "x ! (length x - Suc 0) = x ! Suc i" using idx by simp
    then show ?thesis using si by (simp add: knot_h_def)
  qed
  have "[i..<length x - 1] = [i]" using idx by simp
  then show ?case
    using p a b last by (simp add: interior_row_def last_row_def Let_def d idx)
next
  case (Suc k)
  let ?a = "knot_h x (i - 1)" and ?b = "knot_h x i"
  have a: "0 < ?a" and b: "0 < ?b"
    using Suc.prems Suc.hyps(2) n knot_h_pos [OF sx] by simp_all
  let ?p = "2 * (?a + ?b) - ?b * cp"
  have p: "2 * ?a + ?b < ?p" using a b Suc.prems by (intro interior_pivot_bound)
  have pp: "0 < ?p" using a b p by linarith
  have "?a < ?p" using a b p by linarith
  then have cp': "0 \<le> ?a / ?p" "?a / ?p < 1"
    using a pp by simp_all
  have rest: "tri_pivots_ok (?a / ?p) (map (interior_row x y) [Suc i..<length x - 1] @ [last_row x y])"
    using Suc.hyps(2) Suc.prems cp' by (intro Suc.hyps(1)) simp_all
  have "[i..<length x - 1] = i # [Suc i..<length x - 1]"
    using Suc.hyps(2) by (simp add: upt_conv_Cons)
  then show ?case
    using rest pp by (simp add: interior_row_def)
qed


lemma first_row_matrix: "\<exists>r. first_row x y = (0, knot_h x 1, knot_h x 0 + knot_h x 1, r)"
  by (simp add: first_row_def Let_def knot_h_def numeral_2_eq_2)

lemma interior_row_matrix:
  "\<exists>r. interior_row x y i = (knot_h x i, 2 * (knot_h x (i - 1) + knot_h x i), knot_h x (i - 1), r)"
  by (simp add: interior_row_def)

lemma spline_rows_pivots_ok:
  assumes sx: "sorted_wrt (<) x" and n: "2 \<le> length x"
  shows "tri_pivots_ok 0 (spline_rows x y)"
proof -
  let ?h0 = "knot_h x 0" and ?h1 = "knot_h x 1"
  consider "length x = 2" | "length x = 3" | "4 \<le> length x"
    using n by linarith
  then show ?thesis
  proof cases
    case 1
    then show ?thesis by (simp add: spline_rows_def)
  next
    case 2
    have a: "0 < ?h0" and b: "0 < ?h1"
      using 2 knot_h_pos [OF sx] by simp_all
    have "?h0 / (2 * (?h0 + ?h1) - ?h1) < 1"
      using a b by simp
    with 2 a b show ?thesis by (simp add: spline_rows_def interior_row_def)
  next
    case 3
    have a: "0 < ?h0" and b: "0 < ?h1"
      using 3 knot_h_pos [OF sx] by simp_all
    obtain r0 where F: "first_row x y = (0, ?h1, ?h0 + ?h1, r0)"
      using first_row_matrix by blast
    obtain r1 where I: "interior_row x y 1 = (?h1, 2 * (?h0 + ?h1), ?h0, r1)"
      using interior_row_matrix [of x y 1] by auto
    have p1: "2 * (?h0 + ?h1) - ?h1 * ((?h0 + ?h1) / ?h1) = ?h0 + ?h1"
      using b by (simp add: field_simps)
    have R: "tri_pivots_ok (?h0 / (?h0 + ?h1)) (map (interior_row x y) [2..<length x - 1] @ [last_row x y])"
      using a b 3 by (intro interior_pivots_ok [OF sx 3]) simp_all
    have "[1..<length x - 1] = 1 # [Suc 1..<length x - 1]"
      using 3 by (intro upt_conv_Cons) simp
    then have u: "[1..<length x - 1] = 1 # [2..<length x - 1]"
      by (simp add: numeral_2_eq_2)
    have rows: "spline_rows x y = first_row x y # interior_row x y 1
                  # map (interior_row x y) [2..<length x - 1] @ [last_row x y]"
      using 3 by (simp only: spline_rows_def Let_def u) simp
    show ?thesis
      unfolding rows F I using R p1 a b by simp
  qed
qed

lemma cubic_spline_fits:
  assumes "sorted_wrt (<) x" "2 \<le> length x" "length ys = length x"
  shows "\<exists>pp. cubic_spline x (map Fin ys) = Inr pp"
proof -
  have ys: "map (fl_val \<circ> Fin) ys = ys"
    by (induction ys) simp_all
  obtain s where "tri_solve (spline_rows x ys) = Some s"
    using tri_solve_complete [OF spline_rows_pivots_ok [OF assms(1,2)]] by blast
  then show ?thesis
    using assms by (simp add: cubic_spline_def ys list_all_iff strictly_increasing_iff)
qed

text \<open>
  C17. The fit never fails on valid input: for strictly increasing knots (at least two)
  and finite values of the same number, \<open>cubic_spline\<close> returns a spline. The
  elimination meets no zero pivot on any of the three branches' systems, so the
  \<open>SplineSingular\<close> outcome of the model is unreachable.
\<close>

theorem cubic_spline_total:
  assumes "sorted_wrt (<) x" "2 \<le> length x" "length ys = length x"
  shows "\<exists>pp. cubic_spline x (map Fin ys) = Inr pp"
  using assms by (rule cubic_spline_fits)

theorem cubic_spline_total_witness:
  "\<exists>pp. cubic_spline [0, 1, 2, 4, 8] (map Fin [0, 1, 0, 1, 0]) = Inr pp"
  using cubic_spline_total [of "[0, 1, 2, 4, 8]" "[0, 1, 0, 1, 0]"] by simp


section \<open>Smoothness of the fitted spline\<close>

lemma knot_h_nonzero: "sorted_wrt (<) x \<Longrightarrow> Suc i < length x \<Longrightarrow> knot_h x i \<noteq> 0"
  using knot_h_pos by fastforce

lemma nak_alg:
  fixes h0 h1 s0 s1 s2 m0 m1 :: real
  assumes "0 < h0" "0 < h1"
    and e0: "h1 * s0 + (h0 + h1) * s1 = ((h0 + 2 * (h0 + h1)) * h1 * m0 + h0 ^ 2 * m1) / (h0 + h1)"
    and e1: "h1 * s0 + 2 * (h0 + h1) * s1 + h0 * s2 = 3 * (h1 * m0 + h0 * m1)"
  shows "6 * (s0 + s1 - 2 * m0) / (h0 * h0) = 6 * (s1 + s2 - 2 * m1) / (h1 * h1)"
proof -
  have d: "h0 + h1 \<noteq> 0" using assms(1,2) by simp
  from e0 d have e0': "(h1 * s0 + (h0 + h1) * s1) * (h0 + h1) = (h0 + 2 * (h0 + h1)) * h1 * m0 + h0 ^ 2 * m1"
    by (simp add: eq_divide_eq)
  have "h1 * h1 * (s0 + s1 - 2 * m0) = h0 * h0 * (s1 + s2 - 2 * m1)"
    using e0' e1 d by algebra
  then have "6 * (s0 + s1 - 2 * m0) * (h1 * h1) = 6 * (s1 + s2 - 2 * m1) * (h0 * h0)"
    by algebra
  with assms(1,2) show ?thesis by (subst frac_eq_eq) auto
qed
lemma nak_end_alg:
  fixes h0 h1 s0 s1 s2 m0 m1 :: real
  assumes "0 < h0" "0 < h1"
    and e1: "h1 * s0 + 2 * (h0 + h1) * s1 + h0 * s2 = 3 * (h1 * m0 + h0 * m1)"
    and e2: "(h0 + h1) * s1 + h0 * s2 = (h1 ^ 2 * m0 + (2 * (h0 + h1) + h1) * h0 * m1) / (h0 + h1)"
  shows "6 * (s0 + s1 - 2 * m0) / (h0 * h0) = 6 * (s1 + s2 - 2 * m1) / (h1 * h1)"
proof -
  have d: "h0 + h1 \<noteq> 0" using assms(1,2) by simp
  from e2 d have e2': "((h0 + h1) * s1 + h0 * s2) * (h0 + h1) = h1 ^ 2 * m0 + (2 * (h0 + h1) + h1) * h0 * m1"
    by (simp add: eq_divide_eq)
  have "h1 * h1 * (s0 + s1 - 2 * m0) = h0 * h0 * (s1 + s2 - 2 * m1)"
    using e2' e1 d by algebra
  then have "6 * (s0 + s1 - 2 * m0) * (h1 * h1) = 6 * (s1 + s2 - 2 * m1) * (h0 * h0)"
    by algebra
  with assms(1,2) show ?thesis by (subst frac_eq_eq) auto
qed

lemma c2_alg:
  fixes h0 h1 s0 s1 s2 m0 m1 :: real
  assumes "h0 \<noteq> 0" "h1 \<noteq> 0" "h1 * s0 + 2 * (h0 + h1) * s1 + h0 * s2 = 3 * (h1 * m0 + h0 * m1)"
  shows "(2 * s0 + 4 * s1 - 6 * m0) / h0 = (6 * m1 - 4 * s1 - 2 * s2) / h1"
proof -
  have "h1 * (2 * s0 + 4 * s1 - 6 * m0) = h0 * (6 * m1 - 4 * s1 - 2 * s2)"
    using assms(3) by algebra
  with assms(1,2) show ?thesis by (simp add: frac_eq_eq mult.commute)
qed

lemma herm_piece_d2_slope:
  assumes "h \<noteq> 0"
  shows "poly3_d2 (herm_piece h yi yj si sj) 0 = (6 * ((yj - yi) / h) - 4 * si - 2 * sj) / h"
    and "poly3_d2 (herm_piece h yi yj si sj) h = (2 * si + 4 * sj - 6 * ((yj - yi) / h)) / h"
  using assms by (simp_all add: herm_piece_def poly3_d2_def Let_def field_simps)

lemma spline_pieces:
  assumes "cubic_spline x (map Fin ys) = Inr pp" "0 < k" "k < length x - 1"
  obtains s where "tri_solve (spline_rows x ys) = Some s" "sorted_wrt (<) x"
    "pp_c pp ! (k - 1) = herm_piece (knot_h x (k - 1)) (ys ! (k - 1)) (ys ! k) (s ! (k - 1)) (s ! k)"
    "pp_c pp ! k = herm_piece (knot_h x k) (ys ! k) (ys ! Suc k) (s ! k) (s ! Suc k)"
  using assms(1)
proof (rule cubic_spline_InrE)
  fix s
  assume "tri_solve (spline_rows x ys) = Some s" "sorted_wrt (<) x"
    "pp = \<lparr>pp_x = x, pp_c = hermite_coeffs x ys s\<rparr>"
  moreover have "Suc (k - 1) = k" using assms(2) by simp
  ultimately show thesis
    using that assms(2,3) by (simp add: hermite_coeffs_nth)
qed

text \<open>
  At every interior knot the value and the first derivative of the piece that ends there
  equal those of the piece that starts there.
\<close>

lemma cubic_spline_C1:
  assumes "cubic_spline x (map Fin ys) = Inr pp" "0 < k" "k < length x - 1"
  shows "poly3 (pp_c pp ! (k - 1)) (knot_h x (k - 1)) = poly3 (pp_c pp ! k) 0
       \<and> poly3_d1 (pp_c pp ! (k - 1)) (knot_h x (k - 1)) = poly3_d1 (pp_c pp ! k) 0"
proof (rule spline_pieces [OF assms])
  fix s
  assume sx: "sorted_wrt (<) x"
    and l: "pp_c pp ! (k - 1) = herm_piece (knot_h x (k - 1)) (ys ! (k - 1)) (ys ! k) (s ! (k - 1)) (s ! k)"
    and r: "pp_c pp ! k = herm_piece (knot_h x k) (ys ! k) (ys ! Suc k) (s ! k) (s ! Suc k)"
  have "Suc (k - 1) < length x" using assms(2,3) by simp
  then have "knot_h x (k - 1) \<noteq> 0" by (rule knot_h_nonzero [OF sx])
  with l r show ?thesis by (simp add: spline_alg)
qed

text \<open>The second derivatives agree because the slopes solve the interior rows of the system.\<close>

lemma cubic_spline_d2_cont:
  assumes "cubic_spline x (map Fin ys) = Inr pp" "0 < k" "k < length x - 1"
  shows "poly3_d2 (pp_c pp ! (k - 1)) (knot_h x (k - 1)) = poly3_d2 (pp_c pp ! k) 0"
proof (rule spline_pieces [OF assms])
  fix s
  assume sol: "tri_solve (spline_rows x ys) = Some s" and sx: "sorted_wrt (<) x"
    and l: "pp_c pp ! (k - 1) = herm_piece (knot_h x (k - 1)) (ys ! (k - 1)) (ys ! k) (s ! (k - 1)) (s ! k)"
    and r: "pp_c pp ! k = herm_piece (knot_h x k) (ys ! k) (ys ! Suc k) (s ! k) (s ! Suc k)"
  let ?h0 = "knot_h x (k - 1)" and ?h1 = "knot_h x k"
  have sk: "Suc (k - 1) = k" using assms(2) by simp
  have "Suc (k - 1) < length x" "Suc k < length x" using assms(2,3) by simp_all
  then have h0: "?h0 \<noteq> 0" and h1: "?h1 \<noteq> 0" by (simp_all add: knot_h_nonzero [OF sx])
  have n: "3 \<le> length x" using assms(2,3) by simp
  have len: "length s = length x"
    using tri_solve_from_sound [of 0 0 "spline_rows x ys" s] sol n by (simp add: tri_solve_def)
  have "spline_rows x ys ! k = interior_row x ys k"
    using n assms(2,3) by (intro spline_rows_interior) simp_all
  then have rk: "spline_rows x ys ! k = (?h1, 2 * (?h0 + ?h1), ?h0,
                   3 * (?h1 * knot_slope x ys (k - 1) + ?h0 * knot_slope x ys k))"
    by (simp add: interior_row_def)
  have kl: "k < length (spline_rows x ys)" using n assms(3) by simp
  have sl: "Suc k < length s" using len assms(3) by simp
  from tri_solve_row [OF sol kl rk] assms(2) sl
  have row: "?h1 * s ! (k - 1) + 2 * (?h0 + ?h1) * s ! k + ?h0 * s ! Suc k
             = 3 * (?h1 * knot_slope x ys (k - 1) + ?h0 * knot_slope x ys k)"
    by simp
  have "poly3_d2 (pp_c pp ! (k - 1)) ?h0 = (2 * s ! (k - 1) + 4 * s ! k - 6 * knot_slope x ys (k - 1)) / ?h0"
    using l h0 sk by (simp add: herm_piece_d2_slope knot_slope_def)
  moreover have "poly3_d2 (pp_c pp ! k) 0 = (6 * knot_slope x ys k - 4 * s ! k - 2 * s ! Suc k) / ?h1"
    using r h1 by (simp add: herm_piece_d2_slope knot_slope_def)
  ultimately show ?thesis
    using c2_alg [OF h0 h1 row] by simp
qed

text \<open>
  C15. The fitted spline is twice continuously differentiable: at every interior knot the
  value and the first and second derivatives of the piece that ends there equal those of
  the piece that starts there.
\<close>

theorem cubic_spline_C2:
  assumes "cubic_spline x (map Fin ys) = Inr pp" "0 < k" "k < length x - 1"
  shows "poly3 (pp_c pp ! (k - 1)) (knot_h x (k - 1)) = poly3 (pp_c pp ! k) 0
       \<and> poly3_d1 (pp_c pp ! (k - 1)) (knot_h x (k - 1)) = poly3_d1 (pp_c pp ! k) 0
       \<and> poly3_d2 (pp_c pp ! (k - 1)) (knot_h x (k - 1)) = poly3_d2 (pp_c pp ! k) 0"
  using cubic_spline_C1 [OF assms] cubic_spline_d2_cont [OF assms] by blast

theorem cubic_spline_C2_witness:
  "\<exists>pp. cubic_spline [0, 1, 2, 4] (map Fin [0, 1, 0, 1]) = Inr pp
      \<and> poly3 (pp_c pp ! 1) (knot_h [0, 1, 2, 4] 1) = poly3 (pp_c pp ! 2) 0
      \<and> poly3_d1 (pp_c pp ! 1) (knot_h [0, 1, 2, 4] 1) = poly3_d1 (pp_c pp ! 2) 0
      \<and> poly3_d2 (pp_c pp ! 1) (knot_h [0, 1, 2, 4] 1) = poly3_d2 (pp_c pp ! 2) 0"
proof -
  obtain pp where pp: "cubic_spline [0, 1, 2, 4] (map Fin [0, 1, 0, 1]) = Inr pp"
    using spline_example_fit by blast
  show ?thesis using pp cubic_spline_C2 [OF pp, of 2] by auto
qed

lemma herm_piece_d3_slope:
  "poly3_d3 (herm_piece h yi yj si sj) = 6 * (si + sj - 2 * ((yj - yi) / h)) / (h * h)"
  by (simp add: herm_piece_def poly3_d3_def Let_def)

lemma cubic_spline_slopes:
  assumes "cubic_spline x (map Fin ys) = Inr pp"
  obtains s where "tri_solve (spline_rows x ys) = Some s" "sorted_wrt (<) x" "2 \<le> length x"
    "length s = length x"
    "\<And>i. Suc i < length x \<Longrightarrow>
       poly3_d3 (pp_c pp ! i) = 6 * (s ! i + s ! Suc i - 2 * knot_slope x ys i) / (knot_h x i * knot_h x i)"
  using assms
proof (rule cubic_spline_InrE)
  fix s
  assume sol: "tri_solve (spline_rows x ys) = Some s" and sx: "sorted_wrt (<) x"
    and n: "2 \<le> length x" and pp: "pp = \<lparr>pp_x = x, pp_c = hermite_coeffs x ys s\<rparr>"
  have "length s = length x"
    using tri_solve_from_sound [of 0 0 "spline_rows x ys" s] sol n by (simp add: tri_solve_def)
  moreover have "\<And>i. Suc i < length x \<Longrightarrow>
       poly3_d3 (pp_c pp ! i) = 6 * (s ! i + s ! Suc i - 2 * knot_slope x ys i) / (knot_h x i * knot_h x i)"
    using pp by (simp add: hermite_coeffs_nth herm_piece_d3_slope knot_slope_def)
  ultimately show thesis using that sol sx n by blast
qed

text \<open>
  C16. The not-a-knot condition: the third derivative does not jump at the second knot
  nor at the second-to-last one, so the first two pieces are one cubic and so are the
  last two (for three knots, the whole spline is one parabola).
\<close>

theorem cubic_spline_not_a_knot:
  assumes "cubic_spline x (map Fin ys) = Inr pp" "3 \<le> length x"
  shows "poly3_d3 (pp_c pp ! 0) = poly3_d3 (pp_c pp ! 1)
       \<and> poly3_d3 (pp_c pp ! (length x - 3)) = poly3_d3 (pp_c pp ! (length x - 2))"
  using assms(1)
proof (rule cubic_spline_slopes)
  fix s
  assume sol: "tri_solve (spline_rows x ys) = Some s" and sx: "sorted_wrt (<) x"
    and len: "length s = length x"
    and d3: "\<And>i. Suc i < length x \<Longrightarrow>
       poly3_d3 (pp_c pp ! i) = 6 * (s ! i + s ! Suc i - 2 * knot_slope x ys i) / (knot_h x i * knot_h x i)"
  have rl: "length (spline_rows x ys) = length x" using assms(2) by simp
  show ?thesis
  proof (cases "length x = 3")
    case True
    have r0: "spline_rows x ys ! 0 = (0, 1, 1, 2 * knot_slope x ys 0)"
     and r2: "spline_rows x ys ! 2 = (1, 1, 0, 2 * knot_slope x ys 1)"
      using True by (simp_all add: spline_rows_def)
    from tri_solve_row [OF sol _ r0] True len rl
    have e0: "s ! 0 + s ! 1 = 2 * knot_slope x ys 0" by simp
    from tri_solve_row [OF sol _ r2] True len rl
    have e2: "s ! 1 + s ! 2 = 2 * knot_slope x ys 1" by (simp add: numeral_2_eq_2)
    have "poly3_d3 (pp_c pp ! 0) = 0" "poly3_d3 (pp_c pp ! 1) = 0"
      using d3 [of 0] d3 [of 1] e0 e2 True by (simp_all add: numeral_2_eq_2)
    with True show ?thesis by simp
  next
    case False
    with assms(2) have n4: "4 \<le> length x" by simp
    have xne: "x \<noteq> []" using n4 by auto
    define j where "j = length x - 3"
    have nj: "length x = Suc (Suc (Suc j))" using assms(2) by (simp add: j_def)
    have hpos: "\<And>i. Suc i < length x \<Longrightarrow> 0 < knot_h x i"
      by (rule knot_h_pos [OF sx])
    obtain r0 where F: "first_row x ys = (0, knot_h x 1, knot_h x 0 + knot_h x 1, r0)"
      using first_row_matrix by blast
    have r0: "r0 = ((knot_h x 0 + 2 * (knot_h x 0 + knot_h x 1)) * knot_h x 1 * knot_slope x ys 0
                    + knot_h x 0 ^ 2 * knot_slope x ys 1) / (knot_h x 0 + knot_h x 1)"
      using F by (simp add: first_row_def Let_def knot_h_def numeral_2_eq_2)
    have row0: "spline_rows x ys ! 0 = (0, knot_h x 1, knot_h x 0 + knot_h x 1, r0)"
      using spline_rows_first_last(1) [OF n4] F by simp
    have row1: "spline_rows x ys ! 1 = interior_row x ys 1"
      using n4 by (intro spline_rows_interior) simp_all
    from tri_solve_row [OF sol _ row0] n4 len rl xne
    have e0: "knot_h x 1 * s ! 0 + (knot_h x 0 + knot_h x 1) * s ! 1 = r0" by simp
    from tri_solve_row [OF sol _ row1 [unfolded interior_row_def]] n4 len rl
    have e1: "knot_h x 1 * s ! 0 + 2 * (knot_h x 0 + knot_h x 1) * s ! 1 + knot_h x 0 * s ! 2
              = 3 * (knot_h x 1 * knot_slope x ys 0 + knot_h x 0 * knot_slope x ys 1)"
      by (simp add: interior_row_def numeral_2_eq_2)
    have start: "poly3_d3 (pp_c pp ! 0) = poly3_d3 (pp_c pp ! 1)"
      using nak_alg [OF hpos hpos e0 [unfolded r0] e1] d3 [of 0] d3 [of 1] n4
      by (simp add: numeral_2_eq_2)
    have rowm: "spline_rows x ys ! Suc j = interior_row x ys (Suc j)"
      using nj by (intro spline_rows_interior) simp_all
    obtain rl' where L: "last_row x ys = (knot_h x j + knot_h x (Suc j), knot_h x j, 0, rl')"
      and rl': "rl' = (knot_h x (Suc j) ^ 2 * knot_slope x ys j
                 + (2 * (knot_h x j + knot_h x (Suc j)) + knot_h x (Suc j)) * knot_h x j
                   * knot_slope x ys (Suc j)) / (knot_h x j + knot_h x (Suc j))"
      using nj by (simp add: last_row_def Let_def knot_h_def)
    have rowl: "spline_rows x ys ! Suc (Suc j) = (knot_h x j + knot_h x (Suc j), knot_h x j, 0, rl')"
      using spline_rows_first_last(2) [OF n4] L nj by simp
    from tri_solve_row [OF sol _ rowm [unfolded interior_row_def]] nj len rl
    have e1': "knot_h x (Suc j) * s ! j + 2 * (knot_h x j + knot_h x (Suc j)) * s ! Suc j
               + knot_h x j * s ! Suc (Suc j)
               = 3 * (knot_h x (Suc j) * knot_slope x ys j + knot_h x j * knot_slope x ys (Suc j))"
      by (simp add: interior_row_def)
    from tri_solve_row [OF sol _ rowl] nj len rl
    have e2: "(knot_h x j + knot_h x (Suc j)) * s ! Suc j + knot_h x j * s ! Suc (Suc j) = rl'"
      by simp
    have "poly3_d3 (pp_c pp ! j) = poly3_d3 (pp_c pp ! Suc j)"
      using nak_end_alg [OF hpos hpos e1' e2 [unfolded rl']] d3 [of j] d3 [of "Suc j"] nj
      by simp
    moreover have "length x - 3 = j" "length x - 2 = Suc j" using nj by simp_all
    ultimately show ?thesis using start by simp
  qed
qed

theorem cubic_spline_not_a_knot_witness:
  "\<exists>pp. cubic_spline [0, 1, 2, 4] (map Fin [0, 1, 0, 1]) = Inr pp
      \<and> poly3_d3 (pp_c pp ! 0) = poly3_d3 (pp_c pp ! 1)
      \<and> poly3_d3 (pp_c pp ! 1) = poly3_d3 (pp_c pp ! 2)"
proof -
  obtain pp where pp: "cubic_spline [0, 1, 2, 4] (map Fin [0, 1, 0, 1]) = Inr pp"
    using spline_example_fit by blast
  show ?thesis using pp cubic_spline_not_a_knot [OF pp] by (simp add: numeral_2_eq_2)
qed

section \<open>Exactness on cubic polynomials\<close>

lemma cubic_poly_diff: "cubic_poly a b c d y - cubic_poly a b c d x = (a * (y ^ 2 + y * x + x ^ 2) + b * (y + x) + c) * (y - x)"
  unfolding cubic_poly_def by algebra

lemma cubic_poly_divdiff:
  assumes "x \<noteq> y"
  shows "(cubic_poly a b c d y - cubic_poly a b c d x) / (y - x) = a * (y ^ 2 + y * x + x ^ 2) + b * (y + x) + c"
proof -
  have "y - x \<noteq> 0" using assms by simp
  then show ?thesis by (simp add: cubic_poly_diff)
qed

lemma cubic_poly_interior_poly:
  "(x2 - x1) * cubic_poly_d1 a b c x0 + 2 * ((x1 - x0) + (x2 - x1)) * cubic_poly_d1 a b c x1 + (x1 - x0) * cubic_poly_d1 a b c x2
   = 3 * ((x2 - x1) * (a * (x1 ^ 2 + x1 * x0 + x0 ^ 2) + b * (x1 + x0) + c)
          + (x1 - x0) * (a * (x2 ^ 2 + x2 * x1 + x1 ^ 2) + b * (x2 + x1) + c))"
  unfolding cubic_poly_d1_def by algebra

lemma cubic_poly_first_poly:
  "((x2 - x1) * cubic_poly_d1 a b c x0 + (x2 - x0) * cubic_poly_d1 a b c x1) * (x2 - x0)
   = ((x1 - x0) + 2 * (x2 - x0)) * (x2 - x1) * (a * (x1 ^ 2 + x1 * x0 + x0 ^ 2) + b * (x1 + x0) + c)
     + (x1 - x0) ^ 2 * (a * (x2 ^ 2 + x2 * x1 + x1 ^ 2) + b * (x2 + x1) + c)"
  unfolding cubic_poly_d1_def by algebra

lemma cubic_poly_last_poly:
  "((x2 - x0) * cubic_poly_d1 a b c x1 + (x1 - x0) * cubic_poly_d1 a b c x2) * (x2 - x0)
   = (x2 - x1) ^ 2 * (a * (x1 ^ 2 + x1 * x0 + x0 ^ 2) + b * (x1 + x0) + c)
     + (2 * (x2 - x0) + (x2 - x1)) * (x1 - x0) * (a * (x2 ^ 2 + x2 * x1 + x1 ^ 2) + b * (x2 + x1) + c)"
  unfolding cubic_poly_d1_def by algebra

lemma herm_piece_cubic_eval:
  "a * (u - xi) ^ 3 + (b + 3 * a * xi) * (u - xi) ^ 2 + cubic_poly_d1 a b c xi * (u - xi) + cubic_poly a b c d xi
   = cubic_poly a b c d u"
  unfolding cubic_poly_def cubic_poly_d1_def by algebra

lemma herm_piece_cubic:
  assumes "xi \<noteq> xj"
  shows "herm_piece (xj - xi) (cubic_poly a b c d xi) (cubic_poly a b c d xj) (cubic_poly_d1 a b c xi) (cubic_poly_d1 a b c xj)
         = (a, b + 3 * a * xi, cubic_poly_d1 a b c xi, cubic_poly a b c d xi)"
proof -
  let ?h = "xj - xi" and ?M = "a * (xj ^ 2 + xj * xi + xi ^ 2) + b * (xj + xi) + c"
  have h: "?h \<noteq> 0" using assms by simp
  have m: "(cubic_poly a b c d xj - cubic_poly a b c d xi) / ?h = ?M"
    using assms by (rule cubic_poly_divdiff)
  have "cubic_poly_d1 a b c xi + cubic_poly_d1 a b c xj - 2 * ?M = (a * ?h) * ?h"
    unfolding cubic_poly_d1_def by algebra
  then have t: "(cubic_poly_d1 a b c xi + cubic_poly_d1 a b c xj - 2 * ?M) / ?h = a * ?h"
    using h by simp
  have "?M - cubic_poly_d1 a b c xi = (a * (xj + 2 * xi) + b) * ?h"
    unfolding cubic_poly_d1_def by algebra
  then have "(?M - cubic_poly_d1 a b c xi) / ?h = a * (xj + 2 * xi) + b"
    using h by simp
  then have u: "(?M - cubic_poly_d1 a b c xi) / ?h - a * ?h = b + 3 * a * xi"
    by (simp add: algebra_simps)
  show ?thesis
    unfolding herm_piece_def Let_def m t u using h by simp
qed

lemma cubic_poly_first:
  assumes "x0 < x1" "x1 < x2"
  shows "(x2 - x1) * cubic_poly_d1 a b c x0 + (x2 - x0) * cubic_poly_d1 a b c x1
       = (((x1 - x0) + 2 * (x2 - x0)) * (x2 - x1) * ((cubic_poly a b c d x1 - cubic_poly a b c d x0) / (x1 - x0))
          + (x1 - x0) ^ 2 * ((cubic_poly a b c d x2 - cubic_poly a b c d x1) / (x2 - x1))) / (x2 - x0)"
proof -
  have "x0 \<noteq> x1" "x1 \<noteq> x2" "x2 - x0 \<noteq> 0" using assms by simp_all
  then show ?thesis
    by (simp add: cubic_poly_divdiff eq_divide_eq cubic_poly_first_poly)
qed

lemma cubic_poly_last:
  assumes "x0 < x1" "x1 < x2"
  shows "(x2 - x0) * cubic_poly_d1 a b c x1 + (x1 - x0) * cubic_poly_d1 a b c x2
       = ((x2 - x1) ^ 2 * ((cubic_poly a b c d x1 - cubic_poly a b c d x0) / (x1 - x0))
          + (2 * (x2 - x0) + (x2 - x1)) * (x1 - x0) * ((cubic_poly a b c d x2 - cubic_poly a b c d x1) / (x2 - x1))) / (x2 - x0)"
proof -
  have "x0 \<noteq> x1" "x1 \<noteq> x2" "x2 - x0 \<noteq> 0" using assms by simp_all
  then show ?thesis
    by (simp add: cubic_poly_divdiff eq_divide_eq cubic_poly_last_poly)
qed

lemma cubic_poly_interior:
  assumes "x0 \<noteq> x1" "x1 \<noteq> x2"
  shows "(x2 - x1) * cubic_poly_d1 a b c x0 + 2 * ((x1 - x0) + (x2 - x1)) * cubic_poly_d1 a b c x1 + (x1 - x0) * cubic_poly_d1 a b c x2
       = 3 * ((x2 - x1) * ((cubic_poly a b c d x1 - cubic_poly a b c d x0) / (x1 - x0))
              + (x1 - x0) * ((cubic_poly a b c d x2 - cubic_poly a b c d x1) / (x2 - x1)))"
  unfolding cubic_poly_divdiff [OF assms(1)] cubic_poly_divdiff [OF assms(2)] by (rule cubic_poly_interior_poly)

lemma spline_rows_cubic:
  assumes sx: "sorted_wrt (<) x" and n: "4 \<le> length x"
  shows "tri_solves (spline_rows x (map (cubic_poly a b c d) x)) (map (cubic_poly_d1 a b c) x)"
proof (rule tri_solves_rows)
  let ?y = "map (cubic_poly a b c d) x" and ?s = "map (cubic_poly_d1 a b c) x"
  show "length ?s = length (spline_rows x ?y)" using n by simp
  fix i p q r t
  assume i: "i < length (spline_rows x ?y)" and row: "spline_rows x ?y ! i = (p, q, r, t)"
  have lt: "x ! j < x ! k" if "j < k" "k < length x" for j k
    using sx that by (rule sorted_less_nth_mono)
  have len: "length (spline_rows x ?y) = length x" using n by simp
  consider (first) "i = 0" | (last) "i = length x - 1" | (mid) "1 \<le> i" "i \<le> length x - 2"
    using i len by linarith
  then show "p * (if i = 0 then 0 else ?s ! (i - 1)) + q * ?s ! i
             + r * (if Suc i < length ?s then ?s ! Suc i else 0) = t"
  proof cases
    case first
    have "first_row x ?y = (p, q, r, t)" using row spline_rows_first_last(1) [OF n] first by simp
    moreover have "Suc (Suc 0) < length x" "x \<noteq> []" using n by auto
    ultimately show ?thesis
      using first cubic_poly_first [OF lt [of 0 1] lt [of 1 2], of a b c d] n
      by (auto simp: first_row_def Let_def knot_h_def knot_slope_def numeral_2_eq_2)
  next
    case last
    have "last_row x ?y = (p, q, r, t)" using row spline_rows_first_last(2) [OF n] last by simp
    moreover have k: "length x - 1 = Suc (Suc (length x - 3))" "length x - 2 = Suc (length x - 3)"
      using n by simp_all
    ultimately show ?thesis
      using last cubic_poly_last [OF lt [of "length x - 3" "length x - 2"] lt [of "length x - 2" "length x - 1"], of a b c d] n
      by (auto simp: last_row_def Let_def knot_h_def knot_slope_def)
  next
    case mid
    have "interior_row x ?y i = (p, q, r, t)" using row spline_rows_interior [OF _ mid] n by simp
    moreover have k: "i = Suc (i - 1)" "Suc i < length x" using mid n by simp_all
    ultimately show ?thesis
      using mid cubic_poly_interior [OF less_imp_neq [OF lt [of "i - 1" i]] less_imp_neq [OF lt [of i "Suc i"]], of a b c d]
      by (auto simp: interior_row_def knot_h_def knot_slope_def)
  qed
qed

text \<open>
  C27. The not-a-knot spline is exact on cubic polynomials: fitted through the values of
  a cubic at four or more strictly increasing knots, it coincides with that cubic
  everywhere, extrapolation included.
\<close>

theorem cubic_spline_exact_cubic:
  assumes sx: "sorted_wrt (<) x" and n: "4 \<le> length x"
  shows "\<exists>pp. cubic_spline x (map Fin (map (cubic_poly a b c d) x)) = Inr pp
            \<and> (\<forall>u. ppoly_eval pp u = cubic_poly a b c d u)"
proof -
  let ?y = "map (cubic_poly a b c d) x" and ?s = "map (cubic_poly_d1 a b c) x"
  have "length ?y = length x" by simp
  then obtain pp where pp: "cubic_spline x (map Fin ?y) = Inr pp"
    using cubic_spline_fits [OF sx] n by fastforce
  have "ppoly_eval pp u = cubic_poly a b c d u" for u
    using pp
  proof (rule cubic_spline_InrE)
    fix s
    assume sol: "tri_solve (spline_rows x ?y) = Some s"
      and ppc: "pp = \<lparr>pp_x = x, pp_c = hermite_coeffs x ?y s\<rparr>"
    have s: "s = ?s"
      using tri_solve_correct [OF sol, of ?s] spline_rows_cubic [OF sx n, of a b c d] by simp
    let ?i = "find_interval x u"
    have i: "Suc ?i < length x" using n by (simp add: find_interval_def)
    have "x ! ?i < x ! Suc ?i" using sx i by (simp add: sorted_less_nth_mono)
    then have "hermite_coeffs x ?y s ! ?i = (a, b + 3 * a * x ! ?i, cubic_poly_d1 a b c (x ! ?i), cubic_poly a b c d (x ! ?i))"
      using i herm_piece_cubic [of "x ! ?i" "x ! Suc ?i" a b c d]
      by (simp add: hermite_coeffs_nth s knot_h_def)
    then show ?thesis
      using ppc herm_piece_cubic_eval [of a u "x ! ?i" b c d] by (simp add: ppoly_eval_def poly3_def Let_def algebra_simps)
  qed
  with pp show ?thesis by blast
qed

theorem cubic_spline_exact_cubic_witness:
  "\<exists>pp. cubic_spline [0, 1, 2, 4] (map Fin (map (cubic_poly 1 0 0 0) [0, 1, 2, 4])) = Inr pp
      \<and> (\<forall>u. ppoly_eval pp u = cubic_poly 1 0 0 0 u)"
  using cubic_spline_exact_cubic [of "[0, 1, 2, 4]" 1 0 0 0] by simp

end
