(* ===== verification/PPoly_Search.thy ===== *)
theory PPoly_Search
  imports Cubic_Spline
begin

text \<open>
  How scipy evaluates the fitted spline at an array of points: \<open>PPoly.__call__\<close> hands
  the points to \<open>_ppoly.evaluate\<close>, which walks them in order and finds each point's
  interval with \<open>find_interval_ascending\<close>, passing the interval of the previous point
  as a hint. The search clips to the first and last piece outside the knots (the
  spline extrapolates), closes the last interval at the right end, and otherwise runs a
  bisection that starts from the hint. The NaN branch of the search (interval -1) is
  unreachable here: the points are real numbers.

  The lemmas show that the bisection makes a logarithmic number of passes, that for
  every hint the search returns the interval of the reference \<open>find_interval\<close>, and
  hence that the evaluation loop computes the map of \<open>ppoly_eval\<close> over the points.
\<close>

section \<open>The search and the evaluation loop\<close>

text \<open>
  The loop \<open>while low < high\<close> of \<open>find_interval_ascending\<close>: \<open>mid = (high + low) // 2\<close>,
  then \<open>high = mid\<close> if the point lies left of \<open>x[mid]\<close>, \<open>low = mid + 1\<close> if it lies
  at or right of \<open>x[mid + 1]\<close>, and otherwise \<open>mid\<close> is the interval. The loop returns
  the interval together with the number of passes it made, a ghost counter that every
  pass increments, so that the bound on the passes is a bound on this very recursion.
\<close>

function find_interval_loop_counted :: "real list \<Rightarrow> real \<Rightarrow> nat \<Rightarrow> nat \<Rightarrow> nat \<times> nat" where
  "find_interval_loop_counted x u low high =
     (if low < high then
        (let mid = (high + low) div 2 in
         if u < x ! mid then (\<lambda>(r, n). (r, Suc n)) (find_interval_loop_counted x u low mid)
         else if x ! Suc mid \<le> u then (\<lambda>(r, n). (r, Suc n)) (find_interval_loop_counted x u (Suc mid) high)
         else (mid, 1))
      else (low, 0))"
  by pat_completeness auto
termination
  by (relation "measure (\<lambda>(x, u, low, high). high - low)") auto

declare find_interval_loop_counted.simps [simp del]

text \<open>The interval the loop returns.\<close>

definition find_interval_loop :: "real list \<Rightarrow> real \<Rightarrow> nat \<Rightarrow> nat \<Rightarrow> nat" where
  "find_interval_loop x u low high = fst (find_interval_loop_counted x u low high)"

text \<open>
  \<open>find_interval_ascending(x, nx, xval, prev_interval, extrapolate=True)\<close>: the hint
  is used when it indexes a knot; a point outside \<open>[x[0], x[nx-1]]\<close> gets the first or
  the last piece; the right end gets the last piece; any other point is searched for,
  from the hint towards the side the point lies on.
\<close>

definition find_interval_asc :: "real list \<Rightarrow> real \<Rightarrow> nat \<Rightarrow> nat" where
  "find_interval_asc x u prev_interval =
     (let nx = length x; a = x ! 0; b = x ! (nx - 1);
          interval = (if prev_interval < nx then prev_interval else 0) in
      if \<not> (a \<le> u \<and> u \<le> b) then (if u < a then 0 else nx - 2)
      else if u = b then nx - 2
      else
        (let (low, high) = (if x ! interval \<le> u then (interval, nx - 2) else (0, interval));
             high = (if u < x ! Suc low then low else high)
         in find_interval_loop x u low high))"

text \<open>
  The loop of \<open>_ppoly.evaluate\<close> over the points, carrying the interval of the last
  point as the next hint, starting from 0.
\<close>

fun ppoly_evaluate_from :: "ppoly \<Rightarrow> nat \<Rightarrow> real list \<Rightarrow> real list" where
  "ppoly_evaluate_from pp interval [] = []"
| "ppoly_evaluate_from pp interval (u # us) =
     (let i = find_interval_asc (pp_x pp) u interval in
      poly3 (pp_c pp ! i) (u - pp_x pp ! i) # ppoly_evaluate_from pp i us)"

definition ppoly_evaluate :: "ppoly \<Rightarrow> real list \<Rightarrow> real list" where
  "ppoly_evaluate pp us = ppoly_evaluate_from pp 0 us"

section \<open>Correctness of the search\<close>

lemma find_interval_loop_simps:
  "find_interval_loop x u low high =
     (if low < high then
        (let mid = (high + low) div 2 in
         if u < x ! mid then find_interval_loop x u low mid
         else if x ! Suc mid \<le> u then find_interval_loop x u (Suc mid) high
         else mid)
      else low)"
  unfolding find_interval_loop_def
  by (subst find_interval_loop_counted.simps) (simp add: Let_def split_beta)

lemmas find_interval_loop_induct = find_interval_loop_counted.induct

text \<open>A piece that starts at or before the point and ends after it is the reference's.\<close>

lemma find_interval_eqI:
  assumes sx: "sorted_wrt (<) x" and i: "i \<le> length x - 2" and n: "2 \<le> length x"
    and lo: "i = 0 \<or> x ! i \<le> u" and hi: "i = length x - 2 \<or> u < x ! Suc i"
  shows "find_interval x u = i"
proof -
  let ?c = "length (filter (\<lambda>k. k \<le> u) x)"
  have iff: "\<And>j. j < length x \<Longrightarrow> x ! j \<le> u \<longleftrightarrow> j < ?c"
    using sx by (rule nth_le_iff_count)
  have c: "?c \<le> length x" by (rule length_filter_le)
  have "x ! i \<le> u \<Longrightarrow> i < ?c" using iff [of i] i n by linarith
  moreover have "u < x ! Suc i \<Longrightarrow> ?c \<le> Suc i" using iff [of "Suc i"] i n by linarith
  moreover have "i = 0 \<Longrightarrow> \<not> x ! 0 \<le> u \<Longrightarrow> ?c = 0" using iff [of 0] n by linarith
  moreover have "i = length x - 2 \<Longrightarrow> \<not> u < x ! Suc i \<Longrightarrow> length x - 1 \<le> ?c"
    using iff [of "Suc i"] i n by linarith
  ultimately show ?thesis
    using lo hi i n c by (auto simp: find_interval_def)
qed

text \<open>
  The loop keeps the point inside \<open>[x[low], x[high + 1])\<close>; it ends with an interval
  that holds the point.
\<close>

lemma find_interval_loop_correct:
  shows "sorted_wrt (<) x \<Longrightarrow> low \<le> high \<Longrightarrow> high < length x \<Longrightarrow> x ! low \<le> u
         \<Longrightarrow> (Suc high < length x \<longrightarrow> u < x ! Suc high) \<Longrightarrow> u < x ! (length x - 1)
         \<Longrightarrow> x ! find_interval_loop x u low high \<le> u
             \<and> u < x ! Suc (find_interval_loop x u low high)
             \<and> Suc (find_interval_loop x u low high) < length x"
proof (induction x u low high rule: find_interval_loop_induct)
  case (1 x u low high)
  let ?mid = "(high + low) div 2"
  show ?case
  proof (cases "low < high")
    case False
    with "1.prems" have "low = high" by simp
    moreover have "Suc high < length x"
    proof (rule ccontr)
      assume "\<not> Suc high < length x"
      with "1.prems"(3) have "high = length x - 1" by simp
      with "1.prems"(4,6) \<open>low = high\<close> show False by simp
    qed
    moreover have "find_interval_loop x u low high = low"
      using False by (simp add: find_interval_loop_simps [of x u low high])
    ultimately show ?thesis
      using "1.prems" by simp
  next
    case True
    have mid: "low \<le> ?mid" "?mid < high" using True by simp_all
    have step: "x ! ?mid < x ! Suc ?mid"
      using mid "1.prems"(3) by (intro sorted_less_nth_mono [OF "1.prems"(1)]) simp_all
    consider (left) "u < x ! ?mid" | (right) "\<not> u < x ! ?mid" "x ! Suc ?mid \<le> u"
      | (here) "\<not> u < x ! ?mid" "\<not> x ! Suc ?mid \<le> u" by blast
    then show ?thesis
    proof cases
      case left
      have "find_interval_loop x u low high = find_interval_loop x u low ?mid"
        using True left by (simp add: find_interval_loop_simps [of x u low high] Let_def)
      moreover have "Suc ?mid < length x \<longrightarrow> u < x ! Suc ?mid" using left step by simp
      ultimately show ?thesis
        using "1.IH"(1) [OF True refl left] mid "1.prems" by simp
    next
      case right
      have "find_interval_loop x u low high = find_interval_loop x u (Suc ?mid) high"
        using True right by (simp add: find_interval_loop_simps [of x u low high] Let_def)
      then show ?thesis
        using "1.IH"(2) [OF True refl right] right mid "1.prems" by simp
    next
      case here
      have "find_interval_loop x u low high = ?mid"
        using True here by (simp add: find_interval_loop_simps [of x u low high] Let_def)
      then show ?thesis using here mid "1.prems"(3) by simp
    qed
  qed
qed

lemma find_interval_loop_eq:
  assumes "sorted_wrt (<) x" "low \<le> high" "high < length x" "x ! low \<le> u"
    and "Suc high < length x \<longrightarrow> u < x ! Suc high" "u < x ! (length x - 1)"
  shows "find_interval_loop x u low high = find_interval x u"
proof -
  let ?r = "find_interval_loop x u low high"
  have r: "x ! ?r \<le> u" "u < x ! Suc ?r" "Suc ?r < length x"
    using find_interval_loop_correct assms by blast+
  show ?thesis
    using find_interval_eqI [OF assms(1), of ?r u] r by simp
qed

lemma find_interval_asc_in_range:
  assumes sx: "sorted_wrt (<) x" and n: "2 \<le> length x"
    and u: "x ! 0 \<le> u" "u < x ! (length x - 1)"
  shows "find_interval_asc x u prev = find_interval x u"
proof -
  let ?n = "length x" and ?iv = "if prev < length x then prev else 0"
  have iv: "?iv < ?n" using n by auto
  have lt: "\<And>j k. j < k \<Longrightarrow> k < ?n \<Longrightarrow> x ! j < x ! k"
    using sx by (rule sorted_less_nth_mono)
  have hd: "\<And>l h. l \<le> h \<Longrightarrow> h < ?n \<Longrightarrow> x ! l \<le> u \<Longrightarrow> (Suc h < ?n \<longrightarrow> u < x ! Suc h)
            \<Longrightarrow> find_interval_loop x u l (if u < x ! Suc l then l else h) = find_interval x u"
  proof -
    fix l h assume lh: "l \<le> h" "h < ?n" "x ! l \<le> u" "Suc h < ?n \<longrightarrow> u < x ! Suc h"
    have "Suc l < ?n"
    proof (rule ccontr)
      assume "\<not> Suc l < ?n"
      then have "l = ?n - 1" using lh by simp
      with lh(3) u(2) show False by simp
    qed
    then show "find_interval_loop x u l (if u < x ! Suc l then l else h) = find_interval x u"
      using find_interval_loop_eq [OF sx _ _ lh(3) _ u(2)] lh by auto
  qed
  show ?thesis
  proof (cases "x ! ?iv \<le> u")
    case True
    have "?iv \<noteq> ?n - 1" using True u(2) by auto
    then have "?iv \<le> ?n - 2" using iv by linarith
    moreover have "Suc (?n - 2) = ?n - 1" using n by simp
    ultimately have "find_interval_loop x u ?iv (if u < x ! Suc ?iv then ?iv else ?n - 2) = find_interval x u"
      using hd [of ?iv "?n - 2"] True u(2) n by simp
    then show ?thesis
      using True u by (simp add: find_interval_asc_def Let_def)
  next
    case False
    have "Suc ?iv < ?n \<longrightarrow> u < x ! Suc ?iv" using False lt [of ?iv "Suc ?iv"] by auto
    then have "find_interval_loop x u 0 (if u < x ! Suc 0 then 0 else ?iv) = find_interval x u"
      using hd [of 0 ?iv] iv u(1) by simp
    then show ?thesis
      using False u by (simp add: find_interval_asc_def Let_def)
  qed
qed

lemma find_interval_asc_correct:
  assumes sx: "sorted_wrt (<) x" and n: "2 \<le> length x"
  shows "find_interval_asc x u prev = find_interval x u"
proof -
  let ?n = "length x"
  have lt: "\<And>j k. j < k \<Longrightarrow> k < ?n \<Longrightarrow> x ! j < x ! k"
    using sx by (rule sorted_less_nth_mono)
  have last: "Suc (?n - 2) = ?n - 1" using n by simp
  have pen: "x ! (?n - 2) < x ! (?n - 1)" using lt [of "?n - 2" "?n - 1"] n by simp
  consider (below) "u < x ! 0" | (inside) "x ! 0 \<le> u" "u < x ! (?n - 1)" | (above) "x ! (?n - 1) \<le> u"
    by linarith
  then show ?thesis
  proof cases
    case below
    have "u < x ! Suc 0" using below lt [of 0 1] n by simp
    then have "find_interval x u = 0"
      using find_interval_eqI [OF sx _ n, of 0 u] by simp
    then show ?thesis using below by (simp add: find_interval_asc_def Let_def)
  next
    case inside
    then show ?thesis by (rule find_interval_asc_in_range [OF sx n])
  next
    case above
    have "find_interval x u = ?n - 2"
      using find_interval_eqI [OF sx _ n, of "?n - 2" u] above pen last by simp
    moreover have "x ! 0 < x ! (?n - 1)" using lt [of 0 "?n - 1"] n by simp
    then have "x ! 0 \<le> u" using above by simp
    ultimately show ?thesis using above by (auto simp: find_interval_asc_def Let_def)
  qed
qed

lemma ppoly_evaluate_from_map:
  assumes "sorted_wrt (<) (pp_x pp)" "2 \<le> length (pp_x pp)"
  shows "ppoly_evaluate_from pp prev us = map (ppoly_eval pp) us"
  by (induction us arbitrary: prev)
     (simp_all add: find_interval_asc_correct [OF assms] ppoly_eval_def Let_def)

section \<open>Properties of the search\<close>

text \<open>
  C29. The bisection is logarithmic: started on a non-empty range of width \<open>w\<close>, the
  loop that computes the interval makes at most \<open>1 + log2 w\<close> passes
  (\<open>2 ^ passes \<le> 2 w\<close>).
\<close>

theorem find_interval_loop_passes_log:
  "low < high \<Longrightarrow> 2 ^ snd (find_interval_loop_counted x u low high) \<le> 2 * (high - low)"
proof (induction x u low high rule: find_interval_loop_counted.induct)
  case (1 x u low high)
  let ?mid = "(high + low) div 2"
  let ?n = "\<lambda>l h. snd (find_interval_loop_counted x u l h)"
  have w1: "2 * (?mid - low) \<le> high - low" and w2: "2 * (high - Suc ?mid) \<le> high - low"
    using "1.prems" by linarith+
  have zero: "\<not> l < h \<Longrightarrow> ?n l h = 0" for l h
    by (simp add: find_interval_loop_counted.simps [of x u l h])
  consider (left) "u < x ! ?mid" | (right) "\<not> u < x ! ?mid" "x ! Suc ?mid \<le> u"
    | (here) "\<not> u < x ! ?mid" "\<not> x ! Suc ?mid \<le> u" by blast
  then show ?case
  proof cases
    case left
    have eq: "?n low high = Suc (?n low ?mid)"
      using "1.prems" left by (simp add: find_interval_loop_counted.simps [of x u low high] Let_def split_beta)
    show ?thesis
    proof (cases "low < ?mid")
      case True
      with "1.IH"(1) [OF "1.prems" refl left] w1 eq show ?thesis by simp
    next
      case False
      with eq zero [of low ?mid] "1.prems" show ?thesis by simp
    qed
  next
    case right
    have eq: "?n low high = Suc (?n (Suc ?mid) high)"
      using "1.prems" right by (simp add: find_interval_loop_counted.simps [of x u low high] Let_def split_beta)
    show ?thesis
    proof (cases "Suc ?mid < high")
      case True
      with "1.IH"(2) [OF "1.prems" refl right] w2 eq show ?thesis by simp
    next
      case False
      with eq zero [of "Suc ?mid" high] "1.prems" show ?thesis by simp
    qed
  next
    case here
    then have "?n low high = 1"
      using "1.prems" by (simp add: find_interval_loop_counted.simps [of x u low high] Let_def)
    with "1.prems" show ?thesis by simp
  qed
qed

theorem find_interval_loop_passes_log_witness:
  "2 ^ snd (find_interval_loop_counted [0, 1, 2, 3, 4, 5, 6, 7, 8] (11/2) 0 7) \<le> 2 * (7 - 0::nat)"
  using find_interval_loop_passes_log [of 0 7 "[0, 1, 2, 3, 4, 5, 6, 7, 8]" "11/2"] by simp

text \<open>
  C30. The search with a hint is the reference search: on strictly increasing knots, for
  every point and every hint, \<open>find_interval_ascending\<close> returns the interval of
  \<open>find_interval\<close> (the first piece left of the knots, the last at or right of the last
  knot, and otherwise the piece whose half-open interval holds the point).
\<close>

theorem find_interval_asc_eq:
  assumes "sorted_wrt (<) x" "2 \<le> length x"
  shows "find_interval_asc x u prev_interval = find_interval x u"
  using assms by (rule find_interval_asc_correct)

theorem find_interval_asc_eq_witness:
  "find_interval_asc [0, 1, 2, 4] 3 2 = find_interval [0, 1, 2, 4] (3::real)"
  using find_interval_asc_eq [of "[0, 1, 2, 4]" 3 2] by simp

end
