(* ===== verification/Loudness_Compressor.thy ===== *)
theory Loudness_Compressor
  imports Contour Compression PPoly_Search
begin

text \<open>
  The class \<open>LoudnessCompressor\<close> of \<open>src/torchpaqm/loudness.py\<close>: its state (the four
  attributes set by \<open>__init__\<close>, lines 47--58), its construction, and the three methods
  that compose the components: \<open>hearing_threshold_at_freqs\<close> (lines 78--85) fits the
  cubic spline of \<open>Cubic_Spline\<close> through the cached contour and evaluates it at the
  target frequencies, \<open>hearing_threshold_excitation\<close> (lines 90--95) hands the result
  to the transfer collaborator, and \<open>compress\<close> (lines 97--110) broadcasts the element
  formula of \<open>Compression\<close> over the threshold and the excitation pattern.

  The two collaborators outside the repository's sources enter as parameters:
  \<open>bark_to_hertz\<close> converts one frequency (the spec's contract: one Hertz value per input
  value), and \<open>transfer\<close> stands for \<open>transfer.transfer_signal_with_freqs\<close>, an opaque
  map from a signal and the frequencies to a tensor of its own shape. The methods do not
  change the object, so each is a function of the state.
\<close>

section \<open>State and construction\<close>

record loudness_compressor =
  equal_loudness_contour_freqs :: "real list"
  hearing_threshold_contour :: "fl list"
  schwell_factor :: real
  compression_level :: real

definition contour_freqs :: "real list" where
  "contour_freqs = map fst EQUAL_LOUDNESS_CONTOUR_PARAMS"

text \<open>\<open>__init__\<close>: the contour at the hearing threshold may raise the range error.\<close>

definition init :: "real \<Rightarrow> real \<Rightarrow> fl \<Rightarrow> error + loudness_compressor" where
  "init schwell compression hearing_threshold =
     (case equal_loudness_contour hearing_threshold of
        Inl err \<Rightarrow> Inl err
      | Inr contour \<Rightarrow>
          Inr \<lparr>equal_loudness_contour_freqs = contour_freqs,
               hearing_threshold_contour = contour,
               schwell_factor = schwell, compression_level = compression\<rparr>)"

definition default_compressor :: "error + loudness_compressor" where
  "default_compressor = init 0.5 0.04 (Fin PHON_HEARING_THRESHOLD)"

text \<open>
  The state a working compressor has: the table's frequencies and a finite contour of one
  value per frequency.
\<close>

definition compressor_ok :: "loudness_compressor \<Rightarrow> bool" where
  "compressor_ok c \<longleftrightarrow>
     equal_loudness_contour_freqs c = contour_freqs
     \<and> length (hearing_threshold_contour c) = 29
     \<and> list_all is_finite (hearing_threshold_contour c)"

section \<open>The methods\<close>

definition hearing_threshold_at_freqs ::
  "(real \<Rightarrow> real) \<Rightarrow> loudness_compressor \<Rightarrow> real list \<Rightarrow> error + fl list" where
  "hearing_threshold_at_freqs bark_to_hertz c bark_freqs =
     (let hertz_freqs = map bark_to_hertz bark_freqs in
      case cubic_spline (equal_loudness_contour_freqs c) (hearing_threshold_contour c) of
        Inl err \<Rightarrow> Inl err
      | Inr interpolator \<Rightarrow>
          Inr (map (\<lambda>v. fl_exp10 (fl_div (Fin v) (Fin 10))) (ppoly_evaluate interpolator hertz_freqs)))"

text \<open>\<open>unsqueeze(1)\<close> of a vector: a column of one-element rows.\<close>

definition unsqueeze1 :: "'a list \<Rightarrow> 'a list list" where
  "unsqueeze1 v = map (\<lambda>a. [a]) v"

type_synonym transfer_fn = "tensor \<Rightarrow> real list \<Rightarrow> tensor"

definition hearing_threshold_excitation ::
  "(real \<Rightarrow> real) \<Rightarrow> transfer_fn \<Rightarrow> loudness_compressor \<Rightarrow> real list \<Rightarrow> error + tensor" where
  "hearing_threshold_excitation bark_to_hertz transfer c bark_freqs =
     (case hearing_threshold_at_freqs bark_to_hertz c bark_freqs of
        Inl err \<Rightarrow> Inl err
      | Inr threshold_at_freqs \<Rightarrow> Inr (transfer (unsqueeze1 threshold_at_freqs) bark_freqs))"

text \<open>
  \<open>compress\<close>: the element formula over the broadcast of \<open>e0\<close> and \<open>e\<close>. The
  intermediate tensors of line 109 are \<open>e0\<close>-shaped or of the broadcast shape, so the
  single broadcast of the pair has the same result and raises in the same cases.
\<close>

definition compress ::
  "(real \<Rightarrow> real) \<Rightarrow> transfer_fn \<Rightarrow> loudness_compressor \<Rightarrow> tensor \<Rightarrow> real list
   \<Rightarrow> error + tensor" where
  "compress bark_to_hertz transfer c power_spectrum bark_freqs =
     (case hearing_threshold_excitation bark_to_hertz transfer c bark_freqs of
        Inl err \<Rightarrow> Inl err
      | Inr e0 \<Rightarrow> broadcast2 (compress_elem (schwell_factor c) (compression_level c)) e0 power_spectrum)"

section \<open>Construction\<close>

lemma length_contour_freqs [simp]: "length contour_freqs = 29"
  by (simp add: contour_freqs_def)

lemma contour_freqs_sorted: "sorted_wrt (<) contour_freqs"
  unfolding contour_freqs_def by (rule params_freqs_increasing)

lemma init_Fin:
  assumes "0 \<le> l" "l \<le> 90"
  shows "init s g (Fin l) =
           Inr \<lparr>equal_loudness_contour_freqs = contour_freqs,
                hearing_threshold_contour = map (\<lambda>p. Fin (iso_spl l p)) EQUAL_LOUDNESS_CONTOUR_PARAMS,
                schwell_factor = s, compression_level = g\<rparr>"
  using assms by (simp add: init_def equal_loudness_contour_def contour_spl_Fin row_ok_params)

lemma init_Fin_range: "\<not> (0 \<le> l \<and> l \<le> 90) \<Longrightarrow> init s g (Fin l) = Inl ContourRangeError"
  by (auto simp: init_def equal_loudness_contour_def)

lemma default_compressor_ok:
  "\<exists>c. default_compressor = Inr c \<and> compressor_ok c
       \<and> schwell_factor c = 0.5 \<and> compression_level c = 0.04"
proof -
  have "0 \<le> PHON_HEARING_THRESHOLD \<and> PHON_HEARING_THRESHOLD \<le> 90"
    by (simp add: PHON_HEARING_THRESHOLD_def)
  then show ?thesis
    by (simp add: default_compressor_def init_Fin compressor_ok_def list_all_iff)
qed

section \<open>The hearing threshold\<close>

lemma is_finite_fl_val: "is_finite a \<Longrightarrow> Fin (fl_val a) = a"
  by (cases a) simp_all

lemma finite_map_Fin: "list_all is_finite xs \<Longrightarrow> map Fin (map fl_val xs) = xs"
  by (induction xs) (simp_all add: is_finite_fl_val)

text \<open>
  On a well-formed compressor the fit succeeds and the method returns \<open>10 ** (v / 10)\<close>
  of the spline's value \<open>v\<close> at each converted frequency.
\<close>

lemma hearing_threshold_at_freqs_fit:
  assumes "compressor_ok c"
  obtains pp ys where "hearing_threshold_contour c = map Fin ys" "length ys = 29"
    "cubic_spline contour_freqs (map Fin ys) = Inr pp"
    "hearing_threshold_at_freqs bark_to_hertz c bark_freqs
       = Inr (map (\<lambda>u. Fin (10 powr (ppoly_eval pp (bark_to_hertz u) / 10))) bark_freqs)"
proof -
  let ?ys = "map fl_val (hearing_threshold_contour c)"
  have ys: "hearing_threshold_contour c = map Fin ?ys"
    using assms unfolding compressor_ok_def by (intro finite_map_Fin [symmetric]) simp
  have len: "length ?ys = 29"
    using assms by (simp add: compressor_ok_def)
  then have "length ?ys = length contour_freqs" by simp
  then have "\<exists>pp. cubic_spline contour_freqs (map Fin ?ys) = Inr pp"
    by (intro cubic_spline_fits [OF contour_freqs_sorted]) simp_all
  then obtain pp where pp: "cubic_spline contour_freqs (map Fin ?ys) = Inr pp" by blast
  from pp have pp': "cubic_spline contour_freqs (hearing_threshold_contour c) = Inr pp"
    unfolding ys [symmetric] .
  have fr: "equal_loudness_contour_freqs c = contour_freqs"
    using assms by (simp add: compressor_ok_def)
  have "sorted_wrt (<) (pp_x pp) \<and> 2 \<le> length (pp_x pp)"
    using pp by (rule cubic_spline_InrE) simp
  then have ev: "ppoly_evaluate pp (map bark_to_hertz bark_freqs)
                 = map (ppoly_eval pp) (map bark_to_hertz bark_freqs)"
    by (simp add: ppoly_evaluate_def ppoly_evaluate_from_map)
  show ?thesis
    by (rule that [OF ys len pp]) (simp add: hearing_threshold_at_freqs_def fr pp' ev)
qed

lemma hearing_threshold_at_freqs_uniform:
  assumes "compressor_ok c"
  obtains pp where "\<And>bark_to_hertz bark_freqs. hearing_threshold_at_freqs bark_to_hertz c bark_freqs
       = Inr (map (\<lambda>u. Fin (10 powr (ppoly_eval pp (bark_to_hertz u) / 10))) bark_freqs)"
proof -
  obtain pp ys where ys: "hearing_threshold_contour c = map Fin ys"
    and pp: "cubic_spline contour_freqs (map Fin ys) = Inr pp"
    using hearing_threshold_at_freqs_fit [OF assms, where bark_to_hertz = id and bark_freqs = "[]"]
    by blast
  have "hearing_threshold_at_freqs b c fs
        = Inr (map (\<lambda>u. Fin (10 powr (ppoly_eval pp (b u) / 10))) fs)" for b fs
  proof (rule hearing_threshold_at_freqs_fit [OF assms, where bark_to_hertz = b and bark_freqs = fs])
    fix pp' ys'
    assume ys': "hearing_threshold_contour c = map Fin ys'"
      and pp': "cubic_spline contour_freqs (map Fin ys') = Inr pp'"
      and eq: "hearing_threshold_at_freqs b c fs
               = Inr (map (\<lambda>u. Fin (10 powr (ppoly_eval pp' (b u) / 10))) fs)"
    have "map Fin ys' = map Fin ys" using ys ys' by simp
    with pp pp' have "pp' = pp" by simp
    with eq show ?thesis by simp
  qed
  then show ?thesis by (rule that)
qed

lemma hearing_threshold_excitation_const:
  assumes "compressor_ok c"
  shows "hearing_threshold_excitation bark_to_hertz (\<lambda>_ _. e0) c bark_freqs = Inr e0"
  by (rule hearing_threshold_at_freqs_fit [OF assms, where bark_to_hertz = bark_to_hertz
        and bark_freqs = bark_freqs]) (simp add: hearing_threshold_excitation_def)

lemma init_Fin_contour:
  assumes "0 \<le> l" "l \<le> 90" "init s g (Fin l) = Inr c"
  shows "compressor_ok c \<and> hearing_threshold_contour c = map (\<lambda>p. Fin (iso_spl l p)) EQUAL_LOUDNESS_CONTOUR_PARAMS"
  using assms init_Fin [OF assms(1,2), of s g] by (auto simp: compressor_ok_def list_all_iff)

text \<open>At a frequency that converts to the \<open>k\<close>-th anchor the method returns the anchor's power.\<close>

lemma hearing_threshold_at_anchor:
  assumes "compressor_ok c" "k < length bark_freqs" "k < 29"
    and "bark_to_hertz (bark_freqs ! k) = contour_freqs ! k" "hearing_threshold_contour c ! k = Fin v"
  shows "\<exists>ts. hearing_threshold_at_freqs bark_to_hertz c bark_freqs = Inr ts \<and> ts ! k = Fin (10 powr (v / 10))"
proof (rule hearing_threshold_at_freqs_fit [OF assms(1), where bark_to_hertz = bark_to_hertz
        and bark_freqs = bark_freqs])
  fix pp ys
  assume ys: "hearing_threshold_contour c = map Fin ys" and len: "length ys = 29"
    and pp: "cubic_spline contour_freqs (map Fin ys) = Inr pp"
    and eq: "hearing_threshold_at_freqs bark_to_hertz c bark_freqs
             = Inr (map (\<lambda>u. Fin (10 powr (ppoly_eval pp (bark_to_hertz u) / 10))) bark_freqs)"
  have "ys ! k = v" using ys len assms(3,5) by simp
  moreover have "ppoly_eval pp (contour_freqs ! k) = ys ! k"
    using cubic_spline_at_knot [OF pp] assms(3) by simp
  ultimately show ?thesis
    using eq assms(2,4) by simp
qed

section \<open>Properties of compress\<close>

text \<open>
  C1. Non-negativity (spec, section 8): for a threshold excitation of positive finite
  values, an excitation pattern of non-negative finite values, a schwell factor in
  \<open>(0, 1]\<close> and a non-negative compression level, every value \<open>compress\<close> returns is
  finite and non-negative, whatever the shapes the broadcast pairs.
\<close>

theorem compress_nonneg:
  assumes "hearing_threshold_excitation bark_to_hertz transfer c bark_freqs = Inr e0"
    and "rect e0" "list_all (list_all (\<lambda>v. \<exists>r. v = Fin r \<and> 0 < r)) e0"
    and "rect e" "list_all (list_all (\<lambda>v. \<exists>r. v = Fin r \<and> 0 \<le> r)) e"
    and "0 < schwell_factor c" "schwell_factor c \<le> 1" "0 \<le> compression_level c"
    and "compress bark_to_hertz transfer c e bark_freqs = Inr L"
  shows "list_all (list_all (\<lambda>v. \<exists>r. v = Fin r \<and> 0 \<le> r)) L"
proof -
  let ?f = "compress_elem (schwell_factor c) (compression_level c)"
  have "broadcast2 ?f e0 e = Inr L"
    using assms(1,9) by (simp add: compress_def)
  then show ?thesis
  proof (rule broadcast2_InrE)
    fix r k
    assume r: "bdim (fst (shape e0)) (fst (shape e)) = Some r"
      and k: "bdim (snd (shape e0)) (snd (shape e)) = Some k"
      and L: "L = map (\<lambda>i. map (\<lambda>j. ?f (bget e0 i j) (bget e i j)) [0..<k]) [0..<r]"
    have r0: "bdim (length e0) (length e) = Some r" and r1: "bdim (length e) (length e0) = Some r"
      using r by (simp_all add: fst_shape bdim_commute)
    have k1: "bdim (snd (shape e)) (snd (shape e0)) = Some k"
      using k by (simp add: bdim_commute)
    have "\<exists>x. ?f (bget e0 i j) (bget e i j) = Fin x \<and> 0 \<le> x" if i: "i < r" and j: "j < k" for i j
    proof -
      obtain a where a: "bget e0 i j = Fin a" "0 < a"
        using bget_list_all [OF assms(3,2) r0 k i j] by blast
      obtain b where b: "bget e i j = Fin b" "0 \<le> b"
        using bget_list_all [OF assms(5,4) r1 k1 i j] by blast
      show ?thesis
        using compress_elem_nonneg [OF a(2) assms(6,7) b(2) assms(8)] a(1) b(1) by simp
    qed
    then show ?thesis by (auto simp: L list_all_iff)
  qed
qed

theorem compress_nonneg_witness:
  "\<exists>c L. default_compressor = Inr c
     \<and> compress (\<lambda>b. b) (\<lambda>_ _. [[Fin 1]]) c [[Fin 4]] [10] = Inr L
     \<and> list_all (list_all (\<lambda>v. \<exists>r. v = Fin r \<and> 0 \<le> r)) L"
proof -
  obtain c where c: "default_compressor = Inr c" "compressor_ok c"
    "schwell_factor c = 0.5" "compression_level c = 0.04"
    using default_compressor_ok by blast
  have h: "hearing_threshold_excitation (\<lambda>b. b) (\<lambda>_ _. [[Fin 1]]) c [10] = Inr [[Fin 1]]"
    using c(2) by (rule hearing_threshold_excitation_const)
  then have "compress (\<lambda>b. b) (\<lambda>_ _. [[Fin 1]]) c [[Fin 4]] [10]
             = Inr [[compress_elem (schwell_factor c) (compression_level c) (Fin 1) (Fin 4)]]"
    by (simp add: compress_def broadcast2_def shape_def bdim_def bget_def)
  moreover note compress_nonneg [OF h _ _ _ _ _ _ _ this]
  ultimately show ?thesis
    using c by (auto simp: rect_def shape_def)
qed

text \<open>
  C2. Zero at threshold (spec, section 8): an excitation pattern equal to the threshold
  excitation, of positive finite values, is compressed to zero everywhere, with the
  threshold's shape.
\<close>

theorem compress_at_threshold:
  assumes "hearing_threshold_excitation bark_to_hertz transfer c bark_freqs = Inr e0"
    and "rect e0" "list_all (list_all (\<lambda>v. \<exists>r. v = Fin r \<and> 0 < r)) e0"
    and "0 < schwell_factor c"
  shows "compress bark_to_hertz transfer c e0 bark_freqs = Inr (map (map (\<lambda>_. Fin 0)) e0)"
proof -
  let ?f = "compress_elem (schwell_factor c) (compression_level c)"
  have "broadcast2 ?f e0 (map (map id) e0) = Inr (map (map (\<lambda>a. ?f a (id a))) e0)"
    using assms(2) by (rule broadcast2_map_self)
  moreover have "map (map (\<lambda>a. ?f a a)) e0 = map (map (\<lambda>_. Fin 0)) e0"
  proof (intro map_cong refl)
    fix row v assume "row \<in> set e0" "v \<in> set row"
    then obtain r where "v = Fin r" "0 < r" using assms(3) by (auto simp: list_all_iff)
    then show "?f v v = Fin 0" using assms(4) by (simp add: compress_elem_at_threshold)
  qed
  ultimately show ?thesis
    using assms(1) by (simp add: compress_def)
qed

theorem compress_at_threshold_witness:
  "\<exists>c. default_compressor = Inr c
     \<and> compress (\<lambda>b. b) (\<lambda>_ _. [[Fin 2, Fin 3]]) c [[Fin 2, Fin 3]] [10, 20] = Inr [[Fin 0, Fin 0]]"
proof -
  obtain c where c: "default_compressor = Inr c" "compressor_ok c" "schwell_factor c = 0.5"
    using default_compressor_ok by blast
  have h: "hearing_threshold_excitation (\<lambda>b. b) (\<lambda>_ _. [[Fin 2, Fin 3]]) c [10, 20] = Inr [[Fin 2, Fin 3]]"
    using c(2) by (rule hearing_threshold_excitation_const)
  have "compress (\<lambda>b. b) (\<lambda>_ _. [[Fin 2, Fin 3]]) c [[Fin 2, Fin 3]] [10, 20] = Inr [[Fin 0, Fin 0]]"
    using c compress_at_threshold [OF h] by (simp add: rect_def shape_def)
  with c(1) show ?thesis by blast
qed

text \<open>
  C4. Above threshold (spec, section 8, the scenario with four times the threshold): an
  excitation pattern \<open>k\<close> times the threshold excitation, \<open>k > 1\<close>, is compressed to
  finite, strictly positive values of the threshold's shape, for every positive schwell
  factor and compression level.
\<close>

theorem compress_above_threshold:
  assumes "hearing_threshold_excitation bark_to_hertz transfer c bark_freqs = Inr e0"
    and "rect e0" "list_all (list_all (\<lambda>v. \<exists>r. v = Fin r \<and> 0 < r)) e0"
    and "0 < schwell_factor c" "0 < compression_level c" "1 < k"
  shows "\<exists>L. compress bark_to_hertz transfer c (map (map (fl_mul (Fin k))) e0) bark_freqs = Inr L
            \<and> shape L = shape e0 \<and> list_all (list_all (\<lambda>v. \<exists>r. v = Fin r \<and> 0 < r)) L"
proof -
  let ?f = "compress_elem (schwell_factor c) (compression_level c)"
  have "broadcast2 ?f e0 (map (map (fl_mul (Fin k))) e0)
        = Inr (map (map (\<lambda>a. ?f a (fl_mul (Fin k) a))) e0)"
    using assms(2) by (rule broadcast2_map_self)
  moreover have "\<exists>x. ?f v (fl_mul (Fin k) v) = Fin x \<and> 0 < x"
    if mem: "row \<in> set e0" "v \<in> set row" for row v
  proof -
    obtain r where r: "v = Fin r" "0 < r" using assms(3) mem by (auto simp: list_all_iff)
    then have "r < k * r" using assms(6) by simp
    with r show ?thesis
      using compress_elem_above_threshold [OF r(2) _ assms(4,5)] by simp
  qed
  ultimately show ?thesis
    using assms(1) by (auto simp: compress_def shape_map_map list_all_iff)
qed

theorem compress_above_threshold_witness:
  "\<exists>c L. default_compressor = Inr c
     \<and> compress (\<lambda>b. b) (\<lambda>_ _. [[Fin 1]]) c [[Fin 4]] [10] = Inr L
     \<and> list_all (list_all (\<lambda>v. \<exists>r. v = Fin r \<and> 0 < r)) L"
proof -
  obtain c where c: "default_compressor = Inr c" "compressor_ok c"
    "schwell_factor c = 0.5" "compression_level c = 0.04"
    using default_compressor_ok by blast
  have h: "hearing_threshold_excitation (\<lambda>b. b) (\<lambda>_ _. [[Fin 1]]) c [10] = Inr [[Fin 1]]"
    using c(2) by (rule hearing_threshold_excitation_const)
  from compress_above_threshold [OF h, of 4] c
  obtain L where "compress (\<lambda>b. b) (\<lambda>_ _. [[Fin 1]]) c [[Fin 4]] [10] = Inr L"
    "list_all (list_all (\<lambda>v. \<exists>r. v = Fin r \<and> 0 < r)) L"
    by (auto simp: rect_def shape_def)
  with c(1) show ?thesis by blast
qed

section \<open>Properties of construction\<close>

text \<open>
  C19. Construction at a finite level succeeds only for levels in \<open>[0, 90]\<close>, and then
  yields a well-formed compressor: the table's frequencies, the 29 finite ISO 226 values
  at that level as the cached contour, and the given schwell factor and compression
  level.
\<close>

theorem init_ok:
  assumes "init schwell compression (Fin l) = Inr c"
  shows "0 \<le> l \<and> l \<le> 90 \<and> compressor_ok c \<and> schwell_factor c = schwell
         \<and> compression_level c = compression
         \<and> hearing_threshold_contour c = map (\<lambda>p. Fin (iso_spl l p)) EQUAL_LOUDNESS_CONTOUR_PARAMS"
proof (cases "0 \<le> l \<and> l \<le> 90")
  case True
  with assms show ?thesis
    by (auto simp: init_Fin compressor_ok_def list_all_iff)
next
  case False
  with assms show ?thesis by (simp add: init_Fin_range)
qed

theorem init_ok_witness:
  "\<exists>c. init 0.5 0.04 (Fin 45) = Inr c \<and> compressor_ok c \<and> schwell_factor c = 0.5"
proof -
  obtain c where c: "init 0.5 0.04 (Fin 45) = Inr c"
    using init_Fin [of 45] by simp
  with init_ok [OF c] show ?thesis by blast
qed

text \<open>
  C20. Construction at a finite level raises exactly when the level lies outside
  \<open>[0, 90]\<close>, and then with the contour's range error.
\<close>

theorem init_error:
  "init schwell compression (Fin l) = Inl err \<longleftrightarrow> (l < 0 \<or> 90 < l) \<and> err = ContourRangeError"
  by (cases "0 \<le> l \<and> l \<le> 90") (auto simp: init_Fin init_Fin_range)

section \<open>Properties of the hearing threshold\<close>

text \<open>
  C21. On a well-formed compressor, \<open>hearing_threshold_at_freqs\<close> never raises and
  returns one finite, strictly positive power per target frequency.
\<close>

theorem hearing_threshold_at_freqs_positive:
  assumes "compressor_ok c"
  shows "\<exists>ts. hearing_threshold_at_freqs bark_to_hertz c bark_freqs = Inr ts
            \<and> length ts = length bark_freqs \<and> list_all (\<lambda>v. \<exists>r. v = Fin r \<and> 0 < r) ts"
  by (rule hearing_threshold_at_freqs_fit [OF assms, where bark_to_hertz = bark_to_hertz
        and bark_freqs = bark_freqs]) (auto simp: list_all_iff)

theorem hearing_threshold_at_freqs_positive_witness:
  "\<exists>c ts. default_compressor = Inr c \<and> hearing_threshold_at_freqs (\<lambda>b. b) c [20, 1000] = Inr ts
          \<and> length ts = 2 \<and> list_all (\<lambda>v. \<exists>r. v = Fin r \<and> 0 < r) ts"
proof -
  obtain c where c: "default_compressor = Inr c" "compressor_ok c"
    using default_compressor_ok by blast
  with hearing_threshold_at_freqs_positive [OF c(2), of "\<lambda>b. b" "[20, 1000]"]
  show ?thesis by auto
qed

text \<open>
  C22. Interpolation identity (spec, section 8): at a target frequency that converts to
  the \<open>k\<close>-th anchor frequency, the threshold is the cached contour's value there,
  converted to power: \<open>10 ** (SPL / 10)\<close>.
\<close>

theorem hearing_threshold_interpolates:
  assumes "compressor_ok c" "k < length bark_freqs" "k < 29"
    and "bark_to_hertz (bark_freqs ! k) = contour_freqs ! k"
  shows "\<exists>ts. hearing_threshold_at_freqs bark_to_hertz c bark_freqs = Inr ts
            \<and> ts ! k = fl_exp10 (fl_div (hearing_threshold_contour c ! k) (Fin 10))"
proof (rule hearing_threshold_at_freqs_fit [OF assms(1), where bark_to_hertz = bark_to_hertz
        and bark_freqs = bark_freqs])
  fix pp ys
  assume ys: "hearing_threshold_contour c = map Fin ys" and len: "length ys = 29"
    and pp: "cubic_spline contour_freqs (map Fin ys) = Inr pp"
    and eq: "hearing_threshold_at_freqs bark_to_hertz c bark_freqs
             = Inr (map (\<lambda>u. Fin (10 powr (ppoly_eval pp (bark_to_hertz u) / 10))) bark_freqs)"
  have "ppoly_eval pp (contour_freqs ! k) = ys ! k"
    using cubic_spline_at_knot [OF pp] assms(3) by simp
  then show ?thesis
    using eq ys len assms(2,3,4) by simp
qed

theorem hearing_threshold_interpolates_witness:
  "\<exists>c ts. default_compressor = Inr c \<and> hearing_threshold_at_freqs (\<lambda>b. b) c contour_freqs = Inr ts
          \<and> ts ! 17 = fl_exp10 (fl_div (hearing_threshold_contour c ! 17) (Fin 10))"
proof -
  obtain c where c: "default_compressor = Inr c" "compressor_ok c"
    using default_compressor_ok by blast
  with hearing_threshold_interpolates [OF c(2), of 17 contour_freqs "\<lambda>b. b"]
  show ?thesis by auto
qed

section \<open>Shapes and errors of compress\<close>

text \<open>
  C23. The pipeline's case: a threshold excitation of one column per band, shape
  \<open>(R, 1)\<close>, against an excitation pattern of \<open>R\<close> bands by \<open>T\<close> frames. \<open>compress\<close>
  returns a tensor of the excitation's shape whose entry \<open>(i, j)\<close> compresses frame
  \<open>j\<close> of band \<open>i\<close> against the threshold of band \<open>i\<close>.
\<close>

theorem compress_column_broadcast:
  assumes "hearing_threshold_excitation bark_to_hertz transfer c bark_freqs = Inr e0"
    and "rect e0" "shape e0 = (R, 1)" "rect e" "shape e = (R, T)" "0 < R"
  shows "\<exists>L. compress bark_to_hertz transfer c e bark_freqs = Inr L \<and> shape L = (R, T) \<and> rect L
            \<and> (\<forall>i<R. \<forall>j<T. L ! i ! j
                 = compress_elem (schwell_factor c) (compression_level c) (e0 ! i ! 0) (e ! i ! j))"
proof -
  let ?f = "compress_elem (schwell_factor c) (compression_level c)"
  have len: "length e0 = R" "length e = R"
    using assms(3,5) fst_shape [of e0] fst_shape [of e] by simp_all
  have "bdim (length e0) (length e) = Some R" "bdim (snd (shape e0)) (snd (shape e)) = Some T"
    using len assms(3,5) by (simp_all add: bdim_def)
  then obtain L where L: "broadcast2 ?f e0 e = Inr L" "shape L = (R, T)" "rect L"
    and nth: "\<forall>i<R. \<forall>j<T. L ! i ! j = ?f (bget e0 i j) (bget e i j)"
    using broadcast2_shape [of e0 e R T ?f] assms(6) by auto
  have "bget e0 i j = e0 ! i ! 0" if i: "i < R" for i j
  proof -
    have "length (e0 ! i) = 1" using rect_nth_length [OF assms(2)] i len assms(3) by simp
    then show ?thesis using i len by (auto simp: bget_def Let_def)
  qed
  moreover have "bget e i j = e ! i ! j" if "i < R" "j < T" for i j
    using bget_rect [OF assms(4)] that len assms(5) by simp
  ultimately show ?thesis
    using L nth assms(1) by (simp add: compress_def)
qed

theorem compress_column_broadcast_witness:
  "\<exists>c L. default_compressor = Inr c
     \<and> compress (\<lambda>b. b) (\<lambda>_ _. [[Fin 1], [Fin 2]]) c [[Fin 1, Fin 3], [Fin 2, Fin 0]] [10, 20] = Inr L
     \<and> shape L = (2, 2) \<and> L ! 1 ! 0 = compress_elem (schwell_factor c) (compression_level c) (Fin 2) (Fin 2)"
proof -
  obtain c where c: "default_compressor = Inr c" "compressor_ok c"
    using default_compressor_ok by blast
  have h: "hearing_threshold_excitation (\<lambda>b. b) (\<lambda>_ _. [[Fin 1], [Fin 2]]) c [10, 20] = Inr [[Fin 1], [Fin 2]]"
    using c(2) by (rule hearing_threshold_excitation_const)
  from compress_column_broadcast [OF h, where e = "[[Fin 1, Fin 3], [Fin 2, Fin 0]]" and R = 2 and T = 2]
  obtain L where "compress (\<lambda>b. b) (\<lambda>_ _. [[Fin 1], [Fin 2]]) c [[Fin 1, Fin 3], [Fin 2, Fin 0]] [10, 20] = Inr L"
    "shape L = (2, 2)" "L ! 1 ! 0 = compress_elem (schwell_factor c) (compression_level c) (Fin 2) (Fin 2)"
    by (auto simp: rect_def shape_def)
  with c(1) show ?thesis by blast
qed

text \<open>
  C24. Shape preservation fails: the spec says the result of \<open>compress\<close> has the shape
  of the excitation pattern whatever the shape the transfer step returns, but line 109
  broadcasts. A threshold excitation of \<open>R > 1\<close> bands against a one-band excitation
  pattern of \<open>T\<close> frames gives an \<open>R\<close>-by-\<open>T\<close> result.
\<close>

theorem compress_shape_not_preserved:
  assumes "compressor_ok c" "rect e0" "shape e0 = (R, 1)" "1 < R" "rect e" "shape e = (1, T)"
  shows "\<exists>L. compress bark_to_hertz (\<lambda>_ _. e0) c e bark_freqs = Inr L
            \<and> shape L = (R, T) \<and> shape L \<noteq> shape e"
proof -
  let ?f = "compress_elem (schwell_factor c) (compression_level c)"
  have len: "length e0 = R" "length e = 1"
    using assms(3,6) fst_shape [of e0] fst_shape [of e] by simp_all
  have "bdim (length e0) (length e) = Some R" "bdim (snd (shape e0)) (snd (shape e)) = Some T"
    using len assms(3,6) by (simp_all add: bdim_def)
  then obtain L where L: "broadcast2 ?f e0 e = Inr L" "shape L = (R, T)"
    using broadcast2_shape [of e0 e R T ?f] assms(4) by auto
  then show ?thesis
    using assms(1,4,6) by (simp add: compress_def hearing_threshold_excitation_const)
qed

theorem compress_shape_not_preserved_witness:
  "\<exists>c L. default_compressor = Inr c
     \<and> compress (\<lambda>b. b) (\<lambda>_ _. [[Fin 1], [Fin 2]]) c [[Fin 5]] [10] = Inr L
     \<and> shape L = (2, 1) \<and> shape L \<noteq> shape [[Fin 5]]"
proof -
  obtain c where c: "default_compressor = Inr c" "compressor_ok c"
    using default_compressor_ok by blast
  from compress_shape_not_preserved [OF c(2), of "[[Fin 1], [Fin 2]]" 2 "[[Fin 5]]" 1 "\<lambda>b. b" "[10]"]
  obtain L where "compress (\<lambda>b. b) (\<lambda>_ _. [[Fin 1], [Fin 2]]) c [[Fin 5]] [10] = Inr L"
    "shape L = (2, 1)" "shape L \<noteq> shape [[Fin 5]]"
    by (auto simp: rect_def shape_def)
  with c(1) show ?thesis by blast
qed

text \<open>
  C26. A NaN hearing threshold passes construction (the range check of
  \<open>equal_loudness_contour\<close> is false for NaN) and the error surfaces only later: every
  call of \<open>hearing_threshold_at_freqs\<close>, hence of \<open>compress\<close>, raises scipy's
  non-finite-input error.
\<close>

theorem init_nan_deferred:
  "\<exists>c. init schwell compression NaN = Inr c
       \<and> hearing_threshold_at_freqs bark_to_hertz c bark_freqs = Inl SplineNonFinite"
proof -
  have "map (contour_spl NaN) EQUAL_LOUDNESS_CONTOUR_PARAMS = map (\<lambda>_. NaN) EQUAL_LOUDNESS_CONTOUR_PARAMS"
    by (simp add: map_eq_conv contour_spl_NaN)
  then have "map (contour_spl NaN) EQUAL_LOUDNESS_CONTOUR_PARAMS = replicate 29 NaN"
    by (simp add: map_replicate_const)
  then show ?thesis
    by (simp add: init_def equal_loudness_contour_def hearing_threshold_at_freqs_def cubic_spline_def
        list_all_iff)
qed

text \<open>
  Batches can be split: although \<open>PPoly\<close>'s evaluation loop carries state from
  one point to the next, on a well-formed compressor the thresholds of a concatenation
  of frequency vectors are the concatenation of their thresholds.
\<close>

lemma hearing_threshold_at_freqs_append:
  assumes "compressor_ok c"
  shows "\<exists>ts1 ts2. hearing_threshold_at_freqs bark_to_hertz c fs1 = Inr ts1
            \<and> hearing_threshold_at_freqs bark_to_hertz c fs2 = Inr ts2
            \<and> hearing_threshold_at_freqs bark_to_hertz c (fs1 @ fs2) = Inr (ts1 @ ts2)"
proof -
  obtain pp where eq: "\<And>b fs. hearing_threshold_at_freqs b c fs
       = Inr (map (\<lambda>u. Fin (10 powr (ppoly_eval pp (b u) / 10))) fs)"
    using hearing_threshold_at_freqs_uniform [OF assms] by blast
  show ?thesis by (simp add: eq)
qed


text \<open>
  C31. The constructor's \<open>hearing_threshold\<close> level governs the method's output: between
  two levels in \<open>[0, 90]\<close>, the compressor built at the higher level returns a strictly
  higher threshold power at every anchor frequency, whatever the other parameters.
\<close>

theorem hearing_threshold_level_mono:
  assumes "0 \<le> l" "l < l'" "l' \<le> 90"
    and "init s g (Fin l) = Inr c" "init s' g' (Fin l') = Inr c'"
    and "k < length bark_freqs" "k < 29" "bark_to_hertz (bark_freqs ! k) = contour_freqs ! k"
  shows "\<exists>ts ts' a b. hearing_threshold_at_freqs bark_to_hertz c bark_freqs = Inr ts
           \<and> hearing_threshold_at_freqs bark_to_hertz c' bark_freqs = Inr ts'
           \<and> ts ! k = Fin a \<and> ts' ! k = Fin b \<and> a < b"
proof -
  let ?p = "EQUAL_LOUDNESS_CONTOUR_PARAMS ! k"
  have c: "compressor_ok c" "hearing_threshold_contour c ! k = Fin (iso_spl l ?p)"
    using init_Fin_contour [OF assms(1) _ assms(4)] assms(2,3,7) by simp_all
  have c': "compressor_ok c'" "hearing_threshold_contour c' ! k = Fin (iso_spl l' ?p)"
    using init_Fin_contour [OF _ assms(3,5)] assms(1,2,7) by simp_all
  have "iso_spl l ?p < iso_spl l' ?p"
    using iso_spl_strict_mono [OF row_ok_params assms(1,2)] assms(7) by simp
  then have "10 powr (iso_spl l ?p / 10) < 10 powr (iso_spl l' ?p / 10)"
    by simp
  then show ?thesis
    using hearing_threshold_at_anchor [where bark_to_hertz = bark_to_hertz and bark_freqs = bark_freqs,
        OF c(1) assms(6-8) c(2)]
      hearing_threshold_at_anchor [where bark_to_hertz = bark_to_hertz and bark_freqs = bark_freqs,
        OF c'(1) assms(6-8) c'(2)] by blast
qed

theorem hearing_threshold_level_mono_witness:
  "\<exists>c c' ts ts' a b. init 0.5 0.04 (Fin 20) = Inr c \<and> init 0.5 0.04 (Fin 40) = Inr c'
     \<and> hearing_threshold_at_freqs (\<lambda>u. u) c contour_freqs = Inr ts
     \<and> hearing_threshold_at_freqs (\<lambda>u. u) c' contour_freqs = Inr ts'
     \<and> ts ! 17 = Fin a \<and> ts' ! 17 = Fin b \<and> a < b"
proof -
  obtain c where c: "init 0.5 0.04 (Fin 20) = Inr c" using init_Fin [of 20] by simp
  obtain c' where c': "init 0.5 0.04 (Fin 40) = Inr c'" using init_Fin [of 40] by simp
  show ?thesis
    using hearing_threshold_level_mono [OF _ _ _ c c', of 17 contour_freqs "\<lambda>u. u"] c c' by auto
qed

end
