(* ===== verification/Float32.thy ===== *)
theory Float32
  imports Contour
begin

text \<open>
  How torch stores the table. \<open>torch.Tensor([...])\<close> (lines 53--55 and 67--69) turns
  each entry first into a Python float (IEEE binary64, the literal as CPython reads it) and
  then into torch's default dtype float32 (binary32), each time rounding to the nearest
  representable value, ties to even, and overflowing to an infinity at the format's
  rounding threshold. The rest of the development computes with exact reals; this theory
  shows where that is faithful and bounds the gap where it is not:
  \<^item> \<open>bin_round p emin threshold\<close> is IEEE round-to-nearest-even into the binary format with
    \<open>p\<close> significand bits and least exponent \<open>emin\<close> (the spacing of subnormals);
  \<^item> a value \<open>m * 2 ^ e\<close> with \<open>|m| < 2 ^ p\<close> is stored exactly, and every value in the
    normal range within a relative error of \<open>2 ^ -p\<close>;
  \<^item> the table's frequencies, all half-integers below \<open>2 ^ 23\<close>, are stored exactly, so the
    spline's knots are the table's; its \<open>Lu\<close> coefficients, such as \<open>-31.6\<close>, are not.
\<close>

section \<open>Rounding to a binary format\<close>

text \<open>The integer nearest to \<open>q\<close>, ties to the even one.\<close>

definition round_even :: "real \<Rightarrow> int" where
  "round_even q =
     (let f = \<lfloor>q\<rfloor>; d = q - of_int f in
      if d < 1 / 2 then f else if 1 / 2 < d then f + 1 else if even f then f else f + 1)"

text \<open>
  The exponent of the last significand bit of \<open>x\<close>: \<open>p\<close> bits below the leading bit, but
  never below \<open>emin\<close>, where the format's subnormals begin.
\<close>

definition bin_exp :: "nat \<Rightarrow> int \<Rightarrow> real \<Rightarrow> int" where
  "bin_exp p emin x = max emin (\<lfloor>log 2 \<bar>x\<bar>\<rfloor> - int p + 1)"

text \<open>
  Rounding \<open>x\<close> to the format, with IEEE's overflow rule: from \<open>threshold\<close> on (half an
  ulp above the largest finite value) the result is an infinity.
\<close>

definition bin_round :: "nat \<Rightarrow> int \<Rightarrow> real \<Rightarrow> real \<Rightarrow> fl" where
  "bin_round p emin threshold x =
     (if x \<le> - threshold then NInf
      else if threshold \<le> x then PInf
      else Fin (of_int (round_even (x / 2 powr bin_exp p emin x)) * 2 powr bin_exp p emin x))"

section \<open>The conversions of \<open>torch.Tensor\<close>\<close>

text \<open>A Python float literal (binary64: 53 bits, subnormals down to \<open>2 ^ -1074\<close>).\<close>

definition python_float :: "real \<Rightarrow> fl" where
  "python_float x = bin_round 53 (-1074) (2 powr 1024 - 2 powr 970) x"

text \<open>torch's conversion to float32 (24 bits, subnormals down to \<open>2 ^ -149\<close>); non-finite values are kept.\<close>

definition to_float32 :: "fl \<Rightarrow> fl" where
  "to_float32 v = (case v of Fin x \<Rightarrow> bin_round 24 (-149) (2 powr 128 - 2 powr 103) x | _ \<Rightarrow> v)"

text \<open>\<open>torch.Tensor\<close> of a list of Python numbers: each literal as a Python float, then as float32.\<close>

definition torch_tensor :: "real list \<Rightarrow> fl list" where
  "torch_tensor xs = map (\<lambda>x. to_float32 (python_float x)) xs"


section \<open>Exactness and error of the rounding\<close>

lemma round_even_int [simp]: "round_even (of_int m) = m"
  by (simp add: round_even_def)

lemma round_even_err: "\<bar>q - of_int (round_even q)\<bar> \<le> 1 / 2"
proof -
  have "0 \<le> q - of_int \<lfloor>q\<rfloor>" "q - of_int \<lfloor>q\<rfloor> < 1"
    by linarith+
  then show ?thesis
    by (auto simp: round_even_def Let_def)
qed

lemma bin_round_err:
  assumes "- threshold < x" "x < threshold"
  shows "\<exists>r. bin_round p emin threshold x = Fin r \<and> \<bar>r - x\<bar> \<le> 2 powr (bin_exp p emin x - 1)"
proof -
  define E where "E = bin_exp p emin x"
  define q where "q = x / 2 powr E"
  have x: "x = q * 2 powr E" by (simp add: q_def)
  have "\<bar>of_int (round_even q) * 2 powr E - x\<bar> = \<bar>q - of_int (round_even q)\<bar> * 2 powr E"
    by (simp add: x abs_mult abs_minus_commute flip: left_diff_distrib)
  also have "\<dots> \<le> 1 / 2 * 2 powr E"
    by (rule mult_right_mono [OF round_even_err]) simp
  also have "\<dots> = 2 powr (E - 1)"
    by (simp add: powr_diff)
  finally show ?thesis
    using assms by (simp add: bin_round_def E_def q_def)
qed

text \<open>In the normal range the spacing is at most \<open>2 ^ (1 - p)\<close> relative to the value.\<close>

lemma bin_exp_normal:
  assumes "2 powr (emin + int p - 1) \<le> \<bar>x\<bar>"
  shows "2 powr bin_exp p emin x \<le> \<bar>x\<bar> * 2 powr (1 - int p)"
proof -
  have "0 < (2::real) powr (emin + int p - 1)" by simp
  with assms have x0: "0 < \<bar>x\<bar>" by linarith
  define k where "k = \<lfloor>log 2 \<bar>x\<bar>\<rfloor>"
  have "real_of_int (emin + int p - 1) \<le> log 2 \<bar>x\<bar>"
    using le_log_iff [of 2 "\<bar>x\<bar>" "real_of_int (emin + int p - 1)"] assms x0 by linarith
  then have ke: "emin + int p - 1 \<le> k"
    unfolding k_def by linarith
  have pk: "2 powr k \<le> \<bar>x\<bar>"
    using floor_log_eq_powr_iff [of "\<bar>x\<bar>" 2 k] x0 unfolding k_def by simp
  have "bin_exp p emin x = k + (1 - int p)"
    using ke unfolding bin_exp_def k_def by linarith
  then have "2 powr bin_exp p emin x = 2 powr k * 2 powr (1 - int p)"
    by (simp add: powr_add [symmetric])
  also have "\<dots> \<le> \<bar>x\<bar> * 2 powr (1 - int p)"
    using pk by (rule mult_right_mono) simp
  finally show ?thesis .
qed

lemma powr_int_pred: "(2::real) powr (real_of_int (E - 1)) = 2 powr (real_of_int E) * 2 powr (- 1)"
  using powr_add [of 2 "real_of_int E" "- 1"] by simp

lemma bin_round_rel_err:
  assumes "- threshold < x" "x < threshold" "2 powr (emin + int p - 1) \<le> \<bar>x\<bar>"
  shows "\<exists>r. bin_round p emin threshold x = Fin r \<and> \<bar>r - x\<bar> \<le> \<bar>x\<bar> * 2 powr (- int p)"
proof -
  define E where "E = bin_exp p emin x"
  obtain r where r: "bin_round p emin threshold x = Fin r" "\<bar>r - x\<bar> \<le> 2 powr (E - 1)"
    using bin_round_err [OF assms(1,2)] unfolding E_def by blast
  have "2 powr (real_of_int (E - 1)) = 2 powr (real_of_int E) * 2 powr (- 1)"
    by (rule powr_int_pred)
  also have "\<dots> \<le> \<bar>x\<bar> * 2 powr (1 - int p) * 2 powr (- 1)"
    using bin_exp_normal [OF assms(3)] unfolding E_def by (rule mult_right_mono) simp
  also have "\<dots> = \<bar>x\<bar> * (2 powr (1 - real p) * 2 powr (- 1))"
    by simp
  also have "2 powr (1 - real p) * 2 powr (- 1) = (2::real) powr (- real p)"
    using powr_add [of 2 "1 - real p" "- 1"] by simp
  finally show ?thesis using r by auto
qed

text \<open>A value \<open>m * 2 ^ e\<close> with a mantissa of at most \<open>p\<close> bits is stored exactly.\<close>

lemma bin_exp_le:
  assumes "m \<noteq> 0" "\<bar>m\<bar> < 2 ^ p" "emin \<le> e"
  shows "bin_exp p emin (of_int m * 2 powr e) \<le> e"
proof -
  have "real_of_int \<bar>m\<bar> < real_of_int (2 ^ p)"
    using assms(2) by (simp only: of_int_less_iff)
  then have "\<bar>real_of_int m\<bar> < 2 powr real p"
    by (simp add: powr_realpow)
  then have "\<bar>of_int m * 2 powr e\<bar> < 2 powr (real_of_int (e + int p))"
    by (simp add: abs_mult powr_add mult.commute)
  moreover have "0 < \<bar>of_int m * 2 powr e :: real\<bar>"
    using assms(1) by simp
  ultimately have "log 2 \<bar>of_int m * 2 powr e\<bar> < of_int (e + int p)"
    by (simp add: log_less_iff)
  then have "\<lfloor>log 2 \<bar>of_int m * 2 powr e\<bar>\<rfloor> < e + int p"
    by (simp add: floor_less_iff)
  then show ?thesis
    using assms(3) unfolding bin_exp_def by (intro max.boundedI) linarith+
qed

lemma bin_round_exact:
  assumes "\<bar>m\<bar> < 2 ^ p" "emin \<le> (e :: int)"
    and "- threshold < of_int m * 2 powr e" "of_int m * 2 powr e < threshold"
  shows "bin_round p emin threshold (of_int m * 2 powr e) = Fin (of_int m * 2 powr e)"
proof (cases "m = 0")
  case True
  then show ?thesis using assms round_even_int [of 0] by (simp add: bin_round_def)
next
  case False
  define E where "E = bin_exp p emin (of_int m * 2 powr e)"
  have "E \<le> e" unfolding E_def by (rule bin_exp_le [OF False assms(1,2)])
  then have pw: "(2::real) powr (real_of_int e - real_of_int E) = 2 ^ nat (e - E)"
    by (simp add: powr_realpow [symmetric])
  have "of_int m * 2 powr e / 2 powr E = of_int m * ((2::real) powr e / 2 powr E)"
    by simp
  also have "\<dots> = of_int m * 2 ^ nat (e - E)"
    by (simp only: pw powr_diff [symmetric])
  finally have q: "of_int m * 2 powr e / 2 powr E = of_int (m * 2 ^ nat (e - E))"
    by simp
  then have qe: "of_int m * 2 powr e = of_int (m * 2 ^ nat (e - E)) * 2 powr E"
    by (simp add: divide_eq_eq)
  have r: "round_even (of_int m * 2 powr e / 2 powr E) = m * 2 ^ nat (e - E)"
    by (simp only: q round_even_int)
  show ?thesis
    using assms(3,4) unfolding bin_round_def E_def [symmetric] r by (simp add: qe)
qed

lemma bin_round_grid:
  assumes "bin_round p emin threshold x = Fin r" "2 powr k \<le> \<bar>x\<bar>" "\<bar>x\<bar> < 2 powr (k + 1)"
    and "emin \<le> k - int p + 1"
  shows "\<exists>n. r = of_int n * 2 powr (k - int p + 1)"
proof -
  have "0 < (2::real) powr k" by simp
  with assms(2) have x0: "0 < \<bar>x\<bar>" by linarith
  have "\<lfloor>log 2 \<bar>x\<bar>\<rfloor> = k"
    using floor_log_eq_powr_iff [of "\<bar>x\<bar>" 2 k] x0 assms(2,3) by simp
  then have "bin_exp p emin x = k - int p + 1"
    using assms(4) unfolding bin_exp_def by linarith
  then show ?thesis
    using assms(1) unfolding bin_round_def by (auto split: if_splits)
qed

lemma powr2_succ: "(2::real) powr (a + 1) = 2 * 2 powr a"
  by (simp add: powr_add)

lemma thr_bounds:
  "(2::real) powr 127 < 2 powr 128 - 2 powr 103"
  "(2::real) powr 128 - 2 powr 103 < 2 powr 1024 - 2 powr 970"
proof -
  have "(2::real) powr 103 < 2 powr 127" by simp
  moreover have "(2::real) powr 128 = 2 * 2 powr 127"
    using powr2_succ [of 127] by simp
  ultimately show "(2::real) powr 127 < 2 powr 128 - 2 powr 103" by linarith
  have "(2::real) powr 970 < 2 powr 1023" "(2::real) powr 128 < 2 powr 1023" by simp_all
  moreover have "(2::real) powr 1024 = 2 * 2 powr 1023"
    using powr2_succ [of 1023] by simp
  moreover have "0 < (2::real) powr 103" by simp
  ultimately show "(2::real) powr 128 - 2 powr 103 < 2 powr 1024 - 2 powr 970" by linarith
qed

section \<open>The table in float32\<close>

text \<open>Half-integers of fewer than 24 bits, such as every frequency of the table, survive both conversions.\<close>

lemma torch_tensor_half_exact:
  assumes "of_int \<lfloor>2 * x\<rfloor> = 2 * x" "\<bar>\<lfloor>2 * x\<rfloor>\<bar> < 2 ^ 24"
  shows "to_float32 (python_float x) = Fin x"
proof -
  define m where "m = \<lfloor>2 * x\<rfloor>"
  have m2: "real_of_int m = 2 * x"
    using assms(1) by (simp only: m_def)
  have x: "x = of_int m * 2 powr (- 1)"
    using m2 by (simp add: powr_minus)
  have "\<bar>real_of_int m\<bar> < 2 ^ 24"
    using assms(2) unfolding m_def by (metis of_int_abs of_int_less_iff of_int_numeral of_int_power)
  then have "\<bar>x\<bar> < 2 powr 127"
    by (simp add: x abs_mult powr_minus)
  then have b: "- (2 powr 128 - 2 powr 103) < x" "x < 2 powr 128 - 2 powr 103"
      "- (2 powr 1024 - 2 powr 970) < x" "x < 2 powr 1024 - 2 powr 970"
    using thr_bounds by linarith+
  have m53: "\<bar>m\<bar> < 2 ^ 53" "\<bar>m\<bar> < 2 ^ 24"
    using assms(2) unfolding m_def by simp_all
  have "python_float x = Fin x"
    unfolding python_float_def using bin_round_exact [OF m53(1), of "-1074" "- 1"] b(3,4) by (simp add: x)
  moreover have "to_float32 (Fin x) = Fin x"
    unfolding to_float32_def using bin_round_exact [OF m53(2), of "-149" "- 1"] b(1,2) by (simp add: x)
  ultimately show ?thesis by simp
qed

lemma torch_tensor_halves:
  "list_all (\<lambda>x. of_int \<lfloor>2 * x\<rfloor> = 2 * x \<and> \<bar>\<lfloor>2 * x\<rfloor>\<bar> < 2 ^ 24) xs \<Longrightarrow> torch_tensor xs = map Fin xs"
  by (induction xs) (simp_all add: torch_tensor_def torch_tensor_half_exact)

lemma table_freqs_halves:
  "list_all (\<lambda>x. of_int \<lfloor>2 * x\<rfloor> = 2 * x \<and> \<bar>\<lfloor>2 * x\<rfloor>\<bar> < 2 ^ 24) (map fst EQUAL_LOUDNESS_CONTOUR_PARAMS)"
  by (simp add: EQUAL_LOUDNESS_CONTOUR_PARAMS_def)

lemma python_float_rel_err:
  assumes "2 powr (- 1022) \<le> \<bar>x\<bar>" "\<bar>x\<bar> \<le> 2 powr 127"
  shows "\<exists>d. python_float x = Fin d \<and> \<bar>d - x\<bar> \<le> \<bar>x\<bar> * 2 powr (- 53)"
proof -
  have "- (2 powr 1024 - 2 powr 970) < x" "x < 2 powr 1024 - 2 powr 970"
    using assms(2) thr_bounds by linarith+
  moreover have "2 powr real_of_int (- 1074 + int 53 - 1) \<le> \<bar>x\<bar>"
    using assms(1) by simp
  ultimately show ?thesis
    unfolding python_float_def using bin_round_rel_err [where p = 53 and emin = "- 1074"] by simp
qed


lemma python_float_31_6:
  obtains d where "python_float (- 31.6) = Fin d" "2 powr 4 \<le> \<bar>d\<bar>" "\<bar>d\<bar> < 2 powr 5"
proof -
  have "(2::real) powr (- 1022) \<le> 2 powr 0" "(2::real) powr 5 \<le> 2 powr 127"
    by (intro powr_mono; simp)+
  then have "2 powr (- 1022) \<le> \<bar>- 31.6 :: real\<bar>" "\<bar>- 31.6 :: real\<bar> \<le> 2 powr 127"
    by simp_all
  then obtain d where d: "python_float (- 31.6) = Fin d" "\<bar>d - (- 31.6)\<bar> \<le> \<bar>- 31.6\<bar> * 2 powr (- 53)"
    using python_float_rel_err by blast
  have "(2::real) powr (- 53) \<le> 2 powr (- 9)"
    by simp
  moreover have "(2::real) powr (- 9) = 1 / 512"
    by (simp add: powr_minus)
  ultimately have "\<bar>d + 31.6\<bar> \<le> 31.6 / 512"
    using d(2) by simp
  then have "2 powr 4 \<le> \<bar>d\<bar>" "\<bar>d\<bar> < 2 powr 5"
    by (simp_all add: abs_if split: if_splits)
  with d(1) show ?thesis by (rule that)
qed

lemma Lu_first_inexact: "to_float32 (python_float (- 31.6)) \<noteq> Fin (- 31.6)"
proof
  assume eq: "to_float32 (python_float (- 31.6)) = Fin (- 31.6)"
  obtain d where d: "python_float (- 31.6) = Fin d" "2 powr 4 \<le> \<bar>d\<bar>" "\<bar>d\<bar> < 2 powr 5"
    by (rule python_float_31_6)
  have "bin_round 24 (- 149) (2 powr 128 - 2 powr 103) d = Fin (- 31.6)"
    using eq d(1) by (simp add: to_float32_def)
  then obtain n where n: "- 31.6 = of_int n * (2::real) powr (4 - int 24 + 1)"
    using bin_round_grid [OF _ _ _, of 24 "- 149" _ d "- 31.6" 4] d(2,3) by auto
  have "(2::real) powr (4 - int 24 + 1) = 1 / 524288"
    by (simp add: powr_minus)
  with n have "- 31.6 = of_int n * (1 / 524288 :: real)"
    by (simp only:)
  then have "real_of_int (n * 5) = - 82837504"
    by simp
  then have "n * 5 = - 82837504"
    by linarith
  then show False by presburger
qed


section \<open>Properties of the stored table\<close>

text \<open>
  C14. The knot tensor built at lines 53--55 holds exactly the table's frequencies, so the
  spline of line 80 is fitted through the table's knots; the tensor of the \<open>Lu\<close>
  coefficients built at line 68 does not hold the table's values.
\<close>

theorem torch_tensor_table:
  "torch_tensor (map fst EQUAL_LOUDNESS_CONTOUR_PARAMS) = map (\<lambda>p. Fin (fst p)) EQUAL_LOUDNESS_CONTOUR_PARAMS
   \<and> torch_tensor (map (\<lambda>(f, af, Lu, Tf). Lu) EQUAL_LOUDNESS_CONTOUR_PARAMS)
       \<noteq> map (\<lambda>(f, af, Lu, Tf). Fin Lu) EQUAL_LOUDNESS_CONTOUR_PARAMS"
proof
  show "torch_tensor (map fst EQUAL_LOUDNESS_CONTOUR_PARAMS) = map (\<lambda>p. Fin (fst p)) EQUAL_LOUDNESS_CONTOUR_PARAMS"
    using torch_tensor_halves [OF table_freqs_halves] by simp
  show "torch_tensor (map (\<lambda>(f, af, Lu, Tf). Lu) EQUAL_LOUDNESS_CONTOUR_PARAMS)
       \<noteq> map (\<lambda>(f, af, Lu, Tf). Fin Lu) EQUAL_LOUDNESS_CONTOUR_PARAMS"
    using Lu_first_inexact by (simp add: EQUAL_LOUDNESS_CONTOUR_PARAMS_def torch_tensor_def)
qed





end
