(* ===== verification/Spec2Isabelle.thy ===== *)
theory Spec2Isabelle
  imports Loudness_Compressor Float32
begin

text \<open>
  \<^bold>\<open>A verified model of torchpaqm's loudness core.\<close>

  The program is \<open>src/torchpaqm/loudness.py\<close>: the ISO 226 table
  \<open>EQUAL_LOUDNESS_CONTOUR_PARAMS\<close> with the default hearing threshold
  \<open>PHON_HEARING_THRESHOLD\<close>, and the class \<open>LoudnessCompressor\<close>. The class computes
  an equal-loudness contour once at construction (\<open>__init__\<close>, \<open>equal_loudness_contour\<close>).
  On each call it fits scipy's \<open>CubicSpline\<close> through that contour and evaluates it at
  target frequencies, converted from Bark to Hertz by an external helper
  (\<open>hearing_threshold_at_freqs\<close>). The external transfer step then maps the resulting
  threshold into excitation bands (\<open>hearing_threshold_excitation\<close>), and \<open>compress\<close>
  applies the Beaton \& Beerends formula element-wise to the threshold excitation and an
  excitation pattern, with torch's broadcasting.

  \<^bold>\<open>Theories and what they model.\<close>
  \<^item> \<open>Prelude\<close>: the error type of the model (one constructor per exception the code
    raises or inherits), the lemma collections, and lemmas on sorted lists and powers of
    ten that the components share.
  \<^item> \<open>Torch_Semantics\<close>: floats as extended reals (\<open>fl\<close>) with the IEEE rules for
    infinities and NaN of every operation the code uses: \<open>+ - * /\<close>, \<open>**\<close>,
    \<open>10 **\<close>, \<open>log10\<close>, \<open><\<close> and \<open>torch.clip\<close>. Tensors of rank two are lists of rows,
    and \<open>broadcast2\<close> is torch's broadcasting of a binary element-wise operation, raising
    where the shapes do not broadcast.
  \<^item> \<open>Contour\<close>: the table verbatim, and \<open>equal_loudness_contour\<close> (lines 60--76) with its
    range check and the two formulas per row (\<open>contour_Af\<close>, \<open>contour_spl\<close>). A real
    reference \<open>iso_spl\<close> gives the ISO formula.
  \<^item> \<open>Compression\<close>: \<open>compress_elem\<close>, the formula of lines 105--110 on one pair of
    floats, and the real-valued Beaton \& Beerends contract \<open>bb_loudness\<close>.
  \<^item> \<open>Tridiagonal\<close>: the banded solve inside \<open>CubicSpline\<close>, as elimination plus
    back-substitution (\<open>tri_solve\<close>). It fails (None) on a zero pivot.
  \<^item> \<open>Cubic_Spline\<close>: scipy's \<open>CubicSpline\<close> with its default not-a-knot boundary. It
    covers the input checks (\<open>cubic_spline\<close>), the slope system of each branch
    (\<open>spline_rows\<close>, \<open>first_row\<close>, \<open>interior_row\<close>, \<open>last_row\<close>), the Hermite
    coefficients (\<open>hermite_coeffs\<close>) and \<open>PPoly\<close>'s extrapolating evaluation
    (\<open>find_interval\<close>, \<open>ppoly_eval\<close>). scipy is not part of the repository, so these are
    modelled from the spec's description and scipy's documented defaults.
  \<^item> \<open>PPoly_Search\<close>: how \<open>PPoly\<close> evaluates an array of points: the loop of
    \<open>_ppoly.evaluate\<close> (\<open>ppoly_evaluate\<close>), which carries each point's interval as the
    hint for the next, and \<open>find_interval_ascending\<close> (\<open>find_interval_asc\<close>) with its
    bisection loop (\<open>find_interval_loop_counted\<close>, a \<open>function\<close> with a measure, which
    returns the interval and the number of passes; \<open>find_interval_loop\<close> is the
    interval).
  \<^item> \<open>Loudness_Compressor\<close>: the object's state as the record
    \<open>loudness_compressor\<close>, \<open>init\<close> for \<open>__init__\<close>, and the three methods
    \<open>hearing_threshold_at_freqs\<close>, \<open>hearing_threshold_excitation\<close> and \<open>compress\<close>. Each
    composes the components as the code does, every failure a value \<open>Inl\<close> of the
    error type. The methods assign no attribute (lines 78--110), so each is a function
    of the record, and the record is set once by \<open>init\<close>. This is the whole of the
    object's life: calls on one instance, concurrent or not, cannot affect one another,
    which is the spec's reason that no locking is needed. \<open>bark_to_hertz\<close> and the
    transfer step are parameters.
  \<^item> \<open>Float32\<close>: the storage of the table by \<open>torch.Tensor\<close> (lines 53--55, 67--69). Each
    literal is read as a Python float (\<open>python_float\<close>, IEEE binary64) and converted to
    float32 (\<open>to_float32\<close>). Both steps are \<open>bin_round\<close>, IEEE round-to-nearest-even
    with the format's subnormal floor and overflow threshold. \<open>torch_tensor\<close> is the
    conversion of a list.

  \<^bold>\<open>What is proved.\<close>
  \<^item> Compression (C1--C6, C11, C25, C28): non-negativity, zero at and below the
    threshold, positivity above it, and monotonicity in the excitation, on tensors of any
    broadcastable shape where the spec states it for tensors. Refinement of the float
    code by the real formula on its finite domain. The NaN that an unguarded zero
    threshold produces. Homogeneity of degree \<open>g\<close>: scaling both powers by \<open>k\<close> scales
    the loudness by \<open>k ** g\<close>. For \<open>g \<le> 1\<close>, a higher threshold never gives more
    loudness; the proof uses the concavity of \<open>x ** g\<close>.
  \<^item> Contour (C7--C10): exactly which levels raise, and refinement by the ISO formula on
    \<open>[0, 90]\<close>, with every value finite because the logarithm's argument stays positive
    for every row of the table. Strict growth with the level. The NaN level that passes
    the check.
  \<^item> Spline (C12, C13, C15--C18, C27): the fit does not depend on the exact solver,
    since the elimination's result is the unique solution of the slope system. The spline
    interpolates, its value and first and second derivatives are continuous at interior
    knots (C15), and it satisfies the not-a-knot conditions. The fit never fails on strictly
    increasing knots: every pivot of these systems is positive, so scipy's
    singular-matrix branch is unreachable. Evaluation uses the piece whose interval holds
    the point. On four or more knots the fit reproduces every cubic polynomial exactly,
    the defining property of the not-a-knot condition.
  \<^item> Construction and threshold (C19--C22, C26, C31): construction succeeds exactly on
    \<open>[0, 90]\<close> and establishes \<open>compressor_ok\<close>. On such a compressor
    \<open>hearing_threshold_at_freqs\<close> never fails, returns positive powers, and reproduces
    the contour's power at the anchors. Batches of frequencies can be split and joined
    (\<open>hearing_threshold_at_freqs_append\<close>). A NaN threshold level is accepted and fails
    later. A higher \<open>hearing_threshold\<close> level at construction gives a strictly higher
    threshold power at every anchor.
  \<^item> Stored table (C14, C34): the float32 knot tensor holds exactly the table's
    frequencies, so every spline property above applies to the knots the code fits
    through. The coefficient tensors do not hold the table's values (\<open>Lu = -31.6\<close> is
    stored inexactly). Every \<open>af\<close>, \<open>Lu\<close> and \<open>Tf\<close> of the table is stored within a
    relative error of \<open>2 ^ -24 + 2 ^ -53 + 2 ^ -77\<close>.
  \<^item> Shapes (C23, C24): the band-by-frame case, and the divergence from the spec's
    shape-preservation rule.
  \<^item> Evaluation (C29, C30): the loop that computes the interval makes at most
    \<open>1 + log2 w\<close> passes on a range of width \<open>w\<close>. For every hint it returns the
    reference interval, so the evaluation loop equals the pointwise evaluation
    (\<open>ppoly_evaluate_from_map\<close>).
  \<^item> Bounds and non-finite input (C32, C33): above the threshold the loudness is at most
    \<open>(e / s) ** g - (e0 / s) ** g\<close>; a NaN excitation gives NaN, or a silent 0 at
    compression level 0.

  \<^bold>\<open>Limits of the model.\<close>
  \<^item> Floats are exact reals with IEEE infinities and NaN. The rounding of each
    arithmetic operation, overflow of large finite results, and signed zero are not
    modelled. A property proved here therefore holds of the exact computation that the
    float code approximates. Rounding is modelled only where the code stores the
    table, in \<open>Float32\<close>. That gives the exact model its knots verbatim and bounds the
    error of its coefficients. Carrying rounding through every operation of the contour,
    the spline and the formula would replace each equation of this development by an
    error bound.
  \<^item> Tensors have rank two. A rank-one threshold vector is the column of
    \<open>unsqueeze(1)\<close>, and the transfer step's output is taken as a matrix. A tensor with
    no rows is the empty list, whose shape is \<open>(0, 0)\<close>. Broadcasting it against a
    \<open>(1, T)\<close> tensor with \<open>T > 0\<close> therefore raises in the model, where torch returns
    a \<open>(0, T)\<close> tensor.
  \<^item> The schwell factor and the compression level are reals, so a NaN or infinite
    parameter, which Python would accept, is not modelled. Neither is a NaN or infinite
    exponent of \<open>**\<close>.
  \<^item> No loop in the code is unbounded, so no definition needs fuel. The elimination
    recurses on the rows, the spline on the knots, the evaluation loop on the points, the
    bisection on the width of its range (its \<open>termination\<close> proof), and every other
    function is a \<open>map\<close> over a finite list. A NaN point, the only input that sends the
    search to its \<open>-1\<close> branch, cannot arise: the converted frequencies are reals.
  \<^item> Not modelled: \<open>bark_to_hertz\<close> and \<open>OuterToInnerTransfer\<close>, which lie outside the
    sources and the spec's scope, and the dtype and device moves, which are identities on
    exact values.
\<close>

end
